(* ===== verification/Go_Time.thy ===== *)
theory Go_Time
  imports Prelude
begin

text \<open>
  \<open>time.Time\<close> values in UTC and the two layouts the program formats them with:
  \<open>time.RFC3339Nano\<close> (update expressions and stored timestamps) and the fixed-width layout
  \<open>consentSKTimeFormat\<close> of \<open>internal/db/consent.go\<close> (sort keys of the consent ledger).
\<close>

section \<open>Calendar times\<close>

datatype gtime = GTime (g_year: nat) (g_month: nat) (g_day: nat)
  (g_hour: nat) (g_min: nat) (g_sec: nat) (g_nsec: nat)

definition gtime_key :: "gtime \<Rightarrow> nat list" where
  "gtime_key t = [g_year t, g_month t, g_day t, g_hour t, g_min t, g_sec t, g_nsec t]"

text \<open>The field ranges under which a layout prints a field in its nominal width.\<close>

definition valid_time :: "gtime \<Rightarrow> bool" where
  "valid_time t \<longleftrightarrow> g_year t < 10000 \<and> g_month t < 13 \<and> g_day t < 32 \<and> g_hour t < 24
     \<and> g_min t < 60 \<and> g_sec t < 60 \<and> g_nsec t < 1000000000"

text \<open>\<open>time.Time.IsZero\<close>: January 1, year 1, 00:00:00 UTC.\<close>

definition zero_time :: gtime where
  "zero_time = GTime 1 1 1 0 0 0 0"

lemma gtime_key_inject [simp]: "gtime_key a = gtime_key b \<longleftrightarrow> a = b"
  by (cases a; cases b) (simp add: gtime_key_def)

instantiation gtime :: linorder
begin

definition less_eq_gtime :: "gtime \<Rightarrow> gtime \<Rightarrow> bool" where
  "less_eq_gtime a b \<longleftrightarrow> gtime_key a \<le> gtime_key b"

definition less_gtime :: "gtime \<Rightarrow> gtime \<Rightarrow> bool" where
  "less_gtime a b \<longleftrightarrow> gtime_key a < gtime_key b"

instance
proof
  fix x y z :: gtime
  show "x < y \<longleftrightarrow> x \<le> y \<and> \<not> y \<le> x"
    by (simp add: less_eq_gtime_def less_gtime_def less_le_not_le)
  show "x \<le> x"
    by (simp add: less_eq_gtime_def)
  show "x \<le> y \<Longrightarrow> y \<le> z \<Longrightarrow> x \<le> z"
    by (auto simp: less_eq_gtime_def)
  show "x \<le> y \<Longrightarrow> y \<le> x \<Longrightarrow> x = y"
    using gtime_key_inject [of x y] by (simp add: less_eq_gtime_def)
  show "x \<le> y \<or> y \<le> x"
    by (auto simp: less_eq_gtime_def)
qed

end

section \<open>Decimal fields\<close>

definition digit :: "nat \<Rightarrow> char" where
  "digit d = char_of (48 + d)"

fun pad :: "nat \<Rightarrow> nat \<Rightarrow> string" where
  "pad 0 n = []"
| "pad (Suc w) n = pad w (n div 10) @ [digit (n mod 10)]"

definition is_digit :: "char \<Rightarrow> bool" where
  "is_digit c \<longleftrightarrow> 48 \<le> (of_char c :: nat) \<and> (of_char c :: nat) \<le> 57"

fun parse_digits :: "nat \<Rightarrow> string \<Rightarrow> nat option" where
  "parse_digits acc [] = Some acc"
| "parse_digits acc (c # cs) =
     (if is_digit c then parse_digits (10 * acc + (of_char c - 48)) cs else None)"

lemma digit_code: "d < 10 \<Longrightarrow> (of_char (digit d) :: nat) = 48 + d"
  by (simp add: digit_def of_char_of)

lemma digit_less: "a < 10 \<Longrightarrow> b < 10 \<Longrightarrow> digit a < digit b \<longleftrightarrow> a < b"
  by (simp add: less_char_def digit_code)

lemma singleton_digit_less: "[digit (m mod 10)] < [digit (n mod 10)] \<longleftrightarrow> m mod 10 < n mod 10"
  by (simp add: digit_less)

lemma digit_eq: "a < 10 \<Longrightarrow> b < 10 \<Longrightarrow> digit a = digit b \<longleftrightarrow> a = b"
  by (metis add_left_cancel digit_code)

lemma is_digit_digit [simp]: "d < 10 \<Longrightarrow> is_digit (digit d)"
  by (simp add: is_digit_def digit_code)

lemma length_pad [simp]: "length (pad w n) = w"
  by (induction w arbitrary: n) auto

lemma set_pad_digit: "c \<in> set (pad w n) \<Longrightarrow> is_digit c"
  by (induction w arbitrary: n) auto

lemma pad_eq_iff: "m < 10 ^ w \<Longrightarrow> n < 10 ^ w \<Longrightarrow> pad w m = pad w n \<longleftrightarrow> m = n"
proof (induction w arbitrary: m n)
  case 0
  then show ?case by simp
next
  case (Suc w)
  from Suc.prems have "m div 10 < 10 ^ w" "n div 10 < 10 ^ w" by auto
  then have "pad w (m div 10) = pad w (n div 10) \<longleftrightarrow> m div 10 = n div 10"
    by (rule Suc.IH)
  moreover have "m = n \<longleftrightarrow> m div 10 = n div 10 \<and> m mod 10 = n mod 10"
    by (metis div_mult_mod_eq)
  ultimately show ?case by (simp add: digit_eq)
qed

lemma div_mod_less_iff:
  "m div 10 < n div 10 \<or> m div 10 = n div 10 \<and> m mod 10 < n mod 10 \<longleftrightarrow> m < (n::nat)"
proof -
  define a b c d where "a = m div 10" "b = m mod 10" "c = n div 10" "d = n mod 10"
  then have "m = 10 * a + b" "n = 10 * c + d" "b < 10" "d < 10" by simp_all
  then have "a < c \<or> a = c \<and> b < d \<longleftrightarrow> m < n" by auto
  then show ?thesis by (simp add: a_b_c_d_def)
qed

lemma pad_less_iff: "m < 10 ^ w \<Longrightarrow> n < 10 ^ w \<Longrightarrow> pad w m < pad w n \<longleftrightarrow> m < n"
proof (induction w arbitrary: m n)
  case 0
  then show ?case by simp
next
  case (Suc w)
  from Suc.prems have b: "m div 10 < 10 ^ w" "n div 10 < 10 ^ w" by auto
  have "pad (Suc w) m < pad (Suc w) n
      \<longleftrightarrow> m div 10 < n div 10 \<or> m div 10 = n div 10 \<and> m mod 10 < n mod 10"
    using append_less_append [of "pad w (m div 10)" "pad w (n div 10)"
        "[digit (m mod 10)]" "[digit (n mod 10)]"]
    by (simp only: pad.simps length_pad Suc.IH [OF b] pad_eq_iff [OF b] singleton_digit_less)
  also have "\<dots> \<longleftrightarrow> m < n"
    by (rule div_mod_less_iff)
  finally show ?case .
qed

lemma parse_digits_append:
  "parse_digits acc (xs @ ys) =
     (case parse_digits acc xs of None \<Rightarrow> None | Some a \<Rightarrow> parse_digits a ys)"
  by (induction xs arbitrary: acc) auto

lemma parse_digits_pad: "n < 10 ^ w \<Longrightarrow> parse_digits acc (pad w n) = Some (acc * 10 ^ w + n)"
proof (induction w arbitrary: n)
  case 0
  then show ?case by simp
next
  case (Suc w)
  then have "parse_digits acc (pad w (n div 10)) = Some (acc * 10 ^ w + n div 10)" by auto
  then show ?case by (simp add: parse_digits_append digit_code algebra_simps)
qed

section \<open>Layouts\<close>

definition fmt_seconds :: "gtime \<Rightarrow> string" where
  "fmt_seconds t = pad 4 (g_year t) @ ''-'' @ pad 2 (g_month t) @ ''-'' @ pad 2 (g_day t) @ ''T''
     @ pad 2 (g_hour t) @ '':'' @ pad 2 (g_min t) @ '':'' @ pad 2 (g_sec t)"

text \<open>Layout \<open>"2006-01-02T15:04:05.000000000Z07:00"\<close> of a UTC time.\<close>

definition fmt_fixed :: "gtime \<Rightarrow> string" where
  "fmt_fixed t = fmt_seconds t @ ''.'' @ pad 9 (g_nsec t) @ ''Z''"

text \<open>Layout \<open>time.RFC3339Nano\<close>: trailing zeros of the fraction are dropped, and an
  empty fraction drops the point.\<close>

definition trim_zeros :: "string \<Rightarrow> string" where
  "trim_zeros s = rev (dropWhile (\<lambda>c. c = CHR ''0'') (rev s))"

definition fmt_nano :: "gtime \<Rightarrow> string" where
  "fmt_nano t = fmt_seconds t
     @ (let f = trim_zeros (pad 9 (g_nsec t)) in if f = [] then [] else ''.'' @ f) @ ''Z''"

text \<open>Layout \<open>time.RFC3339\<close>, used in event payloads.\<close>

definition fmt_rfc3339 :: "gtime \<Rightarrow> string" where
  "fmt_rfc3339 t = fmt_seconds t @ ''Z''"

text \<open>Parsing of a stored UTC timestamp (\<open>time.Parse(time.RFC3339, \<dots>)\<close> on \<open>Z\<close> times).\<close>

definition parse_frac :: "string \<Rightarrow> nat option" where
  "parse_frac r =
     (if r = ''Z'' then Some 0
      else if r \<noteq> [] \<and> hd r = CHR ''.'' \<and> last r = CHR ''Z'' \<and> 3 \<le> length r \<and> length r \<le> 11
      then parse_digits 0 (butlast (tl r) @ replicate (11 - length r) (CHR ''0''))
      else None)"

definition parse_time :: "string \<Rightarrow> gtime option" where
  "parse_time s = do {
     y \<leftarrow> parse_digits 0 (take 4 s);
     mo \<leftarrow> parse_digits 0 (take 2 (drop 5 s));
     d \<leftarrow> parse_digits 0 (take 2 (drop 8 s));
     h \<leftarrow> parse_digits 0 (take 2 (drop 11 s));
     mi \<leftarrow> parse_digits 0 (take 2 (drop 14 s));
     se \<leftarrow> parse_digits 0 (take 2 (drop 17 s));
     n \<leftarrow> parse_frac (drop 19 s);
     (let t = GTime y mo d h mi se n
      in if fmt_seconds t = take 19 s \<and> valid_time t then Some t else None)
   }"

lemma length_fmt_seconds [simp]: "length (fmt_seconds t) = 19"
  by (simp add: fmt_seconds_def)

lemma length_fmt_fixed [simp]: "length (fmt_fixed t) = 30"
  by (simp add: fmt_fixed_def)

text \<open>The fixed-width layout sorts byte-wise in chronological order.\<close>

lemma fmt_fixed_less_iff:
  assumes "valid_time a" and "valid_time b"
  shows "fmt_fixed a < fmt_fixed b \<longleftrightarrow> a < b"
  using assms unfolding valid_time_def less_gtime_def gtime_key_def fmt_fixed_def fmt_seconds_def
  by (auto simp: append_less_append pad_less_iff pad_eq_iff)

lemma fmt_fixed_inject:
  assumes "valid_time a" and "valid_time b" and "fmt_fixed a = fmt_fixed b"
  shows "a = b"
  using assms fmt_fixed_less_iff [of a b] fmt_fixed_less_iff [of b a]
  by (metis neq_iff)

lemma trim_zeros_fill:
  assumes "length s = n"
  shows "trim_zeros s @ replicate (n - length (trim_zeros s)) (CHR ''0'') = s"
proof -
  let ?z = "\<lambda>c::char. c = CHR ''0''"
  have split: "s = trim_zeros s @ rev (takeWhile ?z (rev s))"
    unfolding trim_zeros_def by (metis rev_append rev_rev_ident takeWhile_dropWhile_id)
  have "\<forall>c \<in> set (takeWhile ?z (rev s)). c = CHR ''0''"
    by (auto dest: set_takeWhileD)
  then have "takeWhile ?z (rev s) = replicate (length (takeWhile ?z (rev s))) (CHR ''0'')"
    by (metis replicate_length_same)
  then have "rev (takeWhile ?z (rev s)) = replicate (length (takeWhile ?z (rev s))) (CHR ''0'')"
    by (metis rev_replicate)
  moreover have "length (takeWhile ?z (rev s)) = n - length (trim_zeros s)"
    using assms split by (metis add_diff_cancel_left' length_append length_rev)
  ultimately show ?thesis using split by metis
qed

lemma length_trim_zeros: "length (trim_zeros s) \<le> length s"
  unfolding trim_zeros_def using length_dropWhile_le [of "\<lambda>c. c = CHR ''0''" "rev s"] by simp

lemma parse_frac_fmt:
  assumes "n < 1000000000"
  shows "parse_frac ((let f = trim_zeros (pad 9 n) in if f = [] then [] else ''.'' @ f) @ ''Z'')
    = Some n"
proof (cases "trim_zeros (pad 9 n) = []")
  case True
  then have "pad 9 n = replicate 9 (CHR ''0'')"
    using trim_zeros_fill [of "pad 9 n" 9] by simp
  also have "\<dots> = pad 9 0"
    by code_simp
  finally have "n = 0"
    using assms by (simp add: pad_eq_iff del: pad.simps)
  with True show ?thesis by (simp add: parse_frac_def)
next
  case False
  let ?f = "trim_zeros (pad 9 n)"
  have "length ?f \<le> 9"
    using length_trim_zeros [of "pad 9 n"] by simp
  moreover have "?f @ replicate (9 - length ?f) (CHR ''0'') = pad 9 n"
    by (rule trim_zeros_fill) simp
  moreover have "parse_digits 0 (pad 9 n) = Some n"
    using assms by (simp add: parse_digits_pad)
  ultimately show ?thesis
    using False by (auto simp: parse_frac_def Suc_le_eq)
qed

lemma fmt_seconds_fields:
  assumes "valid_time t"
  shows "parse_digits 0 (take 4 (fmt_seconds t @ r)) = Some (g_year t)"
    and "parse_digits 0 (take 2 (drop 5 (fmt_seconds t @ r))) = Some (g_month t)"
    and "parse_digits 0 (take 2 (drop 8 (fmt_seconds t @ r))) = Some (g_day t)"
    and "parse_digits 0 (take 2 (drop 11 (fmt_seconds t @ r))) = Some (g_hour t)"
    and "parse_digits 0 (take 2 (drop 14 (fmt_seconds t @ r))) = Some (g_min t)"
    and "parse_digits 0 (take 2 (drop 17 (fmt_seconds t @ r))) = Some (g_sec t)"
    and "take 19 (fmt_seconds t @ r) = fmt_seconds t"
    and "drop 19 (fmt_seconds t @ r) = r"
  using assms by (simp_all add: fmt_seconds_def valid_time_def parse_digits_pad del: pad.simps)

text \<open>Every valid time survives being stored and read back.\<close>

lemma parse_time_fmt_nano [decode_simps]:
  assumes "valid_time t"
  shows "parse_time (fmt_nano t) = Some t"
proof -
  have "g_nsec t < 1000000000" using assms by (simp add: valid_time_def)
  from parse_frac_fmt [OF this] show ?thesis
    unfolding parse_time_def fmt_nano_def fmt_seconds_fields [OF assms]
    by (simp add: assms)
qed

end
