(* ===== verification/Errors.thy ===== *)
theory Errors
  imports Go_Time
begin

text \<open>
  The error values of the program. Every sentinel of \<open>internal/db/account.go\<close> and
  \<open>internal/api/errors.go\<close> is a constructor, and so is every error class of the DynamoDB client
  that the code tests with \<open>errors.As\<close> or \<open>dynamodb.ConditionFailureIndex\<close>. Two sentinels with the
  same text (\<open>db.ErrNotFound\<close> and \<open>api.ErrNotFound\<close>) are distinct values, as in Go.
  \<open>fmt.Errorf("...: %w", err)\<close> keeps the wrapped error and adds text that only reaches the log,
  so wrapping is the identity here and \<open>errors.Is(err, X)\<close> is equality with \<open>X\<close>.
\<close>

datatype error =
    DbNotFound                  \<comment> \<open>\<open>db.ErrNotFound = dynamodb.ErrNotFound\<close>\<close>
  | DbAlreadyExists
  | DbEmailAlreadyExists
  | DbPasskeyAlreadyExists
  | DbPasskeySignCountRegression
  | DbVersionConflict
  | DbUnreadableProfileEmail    \<comment> \<open>\<open>errUnreadableProfileEmail\<close>\<close>
  | ConditionalCheckFailed      \<comment> \<open>\<open>*ddbTypes.ConditionalCheckFailedException\<close>\<close>
  | TransactConditionFailed nat \<comment> \<open>a cancelled transaction; \<open>ConditionFailureIndex\<close> gives the number\<close>
  | Transport string            \<comment> \<open>any other error of a client: network, throttling, validation\<close>
  | ApiNotFound
  | ApiAlreadyExists
  | ApiEmailAlreadyExists
  | ApiPasskeyAlreadyExists
  | ApiPasskeySignCountRegression
  | ApiForbiddenNamespace
  | ApiInvalidUnsubscribeToken
  | ApiInvalidUnsubscribeChannel
  | ApiInvalidInput
  | ApiInvalidCommunicationChannel
  | ApiVersionConflict
  | GoError string              \<comment> \<open>\<open>errors.New\<close> / \<open>fmt.Errorf\<close> with no sentinel\<close>

fun transport :: "error \<Rightarrow> bool" where
  "transport (Transport m) = True"
| "transport _ = False"

fun condition_failure_index :: "error \<Rightarrow> nat option" where
  "condition_failure_index (TransactConditionFailed i) = Some i"
| "condition_failure_index _ = None"

lemma transport_iff: "transport e \<longleftrightarrow> (\<exists>m. e = Transport m)"
  by (cases e) auto

lemma transport_no_index [simp]: "transport e \<Longrightarrow> condition_failure_index e = None"
  by (cases e) auto

lemma condition_failure_index_Some:
  "condition_failure_index e = Some i \<longleftrightarrow> e = TransactConditionFailed i"
  by (cases e) auto

end
