(* ===== verification/Dynamo.thy ===== *)
theory Dynamo
  imports Errors
begin

text \<open>
  The interface of the DynamoDB client (\<open>dynamodb.API\<close> of the shared SDK, package
  \<open>aws/dynamodb\<close>), which is not part of this repository. The client is a parameter: a record of
  operations over an abstract connection state \<open>'s\<close>, each taking exactly what the code passes
  (table name, key maps, expression strings with their placeholder maps, condition strings).
  What the code relies on is the locale \<open>dynamo\<close>: the documented behaviour of single-item
  conditional writes, update expressions, transactions and queries, against the contents
  \<open>tbl s\<close> of the one table. Every call may also fail with a \<open>Transport\<close> error; a write that fails
  so may or may not have been applied.
\<close>

section \<open>Attribute values, items, keys\<close>

datatype av =
    AvS string | AvN int | AvBOOL bool | AvL "av list" | AvM "(string \<times> av) list"
  | AvSS "string list" | AvNULL

type_synonym item = "string \<rightharpoonup> av"
type_synonym key = "string \<times> string"
type_synonym table = "key \<rightharpoonup> item"

definition mk_key :: "string \<Rightarrow> string \<Rightarrow> item" where
  "mk_key p k = [''PK'' \<mapsto> AvS p, ''SK'' \<mapsto> AvS k]"

fun av_str :: "av option \<Rightarrow> string" where
  "av_str (Some (AvS s)) = s"
| "av_str _ = []"

definition item_key :: "item \<Rightarrow> key" where
  "item_key it = (av_str (it ''PK''), av_str (it ''SK''))"

lemma item_key_mk_key [simp]: "item_key (mk_key p k) = (p, k)"
  by (simp add: item_key_def mk_key_def)

section \<open>The client's operations\<close>

record query_input =
  TableName :: string
  IndexName :: "string option"
  KeyConditionExpression :: string
  ExpressionValues :: "string \<rightharpoonup> av"
  ScanIndexForward :: "bool option"
  Limit :: "nat option"

datatype transact_op = TransactPut | TransactDelete | TransactUpdate

record transact_item =
  ti_Table :: string
  ti_Op :: transact_op
  ti_Item :: item
  ti_Key :: item
  ti_UpdateExpr :: string
  ti_ExprNames :: "string \<rightharpoonup> string"
  ti_ExprValues :: "string \<rightharpoonup> av"
  ti_Condition :: "string option"

record 's ddb_api =
  BuildKey :: "string \<Rightarrow> string \<Rightarrow> string \<Rightarrow> string \<Rightarrow> error + item"
  GetItem :: "string \<Rightarrow> item \<Rightarrow> 's \<Rightarrow> (error + item) \<times> 's"
  BatchGetItem :: "string \<Rightarrow> item list \<Rightarrow> 's \<Rightarrow> (error + item list) \<times> 's"
  Query :: "query_input \<Rightarrow> 's \<Rightarrow> (error + item list) \<times> 's"
  QueryAll :: "query_input \<Rightarrow> 's \<Rightarrow> (error + item list) \<times> 's"
  WriteItem :: "string \<Rightarrow> item \<Rightarrow> string option \<Rightarrow> 's \<Rightarrow> error option \<times> 's"
  UpdateItem :: "string \<Rightarrow> item \<Rightarrow> string \<Rightarrow> (string \<rightharpoonup> av) \<Rightarrow> (string \<rightharpoonup> string)
    \<Rightarrow> string option \<Rightarrow> 's \<Rightarrow> (error + item) \<times> 's"
  DeleteItem :: "string \<Rightarrow> item \<Rightarrow> 's \<Rightarrow> error option \<times> 's"
  TransactWrite :: "transact_item list \<Rightarrow> 's \<Rightarrow> error option \<times> 's"

section \<open>Expressions\<close>

text \<open>The fragment of the condition and update expression languages that the program writes, as
  syntax trees with their concrete text. A condition is a conjunction of atoms.\<close>

datatype catom = AttrExists string | AttrNotExists string
  | NameEq string string | NameLe string string

type_synonym cond = "catom list"

fun render_catom :: "catom \<Rightarrow> string" where
  "render_catom (AttrExists a) = ''attribute_exists('' @ a @ '')''"
| "render_catom (AttrNotExists a) = ''attribute_not_exists('' @ a @ '')''"
| "render_catom (NameEq n v) = n @ '' = '' @ v"
| "render_catom (NameLe n v) = n @ '' <= '' @ v"

definition render_cond :: "cond \<Rightarrow> string" where
  "render_cond cs = join '' AND '' (map render_catom cs)"

fun eval_catom :: "(string \<rightharpoonup> string) \<Rightarrow> (string \<rightharpoonup> av) \<Rightarrow> item option \<Rightarrow> catom \<Rightarrow> bool" where
  "eval_catom nm vl it (AttrExists a) = (case it of None \<Rightarrow> False | Some i \<Rightarrow> i a \<noteq> None)"
| "eval_catom nm vl it (AttrNotExists a) = (case it of None \<Rightarrow> True | Some i \<Rightarrow> i a = None)"
| "eval_catom nm vl it (NameEq n v) = (case (it, nm n, vl v) of
     (Some i, Some a, Some x) \<Rightarrow> i a = Some x | _ \<Rightarrow> False)"
| "eval_catom nm vl it (NameLe n v) = (case (it, nm n, vl v) of
     (Some i, Some a, Some (AvN y)) \<Rightarrow> (case i a of Some (AvN x) \<Rightarrow> x \<le> y | _ \<Rightarrow> False)
   | _ \<Rightarrow> False)"

definition eval_cond :: "(string \<rightharpoonup> string) \<Rightarrow> (string \<rightharpoonup> av) \<Rightarrow> item option \<Rightarrow> cond option \<Rightarrow> bool" where
  "eval_cond nm vl it c = (case c of None \<Rightarrow> True | Some cs \<Rightarrow> list_all (eval_catom nm vl it) cs)"

text \<open>An update expression: the placeholder pairs of its SET, ADD and DELETE clauses.\<close>

datatype uexpr = UExpr (u_sets: "(string \<times> string) list") (u_adds: "(string \<times> string) list")
  (u_dels: "(string \<times> string) list")

definition render_set :: "string \<times> string \<Rightarrow> string" where
  "render_set p = fst p @ '' = '' @ snd p"

definition render_pair :: "string \<times> string \<Rightarrow> string" where
  "render_pair p = fst p @ '' '' @ snd p"

definition render_uexpr :: "uexpr \<Rightarrow> string" where
  "render_uexpr u = join '' ''
     ((if u_sets u = [] then [] else [''SET '' @ join '', '' (map render_set (u_sets u))])
    @ (if u_adds u = [] then [] else [''ADD '' @ join '', '' (map render_pair (u_adds u))])
    @ (if u_dels u = [] then [] else [''DELETE '' @ join '', '' (map render_pair (u_dels u))]))"

definition u_pairs :: "uexpr \<Rightarrow> (string \<times> string) list" where
  "u_pairs u = u_sets u @ u_adds u @ u_dels u"

fun av_ss :: "av option \<Rightarrow> string list" where
  "av_ss (Some (AvSS l)) = l"
| "av_ss _ = []"

text \<open>\<open>ssl\<close> lists a string set in the order the service returns it.\<close>

definition apply_uexpr ::
  "(string set \<Rightarrow> string list) \<Rightarrow> (string \<rightharpoonup> string) \<Rightarrow> (string \<rightharpoonup> av) \<Rightarrow> uexpr \<Rightarrow> item \<Rightarrow> item" where
  "apply_uexpr ssl nm vl u it0 =
     (let sets = fold (\<lambda>(n, v) it. it(the (nm n) := vl v)) (u_sets u) it0;
          adds = fold (\<lambda>(n, v) it. it(the (nm n) :=
            Some (AvSS (ssl (set (av_ss (it (the (nm n)))) \<union> set (av_ss (vl v))))))) (u_adds u) sets
      in fold (\<lambda>(n, v) it.
            (let rest = set (av_ss (it (the (nm n)))) - set (av_ss (vl v))
             in it(the (nm n) := (if rest = {} then None else Some (AvSS (ssl rest)))))) (u_dels u) adds)"

section \<open>Writes and their effect on the table\<close>

datatype wreq =
    WPut item "cond option"
  | WDel key
  | WUpd key uexpr "string \<rightharpoonup> string" "string \<rightharpoonup> av" "cond option"

fun wr_key :: "wreq \<Rightarrow> key" where
  "wr_key (WPut it c) = item_key it"
| "wr_key (WDel k) = k"
| "wr_key (WUpd k u nm vl c) = k"

fun wr_cond_ok :: "wreq \<Rightarrow> item option \<Rightarrow> bool" where
  "wr_cond_ok (WPut it c) old = eval_cond Map.empty Map.empty old c"
| "wr_cond_ok (WDel k) old = True"
| "wr_cond_ok (WUpd k u nm vl c) old = eval_cond nm vl old c"

text \<open>An update of a missing item creates it with its key attributes.\<close>

fun wr_new :: "(string set \<Rightarrow> string list) \<Rightarrow> wreq \<Rightarrow> item option \<Rightarrow> item option" where
  "wr_new ssl (WPut it c) old = Some it"
| "wr_new ssl (WDel k) old = None"
| "wr_new ssl (WUpd k u nm vl c) old =
     Some (apply_uexpr ssl nm vl u (case old of None \<Rightarrow> mk_key (fst k) (snd k) | Some it \<Rightarrow> it))"

definition wr_ok :: "wreq \<Rightarrow> table \<Rightarrow> bool" where
  "wr_ok w tb = wr_cond_ok w (tb (wr_key w))"

definition wr_apply :: "(string set \<Rightarrow> string list) \<Rightarrow> wreq \<Rightarrow> table \<Rightarrow> table" where
  "wr_apply ssl w tb = tb(wr_key w := wr_new ssl w (tb (wr_key w)))"

text \<open>Validation: placeholders are tokens, every placeholder used is defined and every one defined
  is used, no attribute is the target of two actions, keys are not updated, and the operand of ADD
  and DELETE is a non-empty set without duplicates.\<close>

definition token :: "string \<Rightarrow> bool" where
  "token s \<longleftrightarrow> s \<noteq> [] \<and> (hd s = CHR ''#'' \<or> hd s = CHR '':'')
     \<and> (\<forall>c \<in> set s. c \<noteq> CHR '' '' \<and> c \<noteq> CHR '','')"

fun catom_names :: "catom \<Rightarrow> string list" where
  "catom_names (NameEq n v) = [n]"
| "catom_names (NameLe n v) = [n]"
| "catom_names _ = []"

fun catom_vals :: "catom \<Rightarrow> string list" where
  "catom_vals (NameEq n v) = [v]"
| "catom_vals (NameLe n v) = [v]"
| "catom_vals _ = []"

definition cond_atoms :: "cond option \<Rightarrow> catom list" where
  "cond_atoms c = (case c of None \<Rightarrow> [] | Some cs \<Rightarrow> cs)"

text \<open>Attribute names inside \<open>attribute_exists(\<dots>)\<close> are plain identifiers.\<close>

definition plain :: "string \<Rightarrow> bool" where
  "plain a \<longleftrightarrow> (\<forall>c \<in> set a. c \<noteq> CHR '' '')"

fun catom_ok :: "catom \<Rightarrow> bool" where
  "catom_ok (AttrExists a) = plain a"
| "catom_ok (AttrNotExists a) = plain a"
| "catom_ok _ = True"

definition used_names :: "uexpr \<Rightarrow> cond option \<Rightarrow> string list" where
  "used_names u c = map fst (u_pairs u) @ concat (map catom_names (cond_atoms c))"

definition used_vals :: "uexpr \<Rightarrow> cond option \<Rightarrow> string list" where
  "used_vals u c = map snd (u_pairs u) @ concat (map catom_vals (cond_atoms c))"

definition good_ss :: "av option \<Rightarrow> bool" where
  "good_ss x \<longleftrightarrow> (case x of Some (AvSS l) \<Rightarrow> l \<noteq> [] \<and> distinct l | _ \<Rightarrow> False)"

definition valid_upd ::
  "uexpr \<Rightarrow> (string \<rightharpoonup> string) \<Rightarrow> (string \<rightharpoonup> av) \<Rightarrow> cond option \<Rightarrow> bool" where
  "valid_upd u nm vl c \<longleftrightarrow>
     u_pairs u \<noteq> [] \<and> c \<noteq> Some [] \<and> list_all catom_ok (cond_atoms c)
   \<and> list_all token (used_names u c) \<and> list_all token (used_vals u c)
   \<and> dom nm = set (used_names u c) \<and> dom vl = set (used_vals u c)
   \<and> distinct (map (\<lambda>p. the (nm (fst p))) (u_pairs u))
   \<and> (\<forall>p \<in> set (u_pairs u). the (nm (fst p)) \<noteq> ''PK'' \<and> the (nm (fst p)) \<noteq> ''SK'')
   \<and> (\<forall>p \<in> set (u_adds u @ u_dels u). good_ss (vl (snd p)))"

text \<open>What is left of validity when the placeholder maps are not looked at: the text parses.\<close>

definition well_formed_expr :: "uexpr \<Rightarrow> cond option \<Rightarrow> bool" where
  "well_formed_expr u c \<longleftrightarrow> c \<noteq> Some [] \<and> list_all catom_ok (cond_atoms c)
     \<and> list_all token (used_names u c) \<and> list_all token (used_vals u c)"

fun valid_write :: "wreq \<Rightarrow> bool" where
  "valid_write (WUpd k u nm vl c) = valid_upd u nm vl c"
| "valid_write (WPut it c) =
     (it ''PK'' = Some (AvS (fst (item_key it))) \<and> it ''SK'' = Some (AvS (snd (item_key it)))
      \<and> c \<noteq> Some [] \<and> list_all (\<lambda>a. catom_ok a \<and> catom_names a = []) (cond_atoms c))"
| "valid_write (WDel k) = True"

text \<open>The transaction item that requests a write.\<close>

fun render_write :: "string \<Rightarrow> wreq \<Rightarrow> transact_item" where
  "render_write tn (WPut it c) = \<lparr>ti_Table = tn, ti_Op = TransactPut, ti_Item = it,
     ti_Key = Map.empty, ti_UpdateExpr = [], ti_ExprNames = Map.empty, ti_ExprValues = Map.empty,
     ti_Condition = map_option render_cond c\<rparr>"
| "render_write tn (WDel k) = \<lparr>ti_Table = tn, ti_Op = TransactDelete, ti_Item = Map.empty,
     ti_Key = mk_key (fst k) (snd k), ti_UpdateExpr = [], ti_ExprNames = Map.empty,
     ti_ExprValues = Map.empty, ti_Condition = None\<rparr>"
| "render_write tn (WUpd k u nm vl c) = \<lparr>ti_Table = tn, ti_Op = TransactUpdate,
     ti_Item = Map.empty, ti_Key = mk_key (fst k) (snd k), ti_UpdateExpr = render_uexpr u,
     ti_ExprNames = nm, ti_ExprValues = vl, ti_Condition = map_option render_cond c\<rparr>"

definition commit :: "(string set \<Rightarrow> string list) \<Rightarrow> wreq list \<Rightarrow> table \<Rightarrow> table \<Rightarrow> bool" where
  "commit ssl ws tb tb' \<longleftrightarrow> (\<forall>w \<in> set ws. wr_ok w tb) \<and> tb' = fold (wr_apply ssl) ws tb"

text \<open>What a call that writes may do: commit and report success; report a failed condition and
  change nothing; or fail otherwise, with the write applied or not.\<close>

definition outcome :: "(string set \<Rightarrow> string list) \<Rightarrow> (error \<Rightarrow> bool) \<Rightarrow> wreq list \<Rightarrow> table
    \<Rightarrow> error option \<Rightarrow> table \<Rightarrow> bool" where
  "outcome ssl failed ws tb e tb' \<longleftrightarrow>
     (case e of None \<Rightarrow> commit ssl ws tb tb'
      | Some x \<Rightarrow> failed x \<and> tb' = tb \<or> transport x \<and> (tb' = tb \<or> commit ssl ws tb tb'))"

definition single_failed :: "wreq \<Rightarrow> table \<Rightarrow> error \<Rightarrow> bool" where
  "single_failed w tb e \<longleftrightarrow> e = ConditionalCheckFailed \<and> \<not> wr_ok w tb"

definition transact_failed :: "wreq list \<Rightarrow> table \<Rightarrow> error \<Rightarrow> bool" where
  "transact_failed ws tb e \<longleftrightarrow>
     (\<exists>i < length ws. e = TransactConditionFailed i \<and> \<not> wr_ok (ws ! i) tb)"

section \<open>Key conditions of queries\<close>

datatype kcond = KPk string | KPkPrefix string string | KGsi string string

fun render_kcond :: "kcond \<Rightarrow> string" where
  "render_kcond (KPk v) = ''PK = '' @ v"
| "render_kcond (KPkPrefix v w) = ''PK = '' @ v @ '' AND begins_with(SK, '' @ w @ '')''"
| "render_kcond (KGsi v w) = ''GSI1PK = '' @ v @ '' AND GSI1SK = '' @ w"

fun kcond_match :: "(string \<rightharpoonup> av) \<Rightarrow> kcond \<Rightarrow> key \<Rightarrow> item \<Rightarrow> bool" where
  "kcond_match vl (KPk v) k it = (vl v = Some (AvS (fst k)))"
| "kcond_match vl (KPkPrefix v w) k it =
     (vl v = Some (AvS (fst k)) \<and> has_prefix (av_str (vl w)) (snd k))"
| "kcond_match vl (KGsi v w) k it =
     (vl v \<noteq> None \<and> it ''GSI1PK'' = vl v \<and> vl w \<noteq> None \<and> it ''GSI1SK'' = vl w)"

fun kcond_vals :: "kcond \<Rightarrow> string list" where
  "kcond_vals (KPk v) = [v]"
| "kcond_vals (KPkPrefix v w) = [v, w]"
| "kcond_vals (KGsi v w) = [v, w]"

fun on_index :: "kcond \<Rightarrow> bool" where
  "on_index (KGsi v w) = True"
| "on_index _ = False"

definition rows :: "table \<Rightarrow> (key \<Rightarrow> item \<Rightarrow> bool) \<Rightarrow> key list \<Rightarrow> bool" where
  "rows tb P ks \<longleftrightarrow> distinct ks \<and> set ks = {k. \<exists>it. tb k = Some it \<and> P k it}"

text \<open>A query on the base table lists the matching items in sort-key order, or in reverse order.\<close>

definition ordered :: "bool option \<Rightarrow> key list \<Rightarrow> bool" where
  "ordered fwd ks \<longleftrightarrow>
     (if fwd = Some False then sorted_wrt (\<lambda>a b. snd b < snd a) ks
      else sorted_wrt (\<lambda>a b. snd a < snd b) ks)"

definition base_query :: "string \<Rightarrow> kcond \<Rightarrow> query_input \<Rightarrow> bool" where
  "base_query tn kc q \<longleftrightarrow> TableName q = tn \<and> IndexName q = None \<and> \<not> on_index kc
     \<and> KeyConditionExpression q = render_kcond kc \<and> list_all token (kcond_vals kc)
     \<and> dom (ExpressionValues q) = set (kcond_vals kc)"

definition index_query :: "string \<Rightarrow> kcond \<Rightarrow> query_input \<Rightarrow> bool" where
  "index_query tn kc q \<longleftrightarrow> TableName q = tn \<and> IndexName q = Some ''GSI1'' \<and> on_index kc
     \<and> KeyConditionExpression q = render_kcond kc \<and> list_all token (kcond_vals kc)
     \<and> dom (ExpressionValues q) = set (kcond_vals kc) \<and> Limit q = None"

text \<open>One page: at most \<open>Limit\<close> items, and all of them up to the limit when they fit in a page
  (\<open>fits\<close>: the 1 MB bound of a single Query).\<close>

definition page_len :: "(item list \<Rightarrow> bool) \<Rightarrow> query_input \<Rightarrow> item list \<Rightarrow> nat \<Rightarrow> bool" where
  "page_len fits q xs n \<longleftrightarrow> (case Limit q of None \<Rightarrow> fits xs \<longrightarrow> length xs \<le> n
     | Some l \<Rightarrow> n \<le> l \<and> (fits xs \<longrightarrow> min l (length xs) \<le> n))"

section \<open>The repository handle and the contract of the client\<close>

text \<open>\<open>type Repo struct { client dynamodb.API; table string }\<close>\<close>

record 's repo =
  client :: "'s ddb_api"
  tab :: string

locale dynamo =
  fixes r :: "'s repo"
    and tbl :: "'s \<Rightarrow> table"
    and ssl :: "string set \<Rightarrow> string list"
    and fits :: "item list \<Rightarrow> bool"
  assumes ssl_set: "finite A \<Longrightarrow> set (ssl A) = A \<and> distinct (ssl A)"
    and tbl_key: "tbl s kk = Some it \<Longrightarrow>
      it ''PK'' = Some (AvS (fst kk)) \<and> it ''SK'' = Some (AvS (snd kk))"
    and build_key: "BuildKey (client r) ''PK'' p ''SK'' k = Inr (mk_key p k)
      \<or> (\<exists>m. BuildKey (client r) ''PK'' p ''SK'' k = Inl (Transport m))"
    and get_item: "GetItem (client r) (tab r) (mk_key p k) s = (x, s') \<Longrightarrow>
      tbl s' = tbl s \<and> (case x of Inr it \<Rightarrow> tbl s (p, k) = Some it
        | Inl e \<Rightarrow> e = DbNotFound \<and> tbl s (p, k) = None \<or> transport e)"
    and batch_get: "BatchGetItem (client r) (tab r) (map (\<lambda>k. mk_key (fst k) (snd k)) ks) s = (y, s')
      \<Longrightarrow> distinct ks \<Longrightarrow> tbl s' = tbl s \<and> (case y of
          Inr its \<Rightarrow> set its = {it. \<exists>k \<in> set ks. tbl s k = Some it}
        | Inl e \<Rightarrow> transport e)"
    and query: "Query (client r) q s = (y, s') \<Longrightarrow> base_query (tab r) kc q \<Longrightarrow>
      tbl s' = tbl s \<and> (case y of
          Inr its \<Rightarrow> (\<exists>ks n. rows (tbl s) (kcond_match (ExpressionValues q) kc) ks
            \<and> ordered (ScanIndexForward q) ks
            \<and> page_len fits q (map (\<lambda>k. the (tbl s k)) ks) n
            \<and> its = take n (map (\<lambda>k. the (tbl s k)) ks))
        | Inl e \<Rightarrow> transport e)"
    and query_all: "QueryAll (client r) q s = (y, s') \<Longrightarrow> base_query (tab r) kc q \<Longrightarrow> Limit q = None \<Longrightarrow>
      tbl s' = tbl s \<and> (case y of
          Inr its \<Rightarrow> (\<exists>ks. rows (tbl s) (kcond_match (ExpressionValues q) kc) ks
            \<and> ordered (ScanIndexForward q) ks \<and> its = map (\<lambda>k. the (tbl s k)) ks)
        | Inl e \<Rightarrow> transport e)"
    and query_index: "QueryAll (client r) q s = (y, s') \<Longrightarrow> index_query (tab r) kc q \<Longrightarrow>
      tbl s' = tbl s \<and> (case y of
          Inr its \<Rightarrow> (\<exists>ks. rows (tbl s) (kcond_match (ExpressionValues q) kc) ks
            \<and> list_all2 (\<lambda>it k. it ''account_id'' = the (tbl s k) ''account_id''
                \<and> it ''PK'' = the (tbl s k) ''PK'') its ks)
        | Inl e \<Rightarrow> transport e)"
    and write_item: "WriteItem (client r) (tab r) it (map_option render_cond c) s = (e, s') \<Longrightarrow>
      valid_write (WPut it c) \<Longrightarrow>
      outcome ssl (single_failed (WPut it c) (tbl s)) [WPut it c] (tbl s) e (tbl s')"
    and update_item: "UpdateItem (client r) (tab r) (mk_key p k) (render_uexpr u) vl nm
        (map_option render_cond c) s = (x, s') \<Longrightarrow> valid_upd u nm vl c \<Longrightarrow>
      outcome ssl (single_failed (WUpd (p, k) u nm vl c) (tbl s)) [WUpd (p, k) u nm vl c] (tbl s)
        (case x of Inl e \<Rightarrow> Some e | Inr it \<Rightarrow> None) (tbl s')
      \<and> (\<forall>it. x = Inr it \<longrightarrow> tbl s' (p, k) = Some it)"
    and update_overlap: "UpdateItem (client r) (tab r) (mk_key p k) (render_uexpr u) vl nm
        (map_option render_cond c) s = (x, s') \<Longrightarrow>
      \<not> distinct (map (\<lambda>p. the (nm (fst p))) (u_pairs u)) \<Longrightarrow> well_formed_expr u c \<Longrightarrow>
      tbl s' = tbl s \<and> (\<exists>m. x = Inl (Transport m))"
    and delete_item: "DeleteItem (client r) (tab r) (mk_key p k) s = (e, s') \<Longrightarrow>
      outcome ssl (\<lambda>_. False) [WDel (p, k)] (tbl s) e (tbl s')"
    and transact_write: "TransactWrite (client r) (map (render_write (tab r)) ws) s = (e, s') \<Longrightarrow>
      ws \<noteq> [] \<Longrightarrow> length ws \<le> 100 \<Longrightarrow> distinct (map wr_key ws) \<Longrightarrow> list_all valid_write ws \<Longrightarrow>
      outcome ssl (transact_failed ws (tbl s)) ws (tbl s) e (tbl s')"
    and transact_limit: "TransactWrite (client r) (map (render_write (tab r)) ws) s = (e, s') \<Longrightarrow>
      100 < length ws \<Longrightarrow> tbl s' = tbl s \<and> (\<exists>m. e = Some (Transport m))"

end
