(* ===== verification/Models.thy ===== *)
theory Models
  imports Errors
begin

text \<open>
  The data model of \<open>internal/models\<close>: the request and response types of the contract
  (\<open>models.gen.go\<close>), the communication channels (\<open>enums.go\<close>) and the export document
  (\<open>export.go\<close>). A \<open>*T\<close> field is an option; the named string types of the contract
  (\<open>AccountSettingsStatus\<close>, \<open>ConsentLogChannel\<close>, \<dots>) are strings, which is all Go checks; a nil
  and an empty slice are both \<open>[]\<close>; a \<open>map[string]bool\<close> is a list of its entries.
\<close>

record account =
  a_AccountId :: string
  a_AvatarUrl :: "string option"
  a_Email :: string
  a_FirstName :: string
  a_LastName :: string
  a_Phone :: "string option"
  a_Username :: string

record account_exists_response =
  Exists :: bool

record account_settings =
  st_EmailVerified :: "bool option"
  st_EmailVerifiedAt :: "gtime option"
  st_PhoneVerified :: "bool option"
  st_PhoneVerifiedAt :: "gtime option"
  st_Status :: string
  st_StatusChangedAt :: "gtime option"
  st_StatusReason :: "string option"
  st_Tags :: "string list option"
  st_Version :: go_int

record address =
  ad_AddressId :: string
  ad_Alias :: "string option"
  ad_City :: string
  ad_Country :: string
  ad_IsDefault :: bool
  ad_Line1 :: string
  ad_Line2 :: "string option"
  ad_State :: string
  ad_ZipCode :: string

record avatar_upload_request =
  av_ContentLength :: go_int
  av_ContentType :: string

record consent_log =
  cl_Action :: string
  cl_Channel :: string
  cl_IpAddress :: "string option"
  cl_RecordedAt :: gtime
  cl_Source :: string
  cl_SourceRef :: "string option"
  cl_UserAgent :: "string option"

record create_account_request =
  ca_AvatarUrl :: "string option"
  ca_Email :: string
  ca_FirstName :: string
  ca_LastName :: string
  ca_Phone :: "string option"
  ca_Username :: string

record credentials_response =
  cr_AccountId :: string
  cr_AuthMethods :: "string list"
  cr_EmailVerified :: bool
  cr_PasswordHash :: "string option"
  cr_Status :: string

record passkey_credential =
  pk_Aaguid :: "string option"
  pk_BackupEligible :: bool
  pk_BackupState :: bool
  pk_CreatedAt :: gtime
  pk_CredentialId :: string
  pk_LastUsedAt :: "gtime option"
  pk_PublicKey :: string
  pk_SignCount :: go_int
  pk_Transports :: "string list option"

record payment_method =
  pm_Brand :: string
  pm_ExpiryMonth :: go_int
  pm_ExpiryYear :: go_int
  pm_IsDefault :: bool
  pm_Last4 :: string
  pm_PaymentId :: string
  pm_Provider :: string

record preferences =
  pr_Communication :: "(string \<times> bool) list option"
  pr_Language :: "string option"
  pr_Timezone :: "string option"

record update_account_request =
  ua_AvatarUrl :: "string option"
  ua_FirstName :: "string option"
  ua_LastName :: "string option"
  ua_Phone :: "string option"

record update_address_request =
  ud_Alias :: "string option"
  ud_City :: "string option"
  ud_Country :: "string option"
  ud_IsDefault :: "bool option"
  ud_Line1 :: "string option"
  ud_Line2 :: "string option"
  ud_State :: "string option"
  ud_ZipCode :: "string option"

record update_credentials_request =
  uc_AuthMethods :: "string list option"
  uc_PasswordHash :: "string option"

record update_settings_request =
  us_EmailVerified :: "bool option"
  us_EmailVerifiedAt :: "gtime option"
  us_PhoneVerified :: "bool option"
  us_PhoneVerifiedAt :: "gtime option"
  us_Status :: "string option"
  us_StatusChangedAt :: "gtime option"
  us_StatusReason :: "string option"
  us_Tags :: "string list option"
  us_Version :: "go_int option"

record update_settings_tags_request =
  ut_Add :: "string list option"
  ut_Remove :: "string list option"
  ut_Version :: "go_int option"

text \<open>\<open>var ValidCommunicationChannels\<close>; a missing map key reads as \<open>false\<close>.\<close>

definition ValidCommunicationChannels :: "string \<Rightarrow> bool" where
  "ValidCommunicationChannels c \<longleftrightarrow> c \<in> {''email'', ''sms'', ''push'', ''postal''}"

text \<open>\<open>internal/models/export.go\<close>\<close>

record passkey_export =
  px_CredentialID :: string
  px_SignCount :: go_int
  px_Transports :: "string list"
  px_AAGUID :: string
  px_BackupEligible :: bool
  px_BackupState :: bool
  px_CreatedAt :: gtime
  px_LastUsedAt :: "gtime option"

record profile_export =
  ex_Profile :: account
  ex_Settings :: "account_settings option"
  ex_Preferences :: "preferences option"
  ex_Addresses :: "address list"
  ex_Payments :: "payment_method list"
  ex_ConsentHistory :: "consent_log list"
  ex_Passkeys :: "passkey_export list"

end
