(* ===== verification/Repo_Base.thy ===== *)
theory Repo_Base
  imports Dynamo Models
begin

text \<open>
  What the files of \<open>internal/db\<close> share: the helpers of \<open>utils.go\<close>, the sort-key constructors, the
  idiom that builds a partial update expression clause by clause, and reading struct fields from
  an item by their \<open>dynamodbav\<close> tags. The lemmas show that an expression built this way
  is valid and assigns exactly the attributes of its clauses.
\<close>

section \<open>Helpers of utils.go and the keys of the table\<close>

definition createPK :: "string \<Rightarrow> string" where
  "createPK accountID = ''ACCOUNT#'' @ accountID"

definition deref :: "'a \<Rightarrow> 'a option \<Rightarrow> 'a" where
  "deref zero p = (case p of None \<Rightarrow> zero | Some x \<Rightarrow> x)"

definition optStr :: "string \<Rightarrow> string option" where
  "optStr s = (if s = [] then None else Some s)"

definition derefSlice :: "'a list option \<Rightarrow> 'a list" where
  "derefSlice p = (case p of None \<Rightarrow> [] | Some s \<Rightarrow> s)"

definition ptrSlice :: "'a list \<Rightarrow> 'a list option" where
  "ptrSlice s = (if length s = 0 then None else Some s)"

definition optMap :: "('k \<times> 'v) list \<Rightarrow> ('k \<times> 'v) list option" where
  "optMap m = (if length m = 0 then None else Some m)"

text \<open>\<open>toAuthMethods\<close> converts each string to a named string type.\<close>

definition toAuthMethods :: "string list \<Rightarrow> string list" where
  "toAuthMethods xs = map (\<lambda>s. s) xs"

definition emailReservationPK :: "string \<Rightarrow> string" where
  "emailReservationPK email = ''EMAIL#'' @ to_lower email"

definition emailReservationSK :: string where
  "emailReservationSK = ''EMAIL''"

definition addrSK :: "string \<Rightarrow> string" where
  "addrSK addressID = ''ADDR#'' @ addressID"

definition paySK :: "string \<Rightarrow> string" where
  "paySK paymentID = ''PAY#'' @ paymentID"

definition passkeySK :: "string \<Rightarrow> string" where
  "passkeySK credentialID = ''PASSKEY#'' @ credentialID"

definition consentSK :: "string \<Rightarrow> gtime \<Rightarrow> string" where
  "consentSK channel at = ''CONSENT#'' @ channel @ ''#'' @ fmt_fixed at"

definition settingsSK :: string where
  "settingsSK = ''SETTINGS''"

definition prefsSK :: string where
  "prefsSK = ''PREFS''"

lemma deref_simps [simp]: "deref z None = z" "deref z (Some x) = x"
  by (simp_all add: deref_def)

lemma derefSlice_simps [simp]: "derefSlice None = []" "derefSlice (Some x) = x"
  by (simp_all add: derefSlice_def)

lemma optStr_simps [simp]: "optStr [] = None" "s \<noteq> [] \<Longrightarrow> optStr s = Some s"
  by (simp_all add: optStr_def)

lemma ptrSlice_simps [simp]: "ptrSlice [] = None" "xs \<noteq> [] \<Longrightarrow> ptrSlice xs = Some xs"
  by (simp_all add: ptrSlice_def)

lemma deref_optStr [simp]: "deref [] (optStr s) = s"
  by (simp add: optStr_def deref_def)

lemma derefSlice_ptrSlice [simp]: "derefSlice (ptrSlice s) = s"
  by (simp add: ptrSlice_def derefSlice_def)

lemma toAuthMethods_id [simp]: "toAuthMethods xs = xs"
  by (simp add: toAuthMethods_def)

lemma createPK_inject [key_simps]: "createPK a = createPK b \<longleftrightarrow> a = b"
  by (simp add: createPK_def)

lemma emailReservationPK_inject [key_simps]:
  "emailReservationPK a = emailReservationPK b \<longleftrightarrow> to_lower a = to_lower b"
  by (simp add: emailReservationPK_def)

lemma createPK_not_email [key_simps]:
  "createPK a \<noteq> emailReservationPK b" "emailReservationPK b \<noteq> createPK a"
  by (simp_all add: createPK_def emailReservationPK_def)

lemma sort_keys_inject [key_simps]:
  "addrSK a = addrSK b \<longleftrightarrow> a = b" "paySK a = paySK b \<longleftrightarrow> a = b" "passkeySK a = passkeySK b \<longleftrightarrow> a = b"
  by (simp_all add: addrSK_def paySK_def passkeySK_def)

lemma sort_keys_distinct [key_simps]:
  "addrSK a \<noteq> ''PROFILE''" "paySK a \<noteq> ''PROFILE''" "passkeySK a \<noteq> ''PROFILE''"
  "consentSK c t \<noteq> ''PROFILE''" "settingsSK \<noteq> ''PROFILE''" "prefsSK \<noteq> ''PROFILE''"
  "addrSK a \<noteq> settingsSK" "paySK a \<noteq> settingsSK" "passkeySK a \<noteq> settingsSK"
  "consentSK c t \<noteq> settingsSK" "prefsSK \<noteq> settingsSK" "settingsSK \<noteq> prefsSK"
  "addrSK a \<noteq> paySK b" "addrSK a \<noteq> passkeySK b" "paySK a \<noteq> passkeySK b"
  by (simp_all add: addrSK_def paySK_def passkeySK_def consentSK_def settingsSK_def prefsSK_def)

section \<open>Building a partial update\<close>

text \<open>The three local variables of every partial update of the package.\<close>

record expr_build =
  setClauses :: "string list"
  exprValues :: "string \<rightharpoonup> av"
  exprNames :: "string \<rightharpoonup> string"

definition no_exprs :: expr_build where
  "no_exprs = \<lparr>setClauses = [], exprValues = Map.empty, exprNames = Map.empty\<rparr>"

text \<open>\<open>setClauses = append(setClauses, "n = v"); exprValues[v] = x; exprNames[n] = a\<close>\<close>

definition add_set :: "string \<Rightarrow> string \<Rightarrow> string \<Rightarrow> av \<Rightarrow> expr_build \<Rightarrow> expr_build" where
  "add_set n v a x b = b\<lparr>setClauses := setClauses b @ [n @ '' = '' @ v],
     exprValues := (exprValues b)(v \<mapsto> x), exprNames := (exprNames b)(n \<mapsto> a)\<rparr>"

text \<open>\<open>if req.Field != nil { \<dots> }\<close>\<close>

definition set_field :: "string \<Rightarrow> string \<Rightarrow> string \<Rightarrow> ('a \<Rightarrow> av) \<Rightarrow> 'a option \<Rightarrow> expr_build \<Rightarrow> expr_build" where
  "set_field n v a f p b = (case p of None \<Rightarrow> b | Some y \<Rightarrow> add_set n v a (f y) b)"

text \<open>\<open>"SET " + strings.Join(setClauses, ", ")\<close>\<close>

definition set_expr :: "expr_build \<Rightarrow> string" where
  "set_expr b = ''SET '' @ join '', '' (setClauses b)"

section \<open>What a built update does\<close>

text \<open>A clause as a quadruple: name placeholder, value placeholder, attribute, value.\<close>

type_synonym clause = "string \<times> string \<times> string \<times> av"

definition cl_n :: "clause \<Rightarrow> string" where "cl_n q = fst q"
definition cl_v :: "clause \<Rightarrow> string" where "cl_v q = fst (snd q)"
definition cl_a :: "clause \<Rightarrow> string" where "cl_a q = fst (snd (snd q))"
definition cl_x :: "clause \<Rightarrow> av" where "cl_x q = snd (snd (snd q))"

lemmas clause_defs = cl_n_def cl_v_def cl_a_def cl_x_def

definition build :: "clause list \<Rightarrow> expr_build" where
  "build qs = fold (\<lambda>q. add_set (cl_n q) (cl_v q) (cl_a q) (cl_x q)) qs no_exprs"

definition opt_clause :: "string \<Rightarrow> string \<Rightarrow> string \<Rightarrow> ('a \<Rightarrow> av) \<Rightarrow> 'a option \<Rightarrow> clause list" where
  "opt_clause n v a f p = (case p of None \<Rightarrow> [] | Some y \<Rightarrow> [(n, v, a, f y)])"

definition clause_pairs :: "clause list \<Rightarrow> (string \<times> string) list" where
  "clause_pairs qs = map (\<lambda>q. (cl_n q, cl_v q)) qs"

definition sets_only :: "clause list \<Rightarrow> uexpr" where
  "sets_only qs = UExpr (clause_pairs qs) [] []"

text \<open>The abstract effect: assign each clause's value to its attribute.\<close>

definition assign :: "clause list \<Rightarrow> item \<Rightarrow> item" where
  "assign qs it = fold (\<lambda>q it. it(cl_a q \<mapsto> cl_x q)) qs it"

lemma set_opt_clause [simp]:
  "q \<in> set (opt_clause n v a f p) \<longleftrightarrow> (\<exists>y. p = Some y \<and> q = (n, v, a, f y))"
  by (auto simp: opt_clause_def split: option.splits)

lemma opt_clause_simps [simp]:
  "opt_clause n v a f None = []" "opt_clause n v a f (Some y) = [(n, v, a, f y)]"
  by (simp_all add: opt_clause_def)

lemma distinct_opt_clause [simp]: "distinct (map g (opt_clause n v a f p))"
  by (simp add: opt_clause_def split: option.splits)

lemma build_Nil [simp]: "build [] = no_exprs"
  by (simp add: build_def)

lemma add_set_build [simp]: "add_set n v a x (build qs) = build (qs @ [(n, v, a, x)])"
  by (simp add: build_def clause_defs)

lemma set_field_build [simp]:
  "set_field n v a f p (build qs) = build (qs @ opt_clause n v a f p)"
  by (simp add: set_field_def opt_clause_def split: option.splits)

lemma no_exprs_build: "no_exprs = build []"
  by simp

lemma setClauses_build: "setClauses (build qs) = map render_set (clause_pairs qs)"
  by (induction qs rule: rev_induct)
    (simp_all add: build_def no_exprs_def add_set_def render_set_def clause_pairs_def)

lemma setClauses_empty [simp]: "setClauses (build qs) = [] \<longleftrightarrow> qs = []"
  by (simp add: setClauses_build clause_pairs_def)

lemma set_expr_build: "qs \<noteq> [] \<Longrightarrow> set_expr (build qs) = render_uexpr (sets_only qs)"
  by (simp add: set_expr_def setClauses_build render_uexpr_def sets_only_def clause_pairs_def)

lemma exprValues_build: "exprValues (build qs) = map_of (rev (map (\<lambda>q. (cl_v q, cl_x q)) qs))"
  by (induction qs rule: rev_induct) (simp_all add: build_def no_exprs_def add_set_def)

lemma exprNames_build: "exprNames (build qs) = map_of (rev (map (\<lambda>q. (cl_n q, cl_a q)) qs))"
  by (induction qs rule: rev_induct) (simp_all add: build_def no_exprs_def add_set_def)

lemma dom_build:
  "dom (exprNames (build qs)) = cl_n ` set qs" "dom (exprValues (build qs)) = cl_v ` set qs"
  by (simp_all add: exprNames_build exprValues_build dom_map_of_conv_image_fst image_image
      image_Un flip: map_map)

lemma map_of_rev_pairs:
  assumes "distinct (map g qs)" and "q \<in> set qs"
  shows "map_of (rev (map (\<lambda>q. (g q, h q)) qs)) (g q) = Some (h q)"
proof (rule map_of_is_SomeI)
  have "map fst (rev (map (\<lambda>q. (g q, h q)) qs)) = rev (map g qs)"
    by (simp add: rev_map comp_def)
  then show "distinct (map fst (rev (map (\<lambda>q. (g q, h q)) qs)))"
    using assms(1) by simp
  show "(g q, h q) \<in> set (rev (map (\<lambda>q. (g q, h q)) qs))"
    using assms(2) by auto
qed

lemma build_lookup:
  assumes "q \<in> set qs"
  shows "distinct (map cl_n qs) \<Longrightarrow> exprNames (build qs) (cl_n q) = Some (cl_a q)"
    and "distinct (map cl_v qs) \<Longrightarrow> exprValues (build qs) (cl_v q) = Some (cl_x q)"
  using assms by (simp_all only: exprNames_build exprValues_build map_of_rev_pairs)

definition good_clauses :: "clause list \<Rightarrow> bool" where
  "good_clauses qs \<longleftrightarrow> qs \<noteq> [] \<and> distinct (map cl_n qs) \<and> distinct (map cl_v qs)
     \<and> distinct (map cl_a qs)
     \<and> (\<forall>q \<in> set qs. token (cl_n q) \<and> token (cl_v q) \<and> cl_a q \<noteq> ''PK'' \<and> cl_a q \<noteq> ''SK'')"

text \<open>\<open>extra\<close> holds the values only the condition mentions (\<open>:expected\<close>).\<close>

lemma names_resolve:
  assumes "good_clauses qs"
  shows "map (\<lambda>p. the (exprNames (build qs) (fst p))) (clause_pairs qs) = map cl_a qs"
  using assms unfolding good_clauses_def clause_pairs_def
  by (auto simp: build_lookup)

lemma valid_build:
  assumes g: "good_clauses qs" and c: "c \<noteq> Some []" "list_all catom_ok (cond_atoms c)"
    and n: "set (concat (map catom_names (cond_atoms c))) \<subseteq> cl_n ` set qs"
    and x: "dom extra \<inter> cl_v ` set qs = {}"
    and v: "set (concat (map catom_vals (cond_atoms c))) \<subseteq> cl_v ` set qs \<union> dom extra"
      "dom extra \<subseteq> set (concat (map catom_vals (cond_atoms c)))" "\<forall>e \<in> dom extra. token e"
  shows "valid_upd (sets_only qs) (exprNames (build qs)) (exprValues (build qs) ++ extra) c"
proof -
  have p: "u_pairs (sets_only qs) = clause_pairs qs" "u_adds (sets_only qs) = []"
    "u_dels (sets_only qs) = []"
    by (simp_all add: sets_only_def u_pairs_def)
  have fst: "map fst (clause_pairs qs) = map cl_n qs" "map snd (clause_pairs qs) = map cl_v qs"
    by (simp_all add: clause_pairs_def)
  have un: "set (used_names (sets_only qs) c) = cl_n ` set qs"
    using n by (auto simp: used_names_def p fst)
  have uv: "set (used_vals (sets_only qs) c) = cl_v ` set qs \<union> dom extra"
    using v(1,2) by (auto simp: used_vals_def p fst)
  have t: "list_all token (used_names (sets_only qs) c)" "list_all token (used_vals (sets_only qs) c)"
    unfolding list_all_iff un uv using g v(3) by (auto simp: good_clauses_def)
  have nk: "\<forall>p \<in> set (clause_pairs qs). the (exprNames (build qs) (fst p)) \<in> set (map cl_a qs)"
    using names_resolve [OF g] by (metis image_eqI list.set_map)
  have "clause_pairs qs \<noteq> []" using g by (simp add: good_clauses_def clause_pairs_def)
  moreover have "distinct (map cl_a qs)" "''PK'' \<notin> set (map cl_a qs)" "''SK'' \<notin> set (map cl_a qs)"
    using g by (auto simp: good_clauses_def)
  ultimately show ?thesis
    unfolding valid_upd_def p un uv using c t nk
    by (auto simp: names_resolve [OF g] dom_build)
qed

lemma fold_assign:
  assumes "\<forall>q \<in> set qs. nm (cl_n q) = Some (cl_a q) \<and> vl (cl_v q) = Some (cl_x q)"
  shows "fold (\<lambda>(n, v) it. it(the (nm n) := vl v)) (clause_pairs qs) it = assign qs it"
  using assms by (induction qs arbitrary: it) (simp_all add: clause_pairs_def assign_def)

lemma apply_build:
  assumes "good_clauses qs" and "dom extra \<inter> cl_v ` set qs = {}"
  shows "apply_uexpr ssl (exprNames (build qs)) (exprValues (build qs) ++ extra) (sets_only qs) it
    = assign qs it"
proof -
  have "\<forall>q \<in> set qs. exprNames (build qs) (cl_n q) = Some (cl_a q)
      \<and> (exprValues (build qs) ++ extra) (cl_v q) = Some (cl_x q)"
  proof
    fix q assume q: "q \<in> set qs"
    with assms(2) have "extra (cl_v q) = None" by auto
    with q assms(1) show "exprNames (build qs) (cl_n q) = Some (cl_a q)
        \<and> (exprValues (build qs) ++ extra) (cl_v q) = Some (cl_x q)"
      by (simp add: good_clauses_def build_lookup map_add_def)
  qed
  then show ?thesis
    by (simp add: apply_uexpr_def sets_only_def fold_assign)
qed

lemma assign_append [simp]: "assign (xs @ ys) it = assign ys (assign xs it)"
  by (simp add: assign_def)

lemma assign_simps [simp]: "assign [] it = it" "assign ((n, v, a, x) # qs) it = assign qs (it(a \<mapsto> x))"
  by (simp_all add: assign_def clause_defs)

lemma assign_opt [simp]:
  "assign (opt_clause n v a f p) it = (case p of None \<Rightarrow> it | Some y \<Rightarrow> it(a \<mapsto> f y))"
  by (simp split: option.splits)

lemma assign_other: "a \<notin> cl_a ` set qs \<Longrightarrow> assign qs it a = it a"
  by (induction qs arbitrary: it) (auto simp: assign_def)

text \<open>Clauses added to maps that are not empty at the start.\<close>

definition build_on :: "expr_build \<Rightarrow> clause list \<Rightarrow> expr_build" where
  "build_on b qs = fold (\<lambda>q. add_set (cl_n q) (cl_v q) (cl_a q) (cl_x q)) qs b"

lemma build_on_fields:
  "setClauses (build_on b qs) = setClauses b @ setClauses (build qs)"
  "exprValues (build_on b qs) = exprValues b ++ exprValues (build qs)"
  "exprNames (build_on b qs) = exprNames b ++ exprNames (build qs)"
  by (induction qs rule: rev_induct) (simp_all add: build_on_def build_def no_exprs_def add_set_def)

lemma add_set_build_on [simp]: "add_set n v a x (build_on b qs) = build_on b (qs @ [(n, v, a, x)])"
  by (simp add: build_on_def clause_defs)

lemma set_field_build_on [simp]:
  "set_field n v a f p (build_on b qs) = build_on b (qs @ opt_clause n v a f p)"
  by (simp add: set_field_def opt_clause_def split: option.splits)

text \<open>Clauses that may be absent, as a list of candidates.\<close>

fun opts :: "(string \<times> string \<times> string \<times> av option) list \<Rightarrow> clause list" where
  "opts [] = []"
| "opts ((n, v, a, x) # cs) = (case x of None \<Rightarrow> opts cs | Some y \<Rightarrow> (n, v, a, y) # opts cs)"

lemma opts_opt: "opts ((n, v, a, map_option f p) # cs) = opt_clause n v a f p @ opts cs"
  by (simp split: option.splits)

lemma opts_Some: "opts ((n, v, a, Some y) # cs) = (n, v, a, y) # opts cs"
  by simp

lemma set_opts: "q \<in> set (opts cs) \<Longrightarrow> (cl_n q, cl_v q, cl_a q) \<in> (\<lambda>(n, v, a, x). (n, v, a)) ` set cs"
  by (induction cs rule: opts.induct) (auto simp: clause_defs split: option.splits)

lemma distinct_opts:
  assumes "\<And>q. g q = h (cl_n q, cl_v q, cl_a q)" and "distinct (map (\<lambda>(n, v, a, x). h (n, v, a)) cs)"
  shows "distinct (map g (opts cs))"
  using assms(2)
proof (induction cs rule: opts.induct)
  case (2 n v a x cs)
  have "h (n, v, a) \<notin> g ` set (opts cs)"
    using 2(3) set_opts [of _ cs] by (force simp: assms(1))
  with 2 show ?case
    by (auto simp: assms(1) clause_defs split: option.splits)
qed simp

lemma good_opts:
  assumes "opts cs \<noteq> []" "distinct (map (\<lambda>(n, v, a, x). n) cs)" "distinct (map (\<lambda>(n, v, a, x). v) cs)"
    "distinct (map (\<lambda>(n, v, a, x). a) cs)"
    "\<forall>(n, v, a, x) \<in> set cs. token n \<and> token v \<and> a \<noteq> ''PK'' \<and> a \<noteq> ''SK''"
  shows "good_clauses (opts cs)"
  unfolding good_clauses_def
proof (intro conjI ballI)
  show "distinct (map cl_n (opts cs))"
    by (rule distinct_opts [where h = "\<lambda>(n, v, a). n"]) (use assms(2) in \<open>simp_all add: case_prod_unfold\<close>)
  show "distinct (map cl_v (opts cs))"
    by (rule distinct_opts [where h = "\<lambda>(n, v, a). v"]) (use assms(3) in \<open>simp_all add: case_prod_unfold\<close>)
  show "distinct (map cl_a (opts cs))"
    by (rule distinct_opts [where h = "\<lambda>(n, v, a). a"]) (use assms(4) in \<open>simp_all add: case_prod_unfold\<close>)
  fix q assume "q \<in> set (opts cs)"
  from set_opts [OF this] assms(5)
  show "token (cl_n q)" "token (cl_v q)" "cl_a q \<noteq> ''PK''" "cl_a q \<noteq> ''SK''" by auto
qed (fact assms(1))

section \<open>Reading struct fields from an item\<close>

text \<open>Unmarshalling by \<open>dynamodbav\<close> tag: an absent or NULL attribute leaves the zero value, an
  attribute of another type is an unmarshalling error (\<open>None\<close>).\<close>

definition field :: "(av \<Rightarrow> 'a option) \<Rightarrow> 'a \<Rightarrow> string \<Rightarrow> item \<Rightarrow> 'a option" where
  "field f zero a it = (case it a of None \<Rightarrow> Some zero | Some AvNULL \<Rightarrow> Some zero | Some x \<Rightarrow> f x)"

fun av_to_str :: "av \<Rightarrow> string option" where
  "av_to_str (AvS s) = Some s" | "av_to_str _ = None"

fun av_to_bool :: "av \<Rightarrow> bool option" where
  "av_to_bool (AvBOOL b) = Some b" | "av_to_bool _ = None"

text \<open>A number outside the 64-bit range is an unmarshalling error.\<close>

fun av_to_int :: "av \<Rightarrow> go_int option" where
  "av_to_int (AvN n) = (if - (2 ^ 63) \<le> n \<and> n < 2 ^ 63 then Some (word_of_int n) else None)"
| "av_to_int _ = None"

fun av_to_time :: "av \<Rightarrow> gtime option" where
  "av_to_time (AvS s) = parse_time s" | "av_to_time _ = None"

definition av_to_time_ptr :: "av \<Rightarrow> gtime option option" where
  "av_to_time_ptr x = map_option Some (av_to_time x)"

fun strs :: "av list \<Rightarrow> string list option" where
  "strs [] = Some []"
| "strs (x # xs) = do { s \<leftarrow> av_to_str x; ss \<leftarrow> strs xs; Some (s # ss) }"

fun av_to_strs :: "av \<Rightarrow> string list option" where
  "av_to_strs (AvL xs) = strs xs"
| "av_to_strs (AvSS xs) = Some xs"
| "av_to_strs _ = None"

fun bools :: "(string \<times> av) list \<Rightarrow> (string \<times> bool) list option" where
  "bools [] = Some []"
| "bools ((k, x) # xs) = do { b \<leftarrow> av_to_bool x; bs \<leftarrow> bools xs; Some ((k, b) # bs) }"

fun av_to_map :: "av \<Rightarrow> (string \<times> bool) list option" where
  "av_to_map (AvM m) = bools m"
| "av_to_map _ = None"

definition av_int :: "go_int \<Rightarrow> av" where
  "av_int n = AvN (sint n)"

definition av_time :: "gtime \<Rightarrow> av" where
  "av_time t = AvS (fmt_nano t)"

definition av_strs :: "string list \<Rightarrow> av" where
  "av_strs xs = AvL (map AvS xs)"

definition av_bools :: "(string \<times> bool) list \<Rightarrow> av" where
  "av_bools m = AvM (map (\<lambda>(k, b). (k, AvBOOL b)) m)"

text \<open>\<open>omitempty\<close>: a zero value is not written.\<close>

definition omitempty :: "bool \<Rightarrow> string \<Rightarrow> av \<Rightarrow> item \<Rightarrow> item" where
  "omitempty is_zero a x it = (if is_zero then it else it(a \<mapsto> x))"

lemma strs_map [simp, decode_simps]: "strs (map AvS xs) = Some xs"
  by (induction xs) simp_all

lemma bools_map [simp, decode_simps]: "bools (map (\<lambda>(k, b). (k, AvBOOL b)) m) = Some m"
  by (induction m) auto

lemma av_to_int_av_int [decode_simps]: "av_to_int (av_int n) = Some n"
  using sint_range_size [of n] by (simp add: av_int_def word_size)

lemma av_to_time_av_time [decode_simps]: "valid_time t \<Longrightarrow> av_to_time (av_time t) = Some t"
  by (simp add: av_time_def parse_time_fmt_nano)

lemma av_to_strs_av_strs [decode_simps]: "av_to_strs (av_strs xs) = Some xs"
  by (simp add: av_strs_def)

lemma av_to_map_av_bools [decode_simps]: "av_to_map (av_bools m) = Some m"
  by (simp add: av_bools_def)

lemma field_absent [decode_simps]: "it a = None \<Longrightarrow> field f z a it = Some z"
  by (simp add: field_def)

lemma field_present [decode_simps]: "it a = Some x \<Longrightarrow> x \<noteq> AvNULL \<Longrightarrow> field f z a it = f x"
  by (cases x) (simp_all add: field_def)

lemma av_not_null [simp, decode_simps]:
  "av_int n \<noteq> AvNULL" "av_time t \<noteq> AvNULL" "av_strs xs \<noteq> AvNULL" "av_bools m \<noteq> AvNULL"
  by (simp_all add: av_int_def av_time_def av_strs_def av_bools_def)

lemma field_upd [simp]:
  "field f z a (it(b \<mapsto> x)) = (if a = b then (if x = AvNULL then Some z else f x) else field f z a it)"
  by (cases x) (simp_all add: field_def)

lemma field_keyed: "it a = Some (AvS x) \<Longrightarrow> field av_to_str [] a it = Some x"
  by (simp add: field_def)

lemma field_mk_key [simp]: "a \<noteq> ''PK'' \<Longrightarrow> a \<noteq> ''SK'' \<Longrightarrow> field f z a (mk_key p k) = Some z"
  by (simp add: field_def mk_key_def)

section \<open>Calls that unmarshal\<close>

text \<open>The \<open>As\<close> variants of the client unmarshal the returned items into the given struct.\<close>

definition unmarshal_error :: error where
  "unmarshal_error = GoError ''unmarshal''"

definition GetItemAs :: "'s repo \<Rightarrow> (item \<Rightarrow> 'a option) \<Rightarrow> item \<Rightarrow> 's \<Rightarrow> (error + 'a) \<times> 's" where
  "GetItemAs r dec k s = (case GetItem (client r) (tab r) k s of
     (Inl e, s') \<Rightarrow> (Inl e, s')
   | (Inr it, s') \<Rightarrow> (case dec it of None \<Rightarrow> (Inl unmarshal_error, s') | Some x \<Rightarrow> (Inr x, s')))"

fun decode_all :: "(item \<Rightarrow> 'a option) \<Rightarrow> item list \<Rightarrow> 'a list option" where
  "decode_all dec [] = Some []"
| "decode_all dec (it # its) = do { x \<leftarrow> dec it; xs \<leftarrow> decode_all dec its; Some (x # xs) }"

definition unmarshal_list :: "(item \<Rightarrow> 'a option) \<Rightarrow> (error + item list) \<times> 's \<Rightarrow> (error + 'a list) \<times> 's" where
  "unmarshal_list dec res = (case res of
     (Inl e, s') \<Rightarrow> (Inl e, s')
   | (Inr its, s') \<Rightarrow> (case decode_all dec its of
       None \<Rightarrow> (Inl unmarshal_error, s') | Some xs \<Rightarrow> (Inr xs, s')))"

definition UpdateItemAs :: "'s repo \<Rightarrow> (item \<Rightarrow> 'a option) \<Rightarrow> item \<Rightarrow> string \<Rightarrow> (string \<rightharpoonup> av)
    \<Rightarrow> (string \<rightharpoonup> string) \<Rightarrow> string option \<Rightarrow> 's \<Rightarrow> (error + 'a) \<times> 's" where
  "UpdateItemAs r dec k ex vl nm c s = (case UpdateItem (client r) (tab r) k ex vl nm c s of
     (Inl e, s') \<Rightarrow> (Inl e, s')
   | (Inr it, s') \<Rightarrow> (case dec it of None \<Rightarrow> (Inl unmarshal_error, s') | Some x \<Rightarrow> (Inr x, s')))"

lemma unmarshal_error_simps [simp]:
  "unmarshal_error \<noteq> ConditionalCheckFailed" "unmarshal_error \<noteq> DbNotFound"
  "\<not> transport unmarshal_error"
  by (simp_all add: unmarshal_error_def)

lemma decode_all_Some: "decode_all dec its = Some xs \<longleftrightarrow> map dec its = map Some xs"
proof (induction its arbitrary: xs)
  case (Cons it its)
  then show ?case
    by (cases xs; cases "dec it"; cases "decode_all dec its") auto
qed auto

lemma decode_all_None: "decode_all dec its = None \<longleftrightarrow> (\<exists>it \<in> set its. dec it = None)"
  by (induction its) (auto split: Option.bind_splits)

section \<open>The effect of a single write\<close>

text \<open>What a conditional write of one item may do: \<open>ok\<close> tells whether the condition holds, \<open>new\<close> is
  the item written under \<open>kk\<close> (\<open>None\<close>: the item is deleted).\<close>

definition write_spec :: "bool \<Rightarrow> key \<Rightarrow> item option \<Rightarrow> table \<Rightarrow> error option \<Rightarrow> table \<Rightarrow> bool" where
  "write_spec ok kk new tb e tb' \<longleftrightarrow> (case e of
     None \<Rightarrow> ok \<and> tb' = tb(kk := new)
   | Some x \<Rightarrow> x = ConditionalCheckFailed \<and> \<not> ok \<and> tb' = tb
       \<or> transport x \<and> (tb' = tb \<or> ok \<and> tb' = tb(kk := new)))"

definition err_of :: "(error + 'a) \<Rightarrow> error option" where
  "err_of x = (case x of Inl e \<Rightarrow> Some e | Inr y \<Rightarrow> None)"

lemma err_of_simps [simp]: "err_of (Inl e) = Some e" "err_of (Inr y) = None"
  by (simp_all add: err_of_def)

lemma outcome_single:
  "outcome ssl (single_failed w tb) [w] tb e tb'
    \<longleftrightarrow> write_spec (wr_ok w tb) (wr_key w) (wr_new ssl w (tb (wr_key w))) tb e tb'"
  by (auto simp: outcome_def write_spec_def commit_def single_failed_def wr_apply_def
      split: option.splits)

lemma outcome_delete:
  "outcome ssl (\<lambda>_. False) [WDel kk] tb e tb' \<longleftrightarrow>
    (case e of None \<Rightarrow> tb' = tb(kk := None)
     | Some x \<Rightarrow> transport x \<and> (tb' = tb \<or> tb' = tb(kk := None)))"
  by (auto simp: outcome_def commit_def wr_apply_def wr_ok_def split: option.splits)

text \<open>The conditions the code puts on a write.\<close>

definition absent :: cond where "absent = [AttrNotExists ''SK'']"
definition present :: cond where "present = [AttrExists ''SK'']"

lemma render_absent: "render_cond absent = ''attribute_not_exists(SK)''"
  by (simp add: absent_def render_cond_def)

lemma render_present: "render_cond present = ''attribute_exists(SK)''"
  by (simp add: present_def render_cond_def)

lemma cond_ok_simps [simp]:
  "cond_atoms (Some absent) = absent" "cond_atoms (Some present) = present" "cond_atoms None = []"
  "absent \<noteq> []" "present \<noteq> []" "list_all catom_ok absent" "list_all catom_ok present"
  "concat (map catom_names absent) = []" "concat (map catom_names present) = []"
  "concat (map catom_vals absent) = []" "concat (map catom_vals present) = []"
  "set absent = {AttrNotExists ''SK''}" "set present = {AttrExists ''SK''}"
  "list_all (\<lambda>a. catom_ok a \<and> catom_names a = []) absent"
  "list_all (\<lambda>a. catom_ok a \<and> catom_names a = []) present"
  by (simp_all add: absent_def present_def cond_atoms_def plain_def)

lemma eval_none [simp]:
  "eval_cond nm vl None (Some absent)" "\<not> eval_cond nm vl None (Some present)"
  "eval_cond nm vl None (Some [AttrNotExists a])"
  by (simp_all add: eval_cond_def absent_def present_def)

context dynamo
begin

lemma eval_absent [simp]: "eval_cond nm vl (tbl s kk) (Some absent) \<longleftrightarrow> tbl s kk = None"
  using tbl_key by (fastforce simp: eval_cond_def absent_def split: option.splits)

lemma eval_present [simp]: "eval_cond nm vl (tbl s kk) (Some present) \<longleftrightarrow> tbl s kk \<noteq> None"
  using tbl_key by (fastforce simp: eval_cond_def present_def split: option.splits)

lemma build_key_cases [case_names key failed]:
  obtains "BuildKey (client r) ''PK'' p ''SK'' k = Inr (mk_key p k)"
  | m where "BuildKey (client r) ''PK'' p ''SK'' k = Inl (Transport m)"
  using build_key [of p k] by blast

lemma put_spec:
  assumes "WriteItem (client r) (tab r) it c s = (e, s')"
    and "c = map_option render_cond co" "co \<in> {None, Some absent, Some present}"
    and "it ''PK'' = Some (AvS p)" "it ''SK'' = Some (AvS k)"
  shows "write_spec (eval_cond Map.empty Map.empty (tbl s (p, k)) co) (p, k) (Some it) (tbl s) e (tbl s')"
proof -
  have k: "item_key it = (p, k)" using assms(4,5) by (simp add: item_key_def)
  have "valid_write (WPut it co)" using assms(3-5) by (auto simp: k)
  with write_item [of it co s e s'] assms(1,2) show ?thesis
    by (simp add: outcome_single wr_ok_def k)
qed

definition old_or_new :: "key \<Rightarrow> 's \<Rightarrow> item" where
  "old_or_new kk s = (case tbl s kk of None \<Rightarrow> mk_key (fst kk) (snd kk) | Some it \<Rightarrow> it)"

lemma upd_spec:
  assumes "UpdateItem (client r) (tab r) (mk_key p k) (render_uexpr u) vl nm c s = (x, s')"
    and "c = map_option render_cond co" "valid_upd u nm vl co"
    and "apply_uexpr ssl nm vl u (old_or_new (p, k) s) = new"
  shows "write_spec (eval_cond nm vl (tbl s (p, k)) co) (p, k) (Some new) (tbl s) (err_of x) (tbl s')"
    and "x = Inr it \<Longrightarrow> it = new"
proof -
  from update_item [of p k u vl nm co s x s'] assms
  have o: "outcome ssl (single_failed (WUpd (p, k) u nm vl co) (tbl s)) [WUpd (p, k) u nm vl co]
      (tbl s) (err_of x) (tbl s')" and y: "\<forall>it. x = Inr it \<longrightarrow> tbl s' (p, k) = Some it"
    by (simp_all add: err_of_def)
  from o assms(4) show sp: "write_spec (eval_cond nm vl (tbl s (p, k)) co) (p, k) (Some new)
      (tbl s) (err_of x) (tbl s')"
    by (simp add: outcome_single wr_ok_def old_or_new_def)
  assume "x = Inr it"
  with sp y show "it = new" by (simp add: write_spec_def)
qed

text \<open>The same for an expression built clause by clause.\<close>

lemma build_spec:
  assumes "UpdateItem (client r) (tab r) (mk_key p k) (set_expr (build qs))
      (exprValues (build qs)) (exprNames (build qs)) c s = (x, s')"
    and "c = map_option render_cond co" "co \<in> {None, Some absent, Some present}" "good_clauses qs"
  shows "write_spec (eval_cond Map.empty Map.empty (tbl s (p, k)) co) (p, k)
      (Some (assign qs (old_or_new (p, k) s))) (tbl s) (err_of x) (tbl s')"
    and "x = Inr it \<Longrightarrow> it = assign qs (old_or_new (p, k) s)"
proof -
  have ne: "qs \<noteq> []" using assms(4) by (simp add: good_clauses_def)
  have v: "valid_upd (sets_only qs) (exprNames (build qs)) (exprValues (build qs)) co"
    using valid_build [OF assms(4), of co Map.empty] assms(3) by auto
  have a: "apply_uexpr ssl (exprNames (build qs)) (exprValues (build qs)) (sets_only qs)
      (old_or_new (p, k) s) = assign qs (old_or_new (p, k) s)"
    using apply_build [OF assms(4), of Map.empty] by simp
  have ev: "eval_cond nm vl it co = eval_cond nm' vl' it co" for nm vl nm' vl' it
    using assms(3) by (auto simp: eval_cond_def absent_def present_def split: option.splits)
  note sp = upd_spec [OF assms(1) [unfolded set_expr_build [OF ne]] assms(2) v a]
  show "write_spec (eval_cond Map.empty Map.empty (tbl s (p, k)) co) (p, k)
      (Some (assign qs (old_or_new (p, k) s))) (tbl s) (err_of x) (tbl s')"
    using sp(1) by (simp only: ev [of "exprNames (build qs)" "exprValues (build qs)" _ Map.empty Map.empty])
  show "x = Inr it \<Longrightarrow> it = assign qs (old_or_new (p, k) s)" using sp(2) .
qed

lemma old_or_new_present: "tbl s kk = Some it \<Longrightarrow> old_or_new kk s = it"
  by (simp add: old_or_new_def)

end

section \<open>Results of the operations that write one item\<close>

text \<open>\<open>fail\<close> is the error a failed condition is turned into.\<close>

definition put_result :: "error \<Rightarrow> bool \<Rightarrow> key \<Rightarrow> item option \<Rightarrow> table \<Rightarrow> error option \<Rightarrow> table \<Rightarrow> bool" where
  "put_result fail ok kk new tb e tb' \<longleftrightarrow>
     ok \<and> tb' = tb(kk := new) \<and> (\<forall>x. e = Some x \<longrightarrow> transport x)
   \<or> tb' = tb \<and> (\<exists>x. e = Some x \<and> (transport x \<or> x = fail \<and> \<not> ok))"

lemma put_result_write:
  assumes "write_spec ok kk new tb e tb'"
    and "e' = (case e of None \<Rightarrow> None | Some x \<Rightarrow> Some (if x = ConditionalCheckFailed then fail else x))"
  shows "put_result fail ok kk new tb e' tb'"
  using assms by (auto simp: write_spec_def put_result_def split: option.splits)

lemma put_result_transport: "transport x \<Longrightarrow> put_result fail ok kk new tb (Some x) tb"
  by (simp add: put_result_def)

context dynamo
begin

text \<open>A partial update of an item that must exist.\<close>

lemma present_update_spec:
  assumes "UpdateItem (client r) (tab r) (mk_key p k) (set_expr (build qs))
      (exprValues (build qs)) (exprNames (build qs)) (Some ''attribute_exists(SK)'') s = (x, s1)"
    and "good_clauses qs"
    and "(case x of Inr _ \<Rightarrow> (None, s1) | Inl e \<Rightarrow>
      if e = ConditionalCheckFailed then (Some fail, s1) else (Some e, s1)) = (e, s')"
  shows "\<exists>new. put_result fail (tbl s (p, k) \<noteq> None) (p, k) new (tbl s) e (tbl s')
    \<and> (\<forall>it. tbl s (p, k) = Some it \<longrightarrow> new = Some (assign qs it))"
proof -
  have "write_spec (tbl s (p, k) \<noteq> None) (p, k) (Some (assign qs (old_or_new (p, k) s))) (tbl s) (err_of x) (tbl s1)"
    using build_spec(1) [OF assms(1) _ _ assms(2), of "Some present"] by (simp add: render_present)
  then have "put_result fail (tbl s (p, k) \<noteq> None) (p, k) (Some (assign qs (old_or_new (p, k) s))) (tbl s) e (tbl s')"
    using assms(3) by (cases x) (auto simp: write_spec_def put_result_def split: if_splits)
  then show ?thesis by (auto simp: old_or_new_def)
qed

lemma delete_spec:
  assumes "(case BuildKey (client r) ''PK'' p ''SK'' k of Inl e \<Rightarrow> (Some e, s)
    | Inr key \<Rightarrow> DeleteItem (client r) (tab r) key s) = (e, s')"
  shows "tbl s' = (tbl s)((p, k) := None) \<and> (\<forall>x. e = Some x \<longrightarrow> transport x)
    \<or> tbl s' = tbl s \<and> (\<exists>x. e = Some x \<and> transport x)"
proof (cases rule: build_key_cases [where p = p and k = k])
  case key
  with assms have "DeleteItem (client r) (tab r) (mk_key p k) s = (e, s')" by simp
  from delete_item [OF this] show ?thesis unfolding outcome_delete by (auto split: option.splits)
next
  case (failed m)
  with assms show ?thesis by auto
qed

end

end
