(* ===== verification/Dynamo_Parse.thy ===== *)
theory Dynamo_Parse
  imports Dynamo
begin

text \<open>
  A parser for the expression texts of \<open>Dynamo\<close>, with the proof that it reads back every
  valid condition, update expression, key condition and transaction item from its rendering.
  It lets the reference store of \<open>Dynamo_Mem\<close> interpret the very strings the repository builds.
\<close>

section \<open>Words\<close>

fun split_words :: "string \<Rightarrow> string list" where
  "split_words [] = [[]]"
| "split_words (c # cs) =
     (if c = CHR '' '' then [] # split_words cs
      else (case split_words cs of [] \<Rightarrow> [[c]] | w # ws \<Rightarrow> (c # w) # ws))"

lemma split_words_nonempty [simp]: "split_words s \<noteq> []"
  by (induction s) (auto split: list.splits)

lemma split_words_single: "plain w \<Longrightarrow> split_words w = [w]"
  by (induction w) (auto simp: plain_def)

lemma split_words_append: "split_words (a @ '' '' @ b) = split_words a @ split_words b"
  by (induction a) (auto split: list.splits)

lemma split_words_cons: "plain w \<Longrightarrow> split_words (w @ '' '' @ b) = w # split_words b"
  unfolding split_words_append by (simp add: split_words_single)

lemma split_words_join:
  "xs \<noteq> [] \<Longrightarrow> split_words (join '' '' xs) = concat (map split_words xs)"
proof (induction "'' ''" xs rule: join.induct)
  case (3 x y xs)
  then show ?case unfolding join.simps split_words_append by simp
qed auto

lemma plain_append [simp]: "plain (a @ b) \<longleftrightarrow> plain a \<and> plain b"
  by (auto simp: plain_def)

lemma token_plain: "token s \<Longrightarrow> plain s"
  by (simp add: token_def plain_def)

lemma token_last: "token s \<Longrightarrow> last s \<noteq> CHR '',''"
  unfolding token_def by (metis last_in_set)

lemma token_nonempty: "token s \<Longrightarrow> s \<noteq> []"
  by (simp add: token_def)

section \<open>Conditions\<close>

fun catom_words :: "catom \<Rightarrow> string list" where
  "catom_words (AttrExists a) = [''attribute_exists('' @ a @ '')'']"
| "catom_words (AttrNotExists a) = [''attribute_not_exists('' @ a @ '')'']"
| "catom_words (NameEq n v) = [n, ''='', v]"
| "catom_words (NameLe n v) = [n, ''<='', v]"

definition attr_atom :: "string \<Rightarrow> catom option" where
  "attr_atom w =
     (if has_prefix ''attribute_exists('' w then Some (AttrExists (butlast (drop 17 w)))
      else if has_prefix ''attribute_not_exists('' w then Some (AttrNotExists (butlast (drop 21 w)))
      else None)"

definition op_atom :: "string \<Rightarrow> string \<Rightarrow> string \<Rightarrow> catom option" where
  "op_atom n op v = (if op = ''='' then Some (NameEq n v)
     else if op = ''<='' then Some (NameLe n v) else None)"

fun parse_atoms :: "string list \<Rightarrow> cond option" where
  "parse_atoms [] = None"
| "parse_atoms (w # rest) = (case attr_atom w of
     Some a \<Rightarrow> (case rest of [] \<Rightarrow> Some [a]
       | x # rest' \<Rightarrow> if x = ''AND'' then map_option ((#) a) (parse_atoms rest') else None)
   | None \<Rightarrow> (case rest of op # v # rest' \<Rightarrow> (case op_atom w op v of
         Some a \<Rightarrow> (case rest' of [] \<Rightarrow> Some [a]
           | x # rest'' \<Rightarrow> if x = ''AND'' then map_option ((#) a) (parse_atoms rest'') else None)
       | None \<Rightarrow> None)
     | _ \<Rightarrow> None))"

definition catom_valid :: "catom \<Rightarrow> bool" where
  "catom_valid a \<longleftrightarrow> catom_ok a \<and> list_all token (catom_names a) \<and> list_all token (catom_vals a)"

fun cond_words :: "cond \<Rightarrow> string list" where
  "cond_words [] = []"
| "cond_words [a] = catom_words a"
| "cond_words (a # b # cs) = catom_words a @ [''AND''] @ cond_words (b # cs)"

lemma plain_literals [simp]:
  "plain ''AND''" "plain ''=''" "plain ''<=''" "plain ''SET''" "plain ''ADD''" "plain ''DELETE''"
  "plain ''attribute_exists(''" "plain ''attribute_not_exists(''" "plain '')''" "plain ''PK''"
  "plain ''GSI1PK''" "plain ''GSI1SK''" "plain ''begins_with(SK,''" "plain '',''"
  by (simp_all add: plain_def)

lemma split_words_op:
  "plain n \<Longrightarrow> plain op \<Longrightarrow> plain v \<Longrightarrow> split_words (n @ '' '' @ (op @ '' '' @ v)) = [n, op, v]"
  unfolding split_words_append by (simp add: split_words_single)

lemma split_render_catom:
  assumes "catom_valid a"
  shows "split_words (render_catom a) = catom_words a"
proof (cases a)
  case (AttrExists x)
  with assms have "plain (''attribute_exists('' @ x @ '')'')"
    unfolding plain_append by (simp add: catom_valid_def)
  from split_words_single [OF this] AttrExists show ?thesis
    by (simp only: render_catom.simps catom_words.simps)
next
  case (AttrNotExists x)
  with assms have "plain (''attribute_not_exists('' @ x @ '')'')"
    unfolding plain_append by (simp add: catom_valid_def)
  from split_words_single [OF this] AttrNotExists show ?thesis
    by (simp only: render_catom.simps catom_words.simps)
next
  case (NameEq n v)
  with assms have "plain n" "plain v" by (simp_all add: catom_valid_def token_plain)
  with NameEq split_words_op [of n "''=''" v] show ?thesis by simp
next
  case (NameLe n v)
  with assms have "plain n" "plain v" by (simp_all add: catom_valid_def token_plain)
  with NameLe split_words_op [of n "''<=''" v] show ?thesis by simp
qed

lemma split_render_cond:
  "list_all catom_valid cs \<Longrightarrow> cs \<noteq> [] \<Longrightarrow> split_words (render_cond cs) = cond_words cs"
proof (induction cs rule: cond_words.induct)
  case (3 a b cs)
  have "split_words (render_cond (a # b # cs))
      = split_words (render_catom a @ '' '' @ (''AND'' @ '' '' @ render_cond (b # cs)))"
    by (simp add: render_cond_def)
  also have "\<dots> = split_words (render_catom a) @ [''AND''] @ split_words (render_cond (b # cs))"
    unfolding split_words_append by (simp add: split_words_single)
  finally show ?case
    using 3 by (simp add: split_render_catom)
qed (simp_all add: render_cond_def split_render_catom)

lemma attr_atom_token: "token n \<Longrightarrow> attr_atom n = None"
  by (cases n) (auto simp: attr_atom_def has_prefix_def token_def)

lemma attr_atom_words:
  "attr_atom (''attribute_exists('' @ a @ '')'') = Some (AttrExists a)"
  "attr_atom (''attribute_not_exists('' @ a @ '')'') = Some (AttrNotExists a)"
  by (simp_all add: attr_atom_def has_prefix_def butlast_append)

lemma parse_atoms_attr:
  "attr_atom w = Some a \<Longrightarrow> parse_atoms [w] = Some [a]"
  "attr_atom w = Some a \<Longrightarrow>
     parse_atoms (w # ''AND'' # ws) = map_option ((#) a) (parse_atoms ws)"
  by simp_all

lemma parse_atoms_op:
  "token n \<Longrightarrow> op_atom n op v = Some a \<Longrightarrow> parse_atoms [n, op, v] = Some [a]"
  "token n \<Longrightarrow> op_atom n op v = Some a \<Longrightarrow>
     parse_atoms (n # op # v # ''AND'' # ws) = map_option ((#) a) (parse_atoms ws)"
  by (simp_all add: attr_atom_token)

lemma parse_atoms_step:
  assumes "catom_valid a"
  shows "parse_atoms (catom_words a) = Some [a]"
    and "parse_atoms (catom_words a @ [''AND''] @ ws) = map_option ((#) a) (parse_atoms ws)"
proof -
  show "parse_atoms (catom_words a) = Some [a]"
  proof (cases a)
    case (AttrExists x)
    then show ?thesis using parse_atoms_attr(1) [OF attr_atom_words(1)] by simp
  next
    case (AttrNotExists x)
    then show ?thesis using parse_atoms_attr(1) [OF attr_atom_words(2)] by simp
  next
    case (NameEq n v)
    with assms show ?thesis
      using parse_atoms_op(1) [of n "''=''" v a] by (simp add: catom_valid_def op_atom_def)
  next
    case (NameLe n v)
    with assms show ?thesis
      using parse_atoms_op(1) [of n "''<=''" v a] by (simp add: catom_valid_def op_atom_def)
  qed
  show "parse_atoms (catom_words a @ [''AND''] @ ws) = map_option ((#) a) (parse_atoms ws)"
  proof (cases a)
    case (AttrExists x)
    then show ?thesis using parse_atoms_attr(2) [OF attr_atom_words(1)] by simp
  next
    case (AttrNotExists x)
    then show ?thesis using parse_atoms_attr(2) [OF attr_atom_words(2)] by simp
  next
    case (NameEq n v)
    with assms show ?thesis
      using parse_atoms_op(2) [of n "''=''" v a] by (simp add: catom_valid_def op_atom_def)
  next
    case (NameLe n v)
    with assms show ?thesis
      using parse_atoms_op(2) [of n "''<=''" v a] by (simp add: catom_valid_def op_atom_def)
  qed
qed

lemma parse_cond_words: "list_all catom_valid cs \<Longrightarrow> cs \<noteq> [] \<Longrightarrow> parse_atoms (cond_words cs) = Some cs"
proof (induction cs rule: cond_words.induct)
  case (3 a b cs)
  then show ?case unfolding cond_words.simps by (simp add: parse_atoms_step(2) del: append.simps)
qed (simp_all add: parse_atoms_step)

definition parse_cond :: "string option \<Rightarrow> cond option option" where
  "parse_cond c = (case c of None \<Rightarrow> Some None
     | Some s \<Rightarrow> map_option Some (parse_atoms (split_words s)))"

lemma parse_render_cond:
  "c \<noteq> Some [] \<Longrightarrow> list_all catom_valid (cond_atoms c) \<Longrightarrow>
    parse_cond (map_option render_cond c) = Some c"
  by (cases c) (simp_all add: parse_cond_def cond_atoms_def split_render_cond parse_cond_words)

section \<open>Update expressions\<close>

fun set_words :: "(string \<times> string) list \<Rightarrow> string list" where
  "set_words [] = []"
| "set_words [(n, v)] = [n, ''='', v]"
| "set_words ((n, v) # p # ps) = [n, ''='', v @ '',''] @ set_words (p # ps)"

fun pair_words :: "(string \<times> string) list \<Rightarrow> string list" where
  "pair_words [] = []"
| "pair_words [(n, v)] = [n, v]"
| "pair_words ((n, v) # p # ps) = [n, v @ '',''] @ pair_words (p # ps)"

definition uexpr_words :: "uexpr \<Rightarrow> string list" where
  "uexpr_words u =
     (if u_sets u = [] then [] else ''SET'' # set_words (u_sets u))
   @ (if u_adds u = [] then [] else ''ADD'' # pair_words (u_adds u))
   @ (if u_dels u = [] then [] else ''DELETE'' # pair_words (u_dels u))"

definition ends_comma :: "string \<Rightarrow> bool" where
  "ends_comma s \<longleftrightarrow> s \<noteq> [] \<and> last s = CHR '',''"

fun parse_sets :: "string list \<Rightarrow> ((string \<times> string) list \<times> string list) option" where
  "parse_sets (n # eq # v # rest) =
     (if eq = ''='' then
        (if ends_comma v
         then (case parse_sets rest of Some (ps, r) \<Rightarrow> Some ((n, butlast v) # ps, r) | None \<Rightarrow> None)
         else Some ([(n, v)], rest))
      else None)"
| "parse_sets _ = None"

fun parse_pairs :: "string list \<Rightarrow> ((string \<times> string) list \<times> string list) option" where
  "parse_pairs (n # v # rest) =
     (if ends_comma v
      then (case parse_pairs rest of Some (ps, r) \<Rightarrow> Some ((n, butlast v) # ps, r) | None \<Rightarrow> None)
      else Some ([(n, v)], rest))"
| "parse_pairs _ = None"

definition parse_section ::
  "string \<Rightarrow> (string list \<Rightarrow> ((string \<times> string) list \<times> string list) option) \<Rightarrow> string list
    \<Rightarrow> ((string \<times> string) list \<times> string list) option" where
  "parse_section kw f ws = (case ws of [] \<Rightarrow> Some ([], [])
     | w # rest \<Rightarrow> if w = kw then f rest else Some ([], ws))"

definition parse_uexpr :: "string \<Rightarrow> uexpr option" where
  "parse_uexpr s = do {
     (sets, r1) \<leftarrow> parse_section ''SET'' parse_sets (split_words s);
     (adds, r2) \<leftarrow> parse_section ''ADD'' parse_pairs r1;
     (dels, r3) \<leftarrow> parse_section ''DELETE'' parse_pairs r2;
     if r3 = [] then Some (UExpr sets adds dels) else None
   }"

definition tokens :: "(string \<times> string) list \<Rightarrow> bool" where
  "tokens ps \<longleftrightarrow> list_all (\<lambda>p. token (fst p) \<and> token (snd p)) ps"

lemma ends_comma_token [simp]: "token v \<Longrightarrow> \<not> ends_comma v"
  by (simp add: ends_comma_def token_last)

lemma ends_comma_append [simp]: "ends_comma (v @ '','')"
  by (simp add: ends_comma_def)

lemma parse_sets_words:
  "tokens ps \<Longrightarrow> ps \<noteq> [] \<Longrightarrow> parse_sets (set_words ps @ rest) = Some (ps, rest)"
  by (induction ps rule: set_words.induct) (simp_all add: tokens_def)

lemma parse_pairs_words:
  "tokens ps \<Longrightarrow> ps \<noteq> [] \<Longrightarrow> parse_pairs (pair_words ps @ rest) = Some (ps, rest)"
  by (induction ps rule: pair_words.induct) (simp_all add: tokens_def)

lemma split_words_op_cons:
  "plain n \<Longrightarrow> plain op \<Longrightarrow> plain v \<Longrightarrow>
    split_words (n @ '' '' @ (op @ '' '' @ (v @ '' '' @ b))) = [n, op, v] @ split_words b"
  unfolding split_words_append by (simp add: split_words_single)

lemma split_words_two:
  "plain n \<Longrightarrow> plain v \<Longrightarrow> split_words (n @ '' '' @ v) = [n, v]"
  "plain n \<Longrightarrow> plain v \<Longrightarrow> split_words (n @ '' '' @ (v @ '' '' @ b)) = [n, v] @ split_words b"
  unfolding split_words_append by (simp_all add: split_words_single)

lemma split_sets:
  "tokens ps \<Longrightarrow> ps \<noteq> [] \<Longrightarrow> split_words (join '', '' (map render_set ps)) = set_words ps"
proof (induction ps rule: set_words.induct)
  case (2 n v)
  then show ?case
    using split_words_op [of n "''=''" v] by (simp add: tokens_def render_set_def token_plain)
next
  case (3 n v p ps)
  then have "plain n" "plain (v @ '','')" by (simp_all add: tokens_def token_plain)
  moreover have "join '', '' (map render_set ((n, v) # p # ps))
      = n @ '' '' @ (''='' @ '' '' @ ((v @ '','') @ '' '' @ join '', '' (map render_set (p # ps))))"
    by (simp add: render_set_def)
  ultimately have "split_words (join '', '' (map render_set ((n, v) # p # ps)))
      = [n, ''='', v @ '',''] @ split_words (join '', '' (map render_set (p # ps)))"
    using split_words_op_cons [of n "''=''" "v @ '',''"] plain_literals by metis
  moreover have "tokens (p # ps)" using 3(2) by (simp add: tokens_def)
  ultimately show ?case using 3(1) by simp
qed simp

lemma split_pairs:
  "tokens ps \<Longrightarrow> ps \<noteq> [] \<Longrightarrow> split_words (join '', '' (map render_pair ps)) = pair_words ps"
proof (induction ps rule: pair_words.induct)
  case (2 n v)
  then show ?case
    using split_words_two(1) [of n v] by (simp add: tokens_def render_pair_def token_plain)
next
  case (3 n v p ps)
  then have "plain n" "plain (v @ '','')" by (simp_all add: tokens_def token_plain)
  moreover have "join '', '' (map render_pair ((n, v) # p # ps))
      = n @ '' '' @ ((v @ '','') @ '' '' @ join '', '' (map render_pair (p # ps)))"
    by (simp add: render_pair_def)
  ultimately have "split_words (join '', '' (map render_pair ((n, v) # p # ps)))
      = [n, v @ '',''] @ split_words (join '', '' (map render_pair (p # ps)))"
    using split_words_two(2) [of n "v @ '',''"] by metis
  moreover have "tokens (p # ps)" using 3(2) by (simp add: tokens_def)
  ultimately show ?case using 3(1) by simp
qed simp

lemma split_keyword:
  "plain kw \<Longrightarrow> split_words (kw @ '' '' @ s) = kw # split_words s"
  by (rule split_words_cons)

lemma split_render_uexpr:
  assumes "tokens (u_pairs u)" and "u_pairs u \<noteq> []"
  shows "split_words (render_uexpr u) = uexpr_words u"
proof -
  let ?secs = "(if u_sets u = [] then [] else [''SET'' @ '' '' @ join '', '' (map render_set (u_sets u))])
    @ (if u_adds u = [] then [] else [''ADD'' @ '' '' @ join '', '' (map render_pair (u_adds u))])
    @ (if u_dels u = [] then [] else [''DELETE'' @ '' '' @ join '', '' (map render_pair (u_dels u))])"
  have t: "tokens (u_sets u)" "tokens (u_adds u)" "tokens (u_dels u)"
    using assms(1) by (simp_all add: tokens_def u_pairs_def)
  have "?secs \<noteq> []" using assms(2) by (auto simp: u_pairs_def)
  moreover have "render_uexpr u = join '' '' ?secs" by (simp add: render_uexpr_def)
  ultimately have "split_words (render_uexpr u) = concat (map split_words ?secs)"
    using split_words_join [of ?secs] by metis
  also have "\<dots> = uexpr_words u"
    unfolding uexpr_words_def map_append concat_append
    using t split_keyword [OF plain_literals(4)] split_keyword [OF plain_literals(5)]
      split_keyword [OF plain_literals(6)]
    by (auto simp: split_sets split_pairs simp del: append.simps)
  finally show ?thesis .
qed

lemma parse_section_hit: "parse_section kw f (kw # ws) = f ws"
  by (simp add: parse_section_def)

lemma parse_section_miss: "ws = [] \<or> hd ws \<noteq> kw \<Longrightarrow> parse_section kw f ws = Some ([], ws)"
  by (auto simp: parse_section_def split: list.splits)

lemma parse_render_uexpr:
  assumes "tokens (u_pairs u)" and "u_pairs u \<noteq> []"
  shows "parse_uexpr (render_uexpr u) = Some u"
proof -
  define D where "D = (if u_dels u = [] then [] else ''DELETE'' # pair_words (u_dels u))"
  define A where "A = (if u_adds u = [] then [] else ''ADD'' # pair_words (u_adds u))"
  define S where "S = (if u_sets u = [] then [] else ''SET'' # set_words (u_sets u))"
  have t: "tokens (u_sets u)" "tokens (u_adds u)" "tokens (u_dels u)"
    using assms(1) by (simp_all add: tokens_def u_pairs_def)
  have d: "parse_section ''DELETE'' parse_pairs D = Some (u_dels u, [])"
    using parse_pairs_words [OF t(3), of "[]"] by (simp add: D_def parse_section_def)
  have a: "parse_section ''ADD'' parse_pairs (A @ D) = Some (u_adds u, D)"
    using parse_pairs_words [OF t(2), of D]
    by (simp add: A_def parse_section_hit) (simp add: D_def parse_section_miss)
  have s: "parse_section ''SET'' parse_sets (S @ A @ D) = Some (u_sets u, A @ D)"
    using parse_sets_words [OF t(1), of "A @ D"]
    by (simp add: S_def parse_section_hit) (simp add: A_def D_def parse_section_miss)
  have "split_words (render_uexpr u) = S @ A @ D"
    using split_render_uexpr [OF assms] by (simp add: uexpr_words_def S_def A_def D_def)
  with s a d show ?thesis by (simp add: parse_uexpr_def)
qed

section \<open>Key conditions and transaction items\<close>

definition parse_kcond :: "string \<Rightarrow> kcond option" where
  "parse_kcond s = (case split_words s of
     [a, e, v] \<Rightarrow> if a = ''PK'' \<and> e = ''='' then Some (KPk v) else None
   | [a, e, v, c, f, w] \<Rightarrow>
       if a = ''PK'' \<and> e = ''='' \<and> c = ''AND'' \<and> f = ''begins_with(SK,''
       then Some (KPkPrefix v (butlast w)) else None
   | [a, e, v, c, b, e', w] \<Rightarrow>
       if a = ''GSI1PK'' \<and> e = ''='' \<and> c = ''AND'' \<and> b = ''GSI1SK'' \<and> e' = ''=''
       then Some (KGsi v w) else None
   | _ \<Rightarrow> None)"

lemma split_words_six:
  "plain a \<Longrightarrow> plain b \<Longrightarrow> plain c \<Longrightarrow> plain d \<Longrightarrow> plain e \<Longrightarrow> plain f \<Longrightarrow>
    split_words (a @ '' '' @ (b @ '' '' @ (c @ '' '' @ (d @ '' '' @ (e @ '' '' @ f)))))
      = [a, b, c, d, e, f]"
  unfolding split_words_append by (simp add: split_words_single)

lemma split_words_seven:
  "plain a \<Longrightarrow> plain b \<Longrightarrow> plain c \<Longrightarrow> plain d \<Longrightarrow> plain e \<Longrightarrow> plain f \<Longrightarrow> plain g \<Longrightarrow>
    split_words (a @ '' '' @ (b @ '' '' @ (c @ '' '' @ (d @ '' '' @ (e @ '' '' @ (f @ '' '' @ g))))))
      = [a, b, c, d, e, f, g]"
  unfolding split_words_append by (simp add: split_words_single)

lemma parse_render_kcond:
  assumes "list_all token (kcond_vals kc)"
  shows "parse_kcond (render_kcond kc) = Some kc"
proof (cases kc)
  case (KPk v)
  with assms split_words_op [of "''PK''" "''=''" v] show ?thesis
    by (simp add: parse_kcond_def token_plain)
next
  case (KPkPrefix v w)
  with assms have "plain v" "plain (w @ '')'')" by (simp_all add: token_plain)
  with KPkPrefix split_words_six [of "''PK''" "''=''" v "''AND''" "''begins_with(SK,''" "w @ '')''"]
  show ?thesis by (simp add: parse_kcond_def)
next
  case (KGsi v w)
  with assms have "plain v" "plain w" by (simp_all add: token_plain)
  with KGsi split_words_seven [of "''GSI1PK''" "''=''" v "''AND''" "''GSI1SK''" "''=''" w]
  show ?thesis by (simp add: parse_kcond_def)
qed

definition parse_write :: "transact_item \<Rightarrow> wreq option" where
  "parse_write t = do {
     c \<leftarrow> parse_cond (ti_Condition t);
     (case ti_Op t of
        TransactPut \<Rightarrow> Some (WPut (ti_Item t) c)
      | TransactDelete \<Rightarrow> Some (WDel (item_key (ti_Key t)))
      | TransactUpdate \<Rightarrow> do {
          u \<leftarrow> parse_uexpr (ti_UpdateExpr t);
          Some (WUpd (item_key (ti_Key t)) u (ti_ExprNames t) (ti_ExprValues t) c) })
   }"

lemma valid_upd_parts:
  assumes "valid_upd u nm vl c"
  shows "tokens (u_pairs u)" "u_pairs u \<noteq> []" "c \<noteq> Some []" "list_all catom_valid (cond_atoms c)"
  using assms unfolding valid_upd_def used_names_def used_vals_def tokens_def catom_valid_def
  by (auto simp: list_all_iff)

lemma well_formed_parts:
  assumes "well_formed_expr u c"
  shows "tokens (u_pairs u)" "c \<noteq> Some []" "list_all catom_valid (cond_atoms c)"
  using assms unfolding well_formed_expr_def used_names_def used_vals_def tokens_def catom_valid_def
  by (auto simp: list_all_iff)

lemma catom_vals_no_names: "catom_names a = [] \<Longrightarrow> catom_vals a = []"
  by (cases a) auto

lemma parse_render_write:
  assumes "valid_write w"
  shows "parse_write (render_write tn w) = Some w"
proof (cases w)
  case (WPut it c)
  with assms have "c \<noteq> Some []" "list_all catom_valid (cond_atoms c)"
    by (auto simp: list_all_iff catom_valid_def catom_vals_no_names)
  with WPut show ?thesis by (simp add: parse_write_def parse_render_cond)
next
  case (WDel k)
  then show ?thesis by (simp add: parse_write_def parse_cond_def)
next
  case (WUpd k u nm vl c)
  with assms have "valid_upd u nm vl c" by simp
  from valid_upd_parts [OF this] WUpd show ?thesis
    by (simp add: parse_write_def parse_render_cond parse_render_uexpr)
qed

end
