(* ===== verification/Dynamo_Mem.thy ===== *)
theory Dynamo_Mem
  imports Dynamo_Parse
begin

text \<open>
  An executable in-memory store that satisfies the contract \<open>dynamo\<close> for every state: the
  contract is consistent, and the witnesses of the properties run the modelled operations on it.
  It parses the expression strings it is given. A list of injected faults makes chosen calls fail
  with a transport error, so that error paths can be run as well.
\<close>

record mem =
  m_rows :: "item list"
  m_faults :: "bool list"

definition keyed :: "item \<Rightarrow> key \<Rightarrow> bool" where
  "keyed it k \<longleftrightarrow> it ''PK'' = Some (AvS (fst k)) \<and> it ''SK'' = Some (AvS (snd k))"

definition mem_tbl :: "mem \<Rightarrow> table" where
  "mem_tbl s k = List.find (\<lambda>it. keyed it k) (m_rows s)"

definition mem_keys :: "mem \<Rightarrow> key list" where
  "mem_keys s = remdups (map item_key (filter (\<lambda>it. keyed it (item_key it)) (m_rows s)))"

definition mem_ssl :: "string set \<Rightarrow> string list" where
  "mem_ssl A = sorted_list_of_set A"

definition mem_upd :: "key \<Rightarrow> item option \<Rightarrow> item list \<Rightarrow> item list" where
  "mem_upd k new rs = filter (\<lambda>it. \<not> keyed it k) rs @ (case new of None \<Rightarrow> [] | Some it \<Rightarrow> [it])"

definition mem_write :: "wreq \<Rightarrow> mem \<Rightarrow> mem" where
  "mem_write w s = s\<lparr>m_rows := mem_upd (wr_key w) (wr_new mem_ssl w (mem_tbl s (wr_key w))) (m_rows s)\<rparr>"

definition pop_fault :: "mem \<Rightarrow> bool \<times> mem" where
  "pop_fault s = (case m_faults s of [] \<Rightarrow> (False, s) | b # bs \<Rightarrow> (b, s\<lparr>m_faults := bs\<rparr>))"

definition injected :: error where
  "injected = Transport ''injected fault''"

definition invalid :: error where
  "invalid = Transport ''ValidationException''"

definition mem_get :: "string \<Rightarrow> item \<Rightarrow> mem \<Rightarrow> (error + item) \<times> mem" where
  "mem_get tn k s = (case pop_fault s of (f, s1) \<Rightarrow>
     if f then (Inl injected, s1)
     else (case mem_tbl s1 (item_key k) of None \<Rightarrow> (Inl DbNotFound, s1) | Some it \<Rightarrow> (Inr it, s1)))"

definition mem_batch :: "string \<Rightarrow> item list \<Rightarrow> mem \<Rightarrow> (error + item list) \<times> mem" where
  "mem_batch tn ks s = (case pop_fault s of (f, s1) \<Rightarrow>
     if f then (Inl injected, s1)
     else (Inr (List.map_filter (\<lambda>k. mem_tbl s1 (item_key k)) ks), s1))"

definition mem_matching :: "(string \<rightharpoonup> av) \<Rightarrow> kcond \<Rightarrow> mem \<Rightarrow> key list" where
  "mem_matching vl kc s =
     sort_key snd (filter (\<lambda>k. kcond_match vl kc k (the (mem_tbl s k))) (mem_keys s))"

definition mem_query_all :: "query_input \<Rightarrow> mem \<Rightarrow> (error + item list) \<times> mem" where
  "mem_query_all q s = (case pop_fault s of (f, s1) \<Rightarrow>
     if f then (Inl injected, s1)
     else (case parse_kcond (KeyConditionExpression q) of
       None \<Rightarrow> (Inl invalid, s1)
     | Some kc \<Rightarrow>
         (let ks = mem_matching (ExpressionValues q) kc s1;
              ks' = (if ScanIndexForward q = Some False then rev ks else ks)
          in (Inr (map (\<lambda>k. the (mem_tbl s1 k)) ks'), s1))))"

definition mem_query :: "query_input \<Rightarrow> mem \<Rightarrow> (error + item list) \<times> mem" where
  "mem_query q s = (case mem_query_all q s of
     (Inr its, s') \<Rightarrow> (Inr (case Limit q of None \<Rightarrow> its | Some l \<Rightarrow> take l its), s')
   | (Inl e, s') \<Rightarrow> (Inl e, s'))"

text \<open>What the store checks of a write; it admits every write the contract calls valid, and more:
  placeholders that are defined but not used are accepted.\<close>

fun mem_valid :: "wreq \<Rightarrow> bool" where
  "mem_valid (WUpd k u nm vl c) \<longleftrightarrow> u_pairs u \<noteq> []
     \<and> list_all (\<lambda>n. \<not> Option.is_none (nm n)) (used_names u c)
     \<and> list_all (\<lambda>v. \<not> Option.is_none (vl v)) (used_vals u c)
     \<and> distinct (map (\<lambda>p. the (nm (fst p))) (u_pairs u))
     \<and> list_all (\<lambda>p. the (nm (fst p)) \<noteq> ''PK'' \<and> the (nm (fst p)) \<noteq> ''SK'') (u_pairs u)
     \<and> list_all (\<lambda>p. good_ss (vl (snd p))) (u_adds u @ u_dels u)"
| "mem_valid (WPut it c) \<longleftrightarrow>
     it ''PK'' = Some (AvS (fst (item_key it))) \<and> it ''SK'' = Some (AvS (snd (item_key it)))"
| "mem_valid (WDel k) = True"

text \<open>One write or a transaction: all conditions are tested before anything changes.\<close>

definition mem_single :: "wreq option \<Rightarrow> mem \<Rightarrow> error option \<times> mem" where
  "mem_single w s = (case pop_fault s of (f, s1) \<Rightarrow>
     if f then (Some injected, s1)
     else (case w of None \<Rightarrow> (Some invalid, s1)
       | Some w' \<Rightarrow> if \<not> mem_valid w' then (Some invalid, s1)
           else if wr_ok w' (mem_tbl s1) then (None, mem_write w' s1)
           else (Some ConditionalCheckFailed, s1)))"

definition mem_put :: "string \<Rightarrow> item \<Rightarrow> string option \<Rightarrow> mem \<Rightarrow> error option \<times> mem" where
  "mem_put tn it c s = mem_single (map_option (WPut it) (parse_cond c)) s"

definition mem_delete :: "string \<Rightarrow> item \<Rightarrow> mem \<Rightarrow> error option \<times> mem" where
  "mem_delete tn k s = mem_single (Some (WDel (item_key k))) s"

definition mem_update :: "string \<Rightarrow> item \<Rightarrow> string \<Rightarrow> (string \<rightharpoonup> av) \<Rightarrow> (string \<rightharpoonup> string)
    \<Rightarrow> string option \<Rightarrow> mem \<Rightarrow> (error + item) \<times> mem" where
  "mem_update tn k ex vl nm c s =
     (case mem_single (do { u \<leftarrow> parse_uexpr ex; c' \<leftarrow> parse_cond c;
                            Some (WUpd (item_key k) u nm vl c') }) s of
        (Some e, s') \<Rightarrow> (Inl e, s')
      | (None, s') \<Rightarrow> (Inr (the (mem_tbl s' (item_key k))), s'))"

fun first_failing :: "nat \<Rightarrow> wreq list \<Rightarrow> table \<Rightarrow> nat option" where
  "first_failing i [] tb = None"
| "first_failing i (w # ws) tb = (if wr_ok w tb then first_failing (Suc i) ws tb else Some i)"

definition mem_transact :: "transact_item list \<Rightarrow> mem \<Rightarrow> error option \<times> mem" where
  "mem_transact ts s = (case pop_fault s of (f, s1) \<Rightarrow>
     if f then (Some injected, s1)
     else (let pws = map parse_write ts; ws = map the pws
       in if list_ex Option.is_none pws \<or> \<not> list_all mem_valid ws \<or> \<not> distinct (map wr_key ws)
             \<or> 100 < length ws
          then (Some invalid, s1)
          else (case first_failing 0 ws (mem_tbl s1) of
              Some i \<Rightarrow> (Some (TransactConditionFailed i), s1)
            | None \<Rightarrow> (None, fold mem_write ws s1))))"

definition mem_api :: "mem ddb_api" where
  "mem_api = \<lparr>BuildKey = (\<lambda>pn pv sn sv. Inr [pn \<mapsto> AvS pv, sn \<mapsto> AvS sv]),
     GetItem = mem_get, BatchGetItem = mem_batch, Query = mem_query, QueryAll = mem_query_all,
     WriteItem = mem_put, UpdateItem = mem_update, DeleteItem = mem_delete,
     TransactWrite = mem_transact\<rparr>"

definition mem_repo :: "mem repo" where
  "mem_repo = \<lparr>client = mem_api, tab = ''accounts''\<rparr>"

section \<open>The store as a table\<close>

lemma keyed_item_key: "keyed it k \<Longrightarrow> item_key it = k"
  by (simp add: keyed_def item_key_def)

lemma keyed_eq: "keyed it k \<Longrightarrow> keyed it k' \<longleftrightarrow> k = k'"
  by (metis keyed_item_key)

lemma mem_tbl_keyed: "mem_tbl s k = Some it \<Longrightarrow> keyed it k"
  unfolding mem_tbl_def by (metis (mono_tags, lifting) find_Some_iff)

lemma mem_tbl_faults [simp]: "mem_tbl (s\<lparr>m_faults := f\<rparr>) = mem_tbl s"
  by (rule ext) (simp add: mem_tbl_def)

lemma pop_fault_tbl: "pop_fault s = (f, s1) \<Longrightarrow> mem_tbl s1 = mem_tbl s"
  by (auto simp: pop_fault_def split: list.splits)

lemma find_filter_other: "k \<noteq> k' \<Longrightarrow>
    List.find (\<lambda>it. keyed it k') (filter (\<lambda>it. \<not> keyed it k) rs) = List.find (\<lambda>it. keyed it k') rs"
  by (induction rs) (auto simp: keyed_eq)

lemma find_append: "List.find P (xs @ ys) = (case List.find P xs of None \<Rightarrow> List.find P ys | Some x \<Rightarrow> Some x)"
  by (induction xs) auto

lemma find_filter_same: "List.find (\<lambda>it. keyed it k) (filter (\<lambda>it. \<not> keyed it k) rs) = None"
  by (induction rs) auto

lemma mem_upd_tbl:
  assumes "\<And>it. new = Some it \<Longrightarrow> keyed it k"
  shows "mem_tbl (s\<lparr>m_rows := mem_upd k new (m_rows s)\<rparr>) = (mem_tbl s)(k := new)"
proof
  fix k'
  show "mem_tbl (s\<lparr>m_rows := mem_upd k new (m_rows s)\<rparr>) k' = ((mem_tbl s)(k := new)) k'"
    using assms
    by (cases "k = k'"; cases new)
      (auto simp: mem_tbl_def mem_upd_def find_append find_filter_other find_filter_same keyed_eq
        split: option.splits)
qed

lemma mem_keys_set: "set (mem_keys s) = {k. \<exists>it. mem_tbl s k = Some it}"
proof -
  have "k \<in> set (mem_keys s) \<longleftrightarrow> (\<exists>it \<in> set (m_rows s). keyed it k)" for k
    unfolding mem_keys_def by (auto dest: keyed_item_key intro: rev_image_eqI)
  moreover have "(\<exists>it \<in> set (m_rows s). keyed it k) \<longleftrightarrow> (\<exists>it. mem_tbl s k = Some it)" for k
    unfolding mem_tbl_def using find_None_iff [of "\<lambda>it. keyed it k" "m_rows s"] by auto
  ultimately show ?thesis by blast
qed

lemma fold_upd_other:
  assumes "\<forall>p \<in> set ps. the (nm (fst p)) \<noteq> a"
  shows "fold (\<lambda>(n, v) it. it(the (nm n) := g n v it)) ps it a = it a"
  using assms by (induction ps arbitrary: it) auto

lemma apply_uexpr_other:
  assumes "\<forall>p \<in> set (u_pairs u). the (nm (fst p)) \<noteq> a"
  shows "apply_uexpr ssl nm vl u it a = it a"
  using assms unfolding apply_uexpr_def u_pairs_def Let_def
  by (simp add: fold_upd_other)

lemma wr_new_keyed:
  assumes "valid_write w" and "wr_new ssl w (mem_tbl s (wr_key w)) = Some it"
  shows "keyed it (wr_key w)"
proof (cases w)
  case (WPut it' c)
  with assms show ?thesis by (simp add: keyed_def)
next
  case (WDel k)
  with assms show ?thesis by simp
next
  case (WUpd k u nm vl c)
  with assms have "\<forall>p \<in> set (u_pairs u). the (nm (fst p)) \<noteq> ''PK''"
    "\<forall>p \<in> set (u_pairs u). the (nm (fst p)) \<noteq> ''SK''"
    by (auto simp: valid_upd_def)
  moreover have "keyed (case mem_tbl s k of None \<Rightarrow> mk_key (fst k) (snd k) | Some it \<Rightarrow> it) k"
    by (auto simp: mk_key_def keyed_def split: option.splits dest: mem_tbl_keyed)
  ultimately show ?thesis
    using assms(2) WUpd by (auto simp: keyed_def apply_uexpr_other)
qed

lemma mem_write_tbl: "valid_write w \<Longrightarrow> mem_tbl (mem_write w s) = wr_apply mem_ssl w (mem_tbl s)"
  unfolding mem_write_def wr_apply_def by (rule mem_upd_tbl) (rule wr_new_keyed)

lemma fold_mem_write_tbl:
  "list_all valid_write ws \<Longrightarrow> mem_tbl (fold mem_write ws s) = fold (wr_apply mem_ssl) ws (mem_tbl s)"
  by (induction ws arbitrary: s) (simp_all add: mem_write_tbl)

lemma valid_mem_valid: "valid_write w \<Longrightarrow> mem_valid w"
  by (cases w) (auto simp: valid_upd_def list_all_iff Option.is_none_def dom_def set_eq_iff)

lemma valid_mem_valid_all: "list_all valid_write ws \<Longrightarrow> list_all mem_valid ws"
  by (auto simp: list_all_iff valid_mem_valid)

lemma first_failing_None: "first_failing i ws tb = None \<longleftrightarrow> (\<forall>w \<in> set ws. wr_ok w tb)"
  by (induction i ws tb rule: first_failing.induct) auto

lemma first_failing_Some:
  "first_failing i ws tb = Some j \<Longrightarrow> i \<le> j \<and> j - i < length ws \<and> \<not> wr_ok (ws ! (j - i)) tb"
proof (induction i ws tb rule: first_failing.induct)
  case (2 i w ws tb)
  then show ?case
    by (cases "wr_ok w tb") (auto simp: nth_Cons split: nat.splits, (metis Suc_diff_le diff_Suc_Suc not_less_eq_eq nat.inject Suc_leD Suc_diff_Suc)+)
qed simp

lemma first_failing_0:
  "first_failing 0 ws tb = Some j \<Longrightarrow> j < length ws \<and> \<not> wr_ok (ws ! j) tb"
  using first_failing_Some [of 0 ws tb j] by simp

lemma map_filter_keys:
  "set (List.map_filter (\<lambda>k. f (item_key k)) (map (\<lambda>k. mk_key (fst k) (snd k)) ks))
    = {it. \<exists>k \<in> set ks. f k = Some it}"
  by (induction ks) (auto simp: map_filter_simps split: option.splits)

section \<open>The contract holds\<close>

lemma mem_single_outcome:
  assumes "mem_single (Some w) s = (e, s')" and "valid_write w"
  shows "outcome mem_ssl (single_failed w (mem_tbl s)) [w] (mem_tbl s) e (mem_tbl s')"
  using assms valid_mem_valid [OF assms(2)]
  by (auto simp: mem_single_def outcome_def single_failed_def commit_def mem_write_tbl
      injected_def wr_ok_def dest: pop_fault_tbl split: prod.splits if_splits)

lemma mem_query_all_rows:
  assumes "mem_query_all q s = (y, s')" and "parse_kcond (KeyConditionExpression q) = Some kc"
  shows "mem_tbl s' = mem_tbl s \<and> (case y of
      Inr its \<Rightarrow> its = map (\<lambda>k. the (mem_tbl s k))
        (if ScanIndexForward q = Some False then rev (mem_matching (ExpressionValues q) kc s')
         else mem_matching (ExpressionValues q) kc s')
    | Inl e \<Rightarrow> transport e)"
  using assms
  by (auto simp: mem_query_all_def injected_def Let_def dest!: pop_fault_tbl
      split: prod.splits if_splits)

lemma mem_matching_rows: "rows (mem_tbl s) (kcond_match vl kc) (mem_matching vl kc s)"
  unfolding rows_def mem_matching_def
  by (auto simp: mem_keys_set) (simp add: mem_keys_def)

lemma sorted_strict:
  assumes "sorted (map snd ks)" and "distinct ks" and "\<forall>k \<in> set ks. fst k = p"
  shows "sorted_wrt (\<lambda>a b. snd a < snd b) ks"
  using assms
proof (induction ks)
  case (Cons k ks)
  have "snd k < snd k'" if "k' \<in> set ks" for k'
  proof -
    have "snd k \<le> snd k'" using Cons.prems(1) that by auto
    moreover have "snd k \<noteq> snd k'"
      using Cons.prems(2,3) that by (metis distinct.simps(2) list.set_intros prod_eq_iff)
    ultimately show ?thesis by simp
  qed
  with Cons show ?case by simp
qed simp

lemma mem_matching_pk:
  assumes "\<not> on_index kc" and "k \<in> set (mem_matching vl kc s)"
  shows "fst k = av_str (vl (hd (kcond_vals kc)))"
  using assms by (cases kc) (auto simp: mem_matching_def)

lemma mem_matching_ordered:
  assumes "\<not> on_index kc"
  shows "sorted_wrt (\<lambda>a b. snd a < snd b) (mem_matching vl kc s)"
proof -
  have "sorted (map snd (mem_matching vl kc s))" by (simp add: mem_matching_def)
  moreover have "distinct (mem_matching vl kc s)"
    using mem_matching_rows [of s vl kc] by (simp add: rows_def)
  moreover have "\<forall>k \<in> set (mem_matching vl kc s). fst k = av_str (vl (hd (kcond_vals kc)))"
    using mem_matching_pk [OF assms] by blast
  ultimately show ?thesis by (rule sorted_strict)
qed

lemma mem_query_all_law:
  assumes "mem_query_all q s = (y, s')" and "base_query tn kc q"
  shows "mem_tbl s' = mem_tbl s \<and> (case y of
      Inr its \<Rightarrow> (\<exists>ks. rows (mem_tbl s) (kcond_match (ExpressionValues q) kc) ks
        \<and> ordered (ScanIndexForward q) ks \<and> its = map (\<lambda>k. the (mem_tbl s k)) ks)
    | Inl e \<Rightarrow> transport e)"
proof -
  have kc: "parse_kcond (KeyConditionExpression q) = Some kc" "\<not> on_index kc"
    using assms(2) by (simp_all add: base_query_def parse_render_kcond)
  let ?m = "mem_matching (ExpressionValues q) kc s'"
  let ?ks = "if ScanIndexForward q = Some False then rev ?m else ?m"
  from mem_query_all_rows [OF assms(1) kc(1)] have t: "mem_tbl s' = mem_tbl s"
    and y: "case y of Inr its \<Rightarrow> its = map (\<lambda>k. the (mem_tbl s k)) ?ks | Inl e \<Rightarrow> transport e"
    by simp_all
  have "rows (mem_tbl s) (kcond_match (ExpressionValues q) kc) ?ks"
    using mem_matching_rows [of s' "ExpressionValues q" kc] t by (simp add: rows_def)
  moreover have "ordered (ScanIndexForward q) ?ks"
    using mem_matching_ordered [OF kc(2)] by (simp add: ordered_def sorted_wrt_rev)
  ultimately show ?thesis using t y by (auto split: sum.splits)
qed

lemma mem_query_law:
  assumes "mem_query q s = (y, s')" and "base_query tn kc q"
  shows "mem_tbl s' = mem_tbl s \<and> (case y of
      Inr its \<Rightarrow> (\<exists>ks n. rows (mem_tbl s) (kcond_match (ExpressionValues q) kc) ks
        \<and> ordered (ScanIndexForward q) ks
        \<and> page_len (\<lambda>_. True) q (map (\<lambda>k. the (mem_tbl s k)) ks) n
        \<and> its = take n (map (\<lambda>k. the (mem_tbl s k)) ks))
    | Inl e \<Rightarrow> transport e)"
proof -
  obtain y0 where q: "mem_query_all q s = (y0, s')"
    and y: "y = (case y0 of Inr its \<Rightarrow> Inr (case Limit q of None \<Rightarrow> its | Some l \<Rightarrow> take l its)
      | Inl e \<Rightarrow> Inl e)"
    using assms(1) by (auto simp: mem_query_def split: prod.splits sum.splits)
  note law = mem_query_all_law [OF q assms(2)]
  show ?thesis
  proof (cases y0)
    case (Inl e)
    with law y show ?thesis by simp
  next
    case (Inr its)
    with law obtain ks where ks: "rows (mem_tbl s) (kcond_match (ExpressionValues q) kc) ks"
      "ordered (ScanIndexForward q) ks" "its = map (\<lambda>k. the (mem_tbl s k)) ks" by auto
    define n where "n = (case Limit q of None \<Rightarrow> length ks | Some l \<Rightarrow> l)"
    have "y = Inr (take n its)"
      using y Inr ks(3) by (auto simp: n_def split: option.splits)
    moreover have "page_len (\<lambda>_. True) q (map (\<lambda>k. the (mem_tbl s k)) ks) n"
      by (auto simp: page_len_def n_def split: option.splits)
    ultimately show ?thesis using ks law by (auto simp del: take_map)
  qed
qed

lemma mem_query_index_law:
  assumes "mem_query_all q s = (y, s')" and "index_query tn kc q"
  shows "mem_tbl s' = mem_tbl s \<and> (case y of
      Inr its \<Rightarrow> (\<exists>ks. rows (mem_tbl s) (kcond_match (ExpressionValues q) kc) ks
        \<and> list_all2 (\<lambda>it k. it ''account_id'' = the (mem_tbl s k) ''account_id''
            \<and> it ''PK'' = the (mem_tbl s k) ''PK'') its ks)
    | Inl e \<Rightarrow> transport e)"
proof -
  have kc: "parse_kcond (KeyConditionExpression q) = Some kc"
    using assms(2) by (simp add: index_query_def parse_render_kcond)
  let ?m = "mem_matching (ExpressionValues q) kc s'"
  let ?ks = "if ScanIndexForward q = Some False then rev ?m else ?m"
  from mem_query_all_rows [OF assms(1) kc] have t: "mem_tbl s' = mem_tbl s"
    and y: "case y of Inr its \<Rightarrow> its = map (\<lambda>k. the (mem_tbl s k)) ?ks | Inl e \<Rightarrow> transport e"
    by simp_all
  have "rows (mem_tbl s) (kcond_match (ExpressionValues q) kc) ?ks"
    using mem_matching_rows [of s' "ExpressionValues q" kc] t by (simp add: rows_def)
  moreover have "list_all2 (\<lambda>it k. it ''account_id'' = the (mem_tbl s k) ''account_id''
            \<and> it ''PK'' = the (mem_tbl s k) ''PK'')
      (map (\<lambda>k. the (mem_tbl s k)) ?ks) ?ks"
    by (simp add: list_all2_map1 list.rel_refl)
  ultimately show ?thesis using t y by (auto split: sum.splits)
qed

lemma mem_transact_law:
  assumes "mem_transact (map (render_write tn) ws) s = (e, s')"
    and "ws \<noteq> []" "length ws \<le> 100" "distinct (map wr_key ws)" "list_all valid_write ws"
  shows "outcome mem_ssl (transact_failed ws (mem_tbl s)) ws (mem_tbl s) e (mem_tbl s')"
proof -
  obtain f s1 where p: "pop_fault s = (f, s1)" by (cases "pop_fault s")
  have t: "mem_tbl s1 = mem_tbl s" using pop_fault_tbl [OF p] .
  have pws: "map parse_write (map (render_write tn) ws) = map Some ws"
    using assms(5) by (auto simp: list_all_iff parse_render_write)
  have res: "(e, s') = (if f then (Some injected, s1)
      else case first_failing 0 ws (mem_tbl s) of
        Some i \<Rightarrow> (Some (TransactConditionFailed i), s1) | None \<Rightarrow> (None, fold mem_write ws s1))"
    using assms(1,3,4) valid_mem_valid_all [OF assms(5)] unfolding mem_transact_def p Let_def pws
    by (auto simp: map_idI t list_ex_iff split: option.splits)
  show ?thesis
  proof (cases "f \<or> first_failing 0 ws (mem_tbl s) \<noteq> None")
    case True
    with res t show ?thesis
      by (auto simp: outcome_def injected_def transact_failed_def dest: first_failing_0
          split: if_splits)
  next
    case False
    then have "\<forall>w \<in> set ws. wr_ok w (mem_tbl s)" by (simp add: first_failing_None)
    with False res t assms(5) show ?thesis
      by (auto simp: outcome_def commit_def fold_mem_write_tbl)
  qed
qed

lemma mem_update_law:
  assumes "mem_update tn (mk_key p k) (render_uexpr u) vl nm (map_option render_cond c) s = (x, s')"
    and "valid_upd u nm vl c"
  shows "outcome mem_ssl (single_failed (WUpd (p, k) u nm vl c) (mem_tbl s)) [WUpd (p, k) u nm vl c]
      (mem_tbl s) (case x of Inl e \<Rightarrow> Some e | Inr it \<Rightarrow> None) (mem_tbl s')
    \<and> (\<forall>it. x = Inr it \<longrightarrow> mem_tbl s' (p, k) = Some it)"
proof -
  let ?w = "WUpd (p, k) u nm vl c"
  note parts = valid_upd_parts [OF assms(2)]
  obtain e where e: "mem_single (Some ?w) s = (e, s')"
    and x: "x = (case e of Some e \<Rightarrow> Inl e | None \<Rightarrow> Inr (the (mem_tbl s' (p, k))))"
    using assms(1) unfolding mem_update_def
    by (auto simp: parse_render_uexpr parse_render_cond parts split: prod.splits option.splits)
  have v: "valid_write ?w" using assms(2) by simp
  note o = mem_single_outcome [OF e v]
  show ?thesis
  proof (cases e)
    case None
    with o have "mem_tbl s' (p, k) \<noteq> None"
      by (simp add: outcome_def commit_def wr_apply_def)
    with None x o show ?thesis by auto
  next
    case (Some e')
    with x o show ?thesis by simp
  qed
qed

lemma mem_update_overlap:
  assumes "mem_update tn (mk_key p k) (render_uexpr u) vl nm (map_option render_cond c) s = (x, s')"
    and "\<not> distinct (map (\<lambda>p. the (nm (fst p))) (u_pairs u))"
    and "tokens (u_pairs u)" and "c \<noteq> Some []" and "list_all catom_valid (cond_atoms c)"
  shows "mem_tbl s' = mem_tbl s \<and> (\<exists>m. x = Inl (Transport m))"
proof -
  have ne: "u_pairs u \<noteq> []" using assms(2) by auto
  have "\<not> mem_valid (WUpd (p, k) u nm vl c)" using assms(2) by simp
  with assms(1) show ?thesis
    unfolding mem_update_def mem_single_def
    by (auto simp: parse_render_uexpr parse_render_cond assms(3-5) ne injected_def invalid_def
        dest: pop_fault_tbl split: prod.splits if_splits)
qed

interpretation mem: dynamo mem_repo mem_tbl mem_ssl "\<lambda>_. True"
proof
  show "finite A \<Longrightarrow> set (mem_ssl A) = A \<and> distinct (mem_ssl A)" for A
    by (simp add: mem_ssl_def)
  show "mem_tbl s kk = Some it \<Longrightarrow>
      it ''PK'' = Some (AvS (fst kk)) \<and> it ''SK'' = Some (AvS (snd kk))" for s kk it
    by (auto dest: mem_tbl_keyed simp: keyed_def)
  show "BuildKey (client mem_repo) ''PK'' p ''SK'' k = Inr (mk_key p k)
      \<or> (\<exists>m. BuildKey (client mem_repo) ''PK'' p ''SK'' k = Inl (Transport m))" for p k
    by (simp add: mem_repo_def mem_api_def mk_key_def)
  show "GetItem (client mem_repo) (tab mem_repo) (mk_key p k) s = (x, s') \<Longrightarrow>
      mem_tbl s' = mem_tbl s \<and> (case x of Inr it \<Rightarrow> mem_tbl s (p, k) = Some it
        | Inl e \<Rightarrow> e = DbNotFound \<and> mem_tbl s (p, k) = None \<or> transport e)" for p k s x s'
    by (auto simp: mem_repo_def mem_api_def mem_get_def injected_def dest!: pop_fault_tbl
        split: prod.splits if_splits option.splits)
  show "BatchGetItem (client mem_repo) (tab mem_repo) (map (\<lambda>k. mk_key (fst k) (snd k)) ks) s = (y, s')
      \<Longrightarrow> distinct ks \<Longrightarrow> mem_tbl s' = mem_tbl s \<and> (case y of
          Inr its \<Rightarrow> set its = {it. \<exists>k \<in> set ks. mem_tbl s k = Some it}
        | Inl e \<Rightarrow> transport e)" for ks s y s'
    by (auto simp: mem_repo_def mem_api_def mem_batch_def injected_def map_filter_keys
        dest!: pop_fault_tbl split: prod.splits if_splits)
  show "Query (client mem_repo) q s = (y, s') \<Longrightarrow> base_query (tab mem_repo) kc q \<Longrightarrow>
      mem_tbl s' = mem_tbl s \<and> (case y of
          Inr its \<Rightarrow> (\<exists>ks n. rows (mem_tbl s) (kcond_match (ExpressionValues q) kc) ks
            \<and> ordered (ScanIndexForward q) ks
            \<and> page_len (\<lambda>_. True) q (map (\<lambda>k. the (mem_tbl s k)) ks) n
            \<and> its = take n (map (\<lambda>k. the (mem_tbl s k)) ks))
        | Inl e \<Rightarrow> transport e)" for q s y s' kc
    using mem_query_law by (simp add: mem_repo_def mem_api_def)
  show "QueryAll (client mem_repo) q s = (y, s') \<Longrightarrow> base_query (tab mem_repo) kc q \<Longrightarrow> Limit q = None \<Longrightarrow>
      mem_tbl s' = mem_tbl s \<and> (case y of
          Inr its \<Rightarrow> (\<exists>ks. rows (mem_tbl s) (kcond_match (ExpressionValues q) kc) ks
            \<and> ordered (ScanIndexForward q) ks \<and> its = map (\<lambda>k. the (mem_tbl s k)) ks)
        | Inl e \<Rightarrow> transport e)" for q s y s' kc
    using mem_query_all_law by (simp add: mem_repo_def mem_api_def)
  show "QueryAll (client mem_repo) q s = (y, s') \<Longrightarrow> index_query (tab mem_repo) kc q \<Longrightarrow>
      mem_tbl s' = mem_tbl s \<and> (case y of
          Inr its \<Rightarrow> (\<exists>ks. rows (mem_tbl s) (kcond_match (ExpressionValues q) kc) ks
            \<and> list_all2 (\<lambda>it k. it ''account_id'' = the (mem_tbl s k) ''account_id''
            \<and> it ''PK'' = the (mem_tbl s k) ''PK'') its ks)
        | Inl e \<Rightarrow> transport e)" for q s y s' kc
    using mem_query_index_law by (simp add: mem_repo_def mem_api_def)
  show "WriteItem (client mem_repo) (tab mem_repo) it (map_option render_cond c) s = (e, s') \<Longrightarrow>
      valid_write (WPut it c) \<Longrightarrow>
      outcome mem_ssl (single_failed (WPut it c) (mem_tbl s)) [WPut it c] (mem_tbl s) e (mem_tbl s')"
    for it c s e s'
    using parse_render_write [of "WPut it c" "[]"] mem_single_outcome [of "WPut it c" s e s']
    by (auto simp: mem_repo_def mem_api_def mem_put_def parse_write_def split: Option.bind_splits)
  show "UpdateItem (client mem_repo) (tab mem_repo) (mk_key p k) (render_uexpr u) vl nm
        (map_option render_cond c) s = (x, s') \<Longrightarrow> valid_upd u nm vl c \<Longrightarrow>
      outcome mem_ssl (single_failed (WUpd (p, k) u nm vl c) (mem_tbl s)) [WUpd (p, k) u nm vl c]
        (mem_tbl s) (case x of Inl e \<Rightarrow> Some e | Inr it \<Rightarrow> None) (mem_tbl s')
      \<and> (\<forall>it. x = Inr it \<longrightarrow> mem_tbl s' (p, k) = Some it)" for p k u vl nm c s x s'
    using mem_update_law by (simp add: mem_repo_def mem_api_def)
  show "UpdateItem (client mem_repo) (tab mem_repo) (mk_key p k) (render_uexpr u) vl nm
        (map_option render_cond c) s = (x, s') \<Longrightarrow>
      \<not> distinct (map (\<lambda>p. the (nm (fst p))) (u_pairs u)) \<Longrightarrow> well_formed_expr u c \<Longrightarrow>
      mem_tbl s' = mem_tbl s \<and> (\<exists>m. x = Inl (Transport m))" for p k u vl nm c s x s'
    using mem_update_overlap well_formed_parts by (simp add: mem_repo_def mem_api_def)
  show "DeleteItem (client mem_repo) (tab mem_repo) (mk_key p k) s = (e, s') \<Longrightarrow>
      outcome mem_ssl (\<lambda>_. False) [WDel (p, k)] (mem_tbl s) e (mem_tbl s')" for p k s e s'
    using mem_single_outcome [of "WDel (p, k)" s e s']
    by (auto simp: mem_repo_def mem_api_def mem_delete_def outcome_def single_failed_def wr_ok_def
        split: option.splits)
  show "TransactWrite (client mem_repo) (map (render_write (tab mem_repo)) ws) s = (e, s') \<Longrightarrow>
      ws \<noteq> [] \<Longrightarrow> length ws \<le> 100 \<Longrightarrow> distinct (map wr_key ws) \<Longrightarrow> list_all valid_write ws \<Longrightarrow>
      outcome mem_ssl (transact_failed ws (mem_tbl s)) ws (mem_tbl s) e (mem_tbl s')" for ws s e s'
    using mem_transact_law by (simp add: mem_repo_def mem_api_def)
  show "TransactWrite (client mem_repo) (map (render_write (tab mem_repo)) ws) s = (e, s') \<Longrightarrow>
      100 < length ws \<Longrightarrow> mem_tbl s' = mem_tbl s \<and> (\<exists>m. e = Some (Transport m))" for ws s e s'
    by (auto simp: mem_repo_def mem_api_def mem_transact_def Let_def injected_def invalid_def dest!: pop_fault_tbl
        split: prod.splits if_splits)
qed

end
