(* ===== verification/Registry.thy ===== *)
theory Registry
  imports Repo_Base Dynamo_Mem
begin

text \<open>
  What the table promises about email addresses, independently of the operations: the profiles and
  the email reservations are in one-to-one correspondence. The lemmas say which changes of the
  table keep the promise; every repository operation is then shown to make only such changes.
\<close>

section \<open>Ownership of an email address\<close>

definition profile_key :: "string \<Rightarrow> key" where
  "profile_key acc = (createPK acc, ''PROFILE'')"

definition settings_key :: "string \<Rightarrow> key" where
  "settings_key acc = (createPK acc, settingsSK)"

definition reservation_key :: "string \<Rightarrow> key" where
  "reservation_key em = (emailReservationPK em, emailReservationSK)"

definition owns :: "table \<Rightarrow> string \<Rightarrow> string \<Rightarrow> bool" where
  "owns tb acc em \<longleftrightarrow> (\<exists>it. tb (profile_key acc) = Some it \<and> it ''email'' = Some (AvS em))"

definition reserved :: "table \<Rightarrow> string \<Rightarrow> string \<Rightarrow> bool" where
  "reserved tb em acc \<longleftrightarrow> (\<exists>it. tb (reservation_key em) = Some it \<and> it ''account_id'' = Some (AvS acc))"

definition profile_item :: "string \<Rightarrow> string \<Rightarrow> item \<Rightarrow> bool" where
  "profile_item acc em it \<longleftrightarrow> it ''account_id'' = Some (AvS acc) \<and> it ''email'' = Some (AvS em)
     \<and> it ''GSI1PK'' = Some (AvS (''EMAIL#'' @ em)) \<and> it ''GSI1SK'' = Some (AvS ''PROFILE'')"

text \<open>A profile is indexed under its lower-case email and holds the reservation of it; nothing
  else is indexed as a profile; a reservation belongs to the profile it names.\<close>

definition registry_ok :: "table \<Rightarrow> bool" where
  "registry_ok tb \<longleftrightarrow>
     (\<forall>k it. tb k = Some it \<longrightarrow> snd k = ''PROFILE'' \<or> it ''GSI1SK'' = Some (AvS ''PROFILE'') \<longrightarrow>
        (\<exists>acc em. k = profile_key acc \<and> profile_item acc em it \<and> to_lower em = em \<and> reserved tb em acc))
   \<and> (\<forall>em it. tb (reservation_key em) = Some it \<longrightarrow>
        (\<exists>acc. it ''account_id'' = Some (AvS acc) \<and> owns tb acc (to_lower em)))"

lemma key_inject [simp]:
  "profile_key a = profile_key b \<longleftrightarrow> a = b" "settings_key a = settings_key b \<longleftrightarrow> a = b"
  "reservation_key a = reservation_key b \<longleftrightarrow> to_lower a = to_lower b"
  by (simp_all add: profile_key_def settings_key_def reservation_key_def key_simps)

lemma sk_distinct [simp]: "''PROFILE'' \<noteq> settingsSK" "settingsSK \<noteq> ''PROFILE''"
  by (simp_all add: settingsSK_def)

lemma key_distinct [simp]:
  "profile_key a \<noteq> settings_key b" "settings_key b \<noteq> profile_key a"
  "profile_key a \<noteq> reservation_key e" "reservation_key e \<noteq> profile_key a"
  "settings_key a \<noteq> reservation_key e" "reservation_key e \<noteq> settings_key a"
  by (simp_all add: profile_key_def settings_key_def reservation_key_def key_simps)

lemma snd_key [simp]:
  "snd (profile_key a) = ''PROFILE''" "snd (settings_key a) = settingsSK"
  "snd (reservation_key e) = emailReservationSK" "fst (profile_key a) = createPK a"
  "fst (settings_key a) = createPK a"
  by (simp_all add: profile_key_def settings_key_def reservation_key_def)

lemma emailReservationSK_not_profile [simp]: "emailReservationSK \<noteq> ''PROFILE''"
  by (simp add: emailReservationSK_def)

lemma reservation_key_lower [simp]: "reservation_key (to_lower e) = reservation_key e"
  by simp

lemma profileE:
  assumes "registry_ok tb" and "tb k = Some it"
    and "snd k = ''PROFILE'' \<or> it ''GSI1SK'' = Some (AvS ''PROFILE'')"
  obtains acc em where "k = profile_key acc" "profile_item acc em it" "to_lower em = em"
    "reserved tb em acc"
  using assms unfolding registry_ok_def by blast

lemma reservationE:
  assumes "registry_ok tb" and "tb (reservation_key em) = Some it"
  obtains acc where "it ''account_id'' = Some (AvS acc)" "owns tb acc (to_lower em)"
  using assms unfolding registry_ok_def by blast

lemma registry_empty: "registry_ok Map.empty"
  by (simp add: registry_ok_def)

lemma owns_reserved: "registry_ok tb \<Longrightarrow> owns tb acc em \<Longrightarrow> reserved tb em acc \<and> to_lower em = em"
  unfolding owns_def by (elim exE conjE, erule (1) profileE) (auto simp: profile_item_def)

text \<open>Two accounts never own the same address, whatever its spelling.\<close>

lemma owns_unique:
  assumes "registry_ok tb" "owns tb a em" "owns tb b em'" "to_lower em = to_lower em'"
  shows "a = b"
proof -
  have "reserved tb em a" "reserved tb em' b"
    using assms(1-3) owns_reserved by blast+
  moreover have "reservation_key em = reservation_key em'" using assms(4) by simp
  ultimately show ?thesis by (auto simp: reserved_def)
qed

section \<open>Changes that keep the promise\<close>

definition neutral_key :: "key \<Rightarrow> bool" where
  "neutral_key k \<longleftrightarrow> snd k \<noteq> ''PROFILE'' \<and> (\<exists>acc. fst k = createPK acc)"

lemma neutral_not_reservation: "neutral_key k \<Longrightarrow> k \<noteq> reservation_key em"
  by (auto simp: neutral_key_def reservation_key_def key_simps)

lemma neutral_not_profile: "neutral_key k \<Longrightarrow> k \<noteq> profile_key acc"
  by (auto simp: neutral_key_def)

lemma neutral_keys [simp]: "neutral_key (settings_key acc)"
  "snd k \<noteq> ''PROFILE'' \<Longrightarrow> fst k = createPK acc \<Longrightarrow> neutral_key k"
  by (auto simp: neutral_key_def key_simps)

lemma owns_upd: "k \<noteq> profile_key acc \<Longrightarrow> owns (tb(k := x)) acc em \<longleftrightarrow> owns tb acc em"
  by (simp add: owns_def)

lemma reserved_upd: "k \<noteq> reservation_key em \<Longrightarrow> reserved (tb(k := x)) em acc \<longleftrightarrow> reserved tb em acc"
  by (simp add: reserved_def)

text \<open>Writing or deleting any item of an account other than its profile.\<close>

lemma registry_neutral:
  assumes ok: "registry_ok tb" and k: "neutral_key k"
    and new: "\<forall>it. new = Some it \<longrightarrow> it ''GSI1SK'' \<noteq> Some (AvS ''PROFILE'')"
  shows "registry_ok (tb(k := new))"
  unfolding registry_ok_def
proof (intro conjI allI impI)
  fix k' it assume "(tb(k := new)) k' = Some it"
    and "snd k' = ''PROFILE'' \<or> it ''GSI1SK'' = Some (AvS ''PROFILE'')"
  moreover from this k new have "k' \<noteq> k" by (auto simp: neutral_key_def)
  ultimately show "\<exists>acc em. k' = profile_key acc \<and> profile_item acc em it \<and> to_lower em = em
      \<and> reserved (tb(k := new)) em acc"
    using profileE [OF ok] neutral_not_reservation [OF k] by (simp add: reserved_upd) metis
next
  fix em it assume "(tb(k := new)) (reservation_key em) = Some it"
  then have "tb (reservation_key em) = Some it"
    using neutral_not_reservation [OF k, of em] by (auto split: if_splits)
  then obtain acc where "it ''account_id'' = Some (AvS acc)" "owns tb acc (to_lower em)"
    using reservationE [OF ok] by blast
  then show "\<exists>acc. it ''account_id'' = Some (AvS acc) \<and> owns (tb(k := new)) acc (to_lower em)"
    using neutral_not_profile [OF k] by (auto simp: owns_upd)
qed

text \<open>Updating such an item without giving it an index key.\<close>

lemma registry_neutral_upd:
  assumes ok: "registry_ok tb" and k: "neutral_key k" and old: "tb k = Some it"
    and same: "new ''GSI1SK'' = it ''GSI1SK''"
  shows "registry_ok (tb(k \<mapsto> new))"
proof (rule registry_neutral [OF ok k], intro allI impI)
  fix x assume "Some new = Some x"
  moreover have "it ''GSI1SK'' \<noteq> Some (AvS ''PROFILE'')"
  proof
    assume "it ''GSI1SK'' = Some (AvS ''PROFILE'')"
    then obtain acc where "k = profile_key acc" using profileE [OF ok old] by blast
    with k show False using neutral_not_profile by blast
  qed
  ultimately show "x ''GSI1SK'' \<noteq> Some (AvS ''PROFILE'')" using same by simp
qed

text \<open>Any change that leaves the identity attributes of every item alone.\<close>

definition same_identity :: "table \<Rightarrow> table \<Rightarrow> bool" where
  "same_identity tb tb' \<longleftrightarrow> (\<forall>k. (tb k = None \<longleftrightarrow> tb' k = None)
     \<and> (\<forall>it it'. tb k = Some it \<and> tb' k = Some it' \<longrightarrow>
          (\<forall>a \<in> {''account_id'', ''email'', ''GSI1PK'', ''GSI1SK''}. it' a = it a)))"

lemma registry_same_identity:
  assumes ok: "registry_ok tb" and same: "same_identity tb tb'"
  shows "registry_ok tb'"
proof -
  have bwd: "\<exists>it. tb k = Some it \<and> (\<forall>a \<in> {''account_id'', ''email'', ''GSI1PK'', ''GSI1SK''}. it' a = it a)"
    if "tb' k = Some it'" for k it'
  proof -
    have "tb k = None \<longleftrightarrow> tb' k = None" using same unfolding same_identity_def by blast
    with that obtain it where "tb k = Some it" by auto
    with same that show ?thesis unfolding same_identity_def by blast
  qed
  have fwd: "\<exists>it'. tb' k = Some it' \<and> (\<forall>a \<in> {''account_id'', ''email'', ''GSI1PK'', ''GSI1SK''}. it' a = it a)"
    if "tb k = Some it" for k it
  proof -
    have "tb k = None \<longleftrightarrow> tb' k = None" using same unfolding same_identity_def by blast
    with that obtain it' where "tb' k = Some it'" by auto
    with same that show ?thesis unfolding same_identity_def by blast
  qed
  have owns: "owns tb' acc em" if "owns tb acc em" for acc em
    using that fwd unfolding owns_def by fastforce
  have res: "reserved tb' em acc" if "reserved tb em acc" for acc em
    using that fwd unfolding reserved_def by fastforce
  show ?thesis
    unfolding registry_ok_def
  proof (intro conjI allI impI)
    fix k it' assume t: "tb' k = Some it'" and pr: "snd k = ''PROFILE'' \<or> it' ''GSI1SK'' = Some (AvS ''PROFILE'')"
    from bwd [OF t] obtain it where it: "tb k = Some it"
      "\<forall>a \<in> {''account_id'', ''email'', ''GSI1PK'', ''GSI1SK''}. it' a = it a" by blast
    with pr have "snd k = ''PROFILE'' \<or> it ''GSI1SK'' = Some (AvS ''PROFILE'')" by simp
    from profileE [OF ok it(1) this] obtain acc em where
      "k = profile_key acc" "profile_item acc em it" "to_lower em = em" "reserved tb em acc" .
    with it(2) res show "\<exists>acc em. k = profile_key acc \<and> profile_item acc em it' \<and> to_lower em = em
        \<and> reserved tb' em acc"
      unfolding profile_item_def by (intro exI [of _ acc] exI [of _ em]) simp
  next
    fix em it' assume "tb' (reservation_key em) = Some it'"
    from bwd [OF this] obtain it where it: "tb (reservation_key em) = Some it"
      "it' ''account_id'' = it ''account_id''" by auto
    from reservationE [OF ok it(1)] obtain acc where
      "it ''account_id'' = Some (AvS acc)" "owns tb acc (to_lower em)" .
    with it(2) owns show "\<exists>acc. it' ''account_id'' = Some (AvS acc) \<and> owns tb' acc (to_lower em)" by auto
  qed
qed

text \<open>Updating a profile without touching its identity.\<close>

lemma registry_profile:
  assumes ok: "registry_ok tb" and old: "tb (profile_key acc) = Some it"
    and same: "\<forall>a \<in> {''account_id'', ''email'', ''GSI1PK'', ''GSI1SK''}. new a = it a"
  shows "registry_ok (tb(profile_key acc \<mapsto> new))"
proof -
  have owns: "owns (tb(profile_key acc \<mapsto> new)) acc' em \<longleftrightarrow> owns tb acc' em" for acc' em
    using old same by (simp add: owns_def)
  have res: "reserved (tb(profile_key acc \<mapsto> new)) em acc' \<longleftrightarrow> reserved tb em acc'" for acc' em
    by (simp add: reserved_def)
  have item: "profile_item acc' em new \<longleftrightarrow> profile_item acc' em it" for acc' em
    using same by (simp add: profile_item_def)
  from profileE [OF ok old] obtain em where
    "profile_item acc em it" "to_lower em = em" "reserved tb em acc" by auto
  then show ?thesis
    using ok unfolding registry_ok_def owns res by (auto simp: item)
qed

text \<open>Registering a new account: profile and reservation appear together.\<close>

lemma registry_create:
  assumes ok: "registry_ok tb" and free: "tb (reservation_key em) = None"
    and p: "profile_item acc em p" "to_lower em = em"
    and res: "rv ''account_id'' = Some (AvS acc)" "rv ''GSI1SK'' = None"
    and new: "tb (profile_key acc) = None"
  shows "registry_ok (tb(profile_key acc \<mapsto> p, reservation_key em \<mapsto> rv))" (is "registry_ok ?tb")
proof -
  have owns: "owns ?tb acc' e" if "owns tb acc' e" for acc' e
    using that new by (auto simp: owns_def)
  have new_owns: "owns ?tb acc em" using p by (simp add: owns_def profile_item_def)
  have reserved: "reserved ?tb e acc'" if "reserved tb e acc'" for e acc'
  proof -
    have "reservation_key e \<noteq> reservation_key em" using that free by (metis reserved_def option.discI)
    then show ?thesis using that by (simp add: reserved_def)
  qed
  have new_reserved: "reserved ?tb em acc" using res by (simp add: reserved_def)
  show ?thesis
    unfolding registry_ok_def
  proof (intro conjI allI impI)
    fix k it assume it: "?tb k = Some it"
      and pr: "snd k = ''PROFILE'' \<or> it ''GSI1SK'' = Some (AvS ''PROFILE'')"
    have "k \<noteq> reservation_key em"
    proof
      assume "k = reservation_key em"
      with it have "it = rv" by simp
      with pr res(2) \<open>k = reservation_key em\<close> show False by simp
    qed
    with it consider "k = profile_key acc" "it = p" | "tb k = Some it"
      by (cases "k = profile_key acc") simp_all
    then show "\<exists>acc' e. k = profile_key acc' \<and> profile_item acc' e it \<and> to_lower e = e \<and> reserved ?tb e acc'"
    proof cases
      case 1
      with p new_reserved show ?thesis by blast
    next
      case 2
      from profileE [OF ok this pr] obtain acc' e where
        "k = profile_key acc'" "profile_item acc' e it" "to_lower e = e" "reserved tb e acc'" .
      with reserved [of e acc'] show ?thesis by blast
    qed
  next
    fix e it assume it: "?tb (reservation_key e) = Some it"
    show "\<exists>acc'. it ''account_id'' = Some (AvS acc') \<and> owns ?tb acc' (to_lower e)"
    proof (cases "to_lower e = to_lower em")
      case True
      with it have "it = rv" by auto
      then show ?thesis using res new_owns True p(2) by metis
    next
      case False
      with it have "tb (reservation_key e) = Some it" by simp
      from reservationE [OF ok this] show ?thesis using owns by metis
    qed
  qed
qed

text \<open>Erasing an account: profile and reservation disappear together.\<close>

lemma registry_erase:
  assumes ok: "registry_ok tb" and own: "owns tb acc em"
  shows "registry_ok (tb(profile_key acc := None, reservation_key em := None))"
    (is "registry_ok ?tb")
proof -
  have low: "to_lower em = em" and res: "reserved tb em acc"
    using owns_reserved [OF ok own] by auto
  have keep: "owns ?tb acc' e" if "owns tb acc' e" "acc' \<noteq> acc" for acc' e
    using that by (auto simp: owns_def)
  show ?thesis
    unfolding registry_ok_def
  proof (intro conjI allI impI)
    fix k it assume it: "?tb k = Some it"
      and pr: "snd k = ''PROFILE'' \<or> it ''GSI1SK'' = Some (AvS ''PROFILE'')"
    then have "tb k = Some it" by (auto split: if_splits)
    from profileE [OF ok this pr] obtain acc' e where
      e: "k = profile_key acc'" "profile_item acc' e it" "to_lower e = e" "reserved tb e acc'" .
    have "acc' \<noteq> acc" using it e(1) by (auto split: if_splits)
    moreover have "owns tb acc' e"
      using e(2) \<open>tb k = Some it\<close> e(1) by (simp add: owns_def profile_item_def)
    ultimately have "to_lower e \<noteq> to_lower em"
      using owns_unique [OF ok _ own] by blast
    then have "reserved ?tb e acc'" using e(4) by (auto simp: reserved_def)
    with e show "\<exists>acc' e. k = profile_key acc' \<and> profile_item acc' e it \<and> to_lower e = e \<and> reserved ?tb e acc'"
      by blast
  next
    fix e it assume it: "?tb (reservation_key e) = Some it"
    then have ne: "to_lower e \<noteq> to_lower em" and t: "tb (reservation_key e) = Some it"
      by (auto split: if_splits)
    from reservationE [OF ok t] obtain acc' where
      acc': "it ''account_id'' = Some (AvS acc')" "owns tb acc' (to_lower e)" .
    have "acc' \<noteq> acc"
    proof
      assume "acc' = acc"
      with acc'(2) own have "to_lower e = em" by (auto simp: owns_def)
      with ne low show False by simp
    qed
    with acc' keep show "\<exists>acc'. it ''account_id'' = Some (AvS acc') \<and> owns ?tb acc' (to_lower e)"
      by blast
  qed
qed

section \<open>Erasing a set of keys\<close>

definition erase :: "key set \<Rightarrow> table \<Rightarrow> table" where
  "erase D tb = (\<lambda>k. if k \<in> D then None else tb k)"

lemma erase_simps [simp]: "erase {} tb = tb" "erase A (erase B tb) = erase (A \<union> B) tb"
  "erase (insert k D) tb = (erase D tb)(k := None)"
  by (auto simp: erase_def)

lemma fold_wr_del: "fold (wr_apply ssl) (map WDel ks) tb = erase (set ks) tb"
  by (induction ks arbitrary: tb) (auto simp: wr_apply_def erase_def)

lemma registry_erase_neutral:
  assumes ok: "registry_ok tb" and neutral: "\<forall>k \<in> D. neutral_key k"
  shows "registry_ok (erase D tb)"
proof -
  have prof: "erase D tb (profile_key a) = tb (profile_key a)" for a
  proof -
    have "profile_key a \<notin> D" using neutral neutral_not_profile by blast
    then show ?thesis by (simp add: erase_def)
  qed
  have res: "erase D tb (reservation_key e) = tb (reservation_key e)" for e
  proof -
    have "reservation_key e \<notin> D" using neutral neutral_not_reservation by blast
    then show ?thesis by (simp add: erase_def)
  qed
  have sub: "erase D tb k = Some it \<Longrightarrow> tb k = Some it" for k it
    by (simp add: erase_def split: if_splits)
  have owns: "owns (erase D tb) a e \<longleftrightarrow> owns tb a e" for a e
    by (simp add: owns_def prof)
  have reserved: "reserved (erase D tb) e a \<longleftrightarrow> reserved tb e a" for a e
    by (simp add: reserved_def res)
  show ?thesis
    unfolding registry_ok_def owns reserved
  proof (intro conjI allI impI)
    fix k it assume "erase D tb k = Some it" "snd k = ''PROFILE'' \<or> it ''GSI1SK'' = Some (AvS ''PROFILE'')"
    then show "\<exists>acc em. k = profile_key acc \<and> profile_item acc em it \<and> to_lower em = em \<and> reserved tb em acc"
      by (rule profileE [OF ok sub]) blast
  next
    fix em it assume "erase D tb (reservation_key em) = Some it"
    then show "\<exists>acc. it ''account_id'' = Some (AvS acc) \<and> owns tb acc (to_lower em)"
      by (rule reservationE [OF ok sub]) blast
  qed
qed

end
