(* ===== verification/Account_Db.thy ===== *)
theory Account_Db
  imports Registry
begin

text \<open>
  \<open>internal/db/account.go\<close>: the records of an account (profile, default settings, email
  reservation) with their attribute encoding, and every operation of the repository on accounts.
\<close>

section \<open>Records\<close>

record account_record =
  ar_PK :: string
  ar_SK :: string
  ar_AccountID :: string
  ar_Username :: string
  ar_Email :: string
  ar_Phone :: string
  ar_FirstName :: string
  ar_LastName :: string
  ar_AvatarURL :: string
  ar_PasswordHash :: string
  ar_AuthMethods :: "string list"
  ar_GSI1PK :: string
  ar_GSI1SK :: string
  ar_CreatedAt :: gtime
  ar_UpdatedAt :: gtime

record credentials_batch_item =
  ci_SK :: string
  ci_AccountID :: string
  ci_PasswordHash :: string
  ci_AuthMethods :: "string list"
  ci_EmailVerified :: bool
  ci_Status :: string

record settings_default_record =
  sd_PK :: string
  sd_SK :: string
  sd_Status :: string
  sd_EmailVerified :: bool
  sd_PhoneVerified :: bool
  sd_Version :: go_int
  sd_CreatedAt :: gtime
  sd_UpdatedAt :: gtime

record email_reservation_record =
  er_PK :: string
  er_SK :: string
  er_AccountID :: string
  er_Email :: string

record gsi_email_result =
  ge_AccountID :: string
  ge_PK :: string

definition marshal_account :: "account_record \<Rightarrow> item" where
  "marshal_account a = [''PK'' \<mapsto> AvS (ar_PK a), ''SK'' \<mapsto> AvS (ar_SK a),
     ''account_id'' \<mapsto> AvS (ar_AccountID a), ''username'' \<mapsto> AvS (ar_Username a),
     ''email'' \<mapsto> AvS (ar_Email a), ''phone'' \<mapsto> AvS (ar_Phone a),
     ''first_name'' \<mapsto> AvS (ar_FirstName a), ''last_name'' \<mapsto> AvS (ar_LastName a),
     ''avatar_url'' \<mapsto> AvS (ar_AvatarURL a), ''password_hash'' \<mapsto> AvS (ar_PasswordHash a),
     ''auth_methods'' \<mapsto> av_strs (ar_AuthMethods a), ''GSI1PK'' \<mapsto> AvS (ar_GSI1PK a),
     ''GSI1SK'' \<mapsto> AvS (ar_GSI1SK a), ''created_at'' \<mapsto> av_time (ar_CreatedAt a),
     ''updated_at'' \<mapsto> av_time (ar_UpdatedAt a)]"

definition unmarshal_account :: "item \<Rightarrow> account_record option" where
  "unmarshal_account it = do {
     pk \<leftarrow> field av_to_str [] ''PK'' it;
     sk \<leftarrow> field av_to_str [] ''SK'' it;
     account_id \<leftarrow> field av_to_str [] ''account_id'' it;
     username \<leftarrow> field av_to_str [] ''username'' it;
     email \<leftarrow> field av_to_str [] ''email'' it;
     phone \<leftarrow> field av_to_str [] ''phone'' it;
     first_name \<leftarrow> field av_to_str [] ''first_name'' it;
     last_name \<leftarrow> field av_to_str [] ''last_name'' it;
     avatar_url \<leftarrow> field av_to_str [] ''avatar_url'' it;
     password_hash \<leftarrow> field av_to_str [] ''password_hash'' it;
     auth_methods \<leftarrow> field av_to_strs [] ''auth_methods'' it;
     gsi1pk \<leftarrow> field av_to_str [] ''GSI1PK'' it;
     gsi1sk \<leftarrow> field av_to_str [] ''GSI1SK'' it;
     created_at \<leftarrow> field av_to_time zero_time ''created_at'' it;
     updated_at \<leftarrow> field av_to_time zero_time ''updated_at'' it;
     Some \<lparr>ar_PK = pk, ar_SK = sk, ar_AccountID = account_id, ar_Username = username,
       ar_Email = email, ar_Phone = phone, ar_FirstName = first_name, ar_LastName = last_name,
       ar_AvatarURL = avatar_url, ar_PasswordHash = password_hash,
       ar_AuthMethods = auth_methods, ar_GSI1PK = gsi1pk, ar_GSI1SK = gsi1sk,
       ar_CreatedAt = created_at, ar_UpdatedAt = updated_at\<rparr> }"

definition unmarshal_credentials :: "item \<Rightarrow> credentials_batch_item option" where
  "unmarshal_credentials it = do {
     sk \<leftarrow> field av_to_str [] ''SK'' it;
     account_id \<leftarrow> field av_to_str [] ''account_id'' it;
     password_hash \<leftarrow> field av_to_str [] ''password_hash'' it;
     auth_methods \<leftarrow> field av_to_strs [] ''auth_methods'' it;
     email_verified \<leftarrow> field av_to_bool False ''email_verified'' it;
     status \<leftarrow> field av_to_str [] ''status'' it;
     Some \<lparr>ci_SK = sk, ci_AccountID = account_id, ci_PasswordHash = password_hash,
       ci_AuthMethods = auth_methods, ci_EmailVerified = email_verified, ci_Status = status\<rparr> }"

definition marshal_settings_default :: "settings_default_record \<Rightarrow> item" where
  "marshal_settings_default d = [''PK'' \<mapsto> AvS (sd_PK d), ''SK'' \<mapsto> AvS (sd_SK d),
     ''status'' \<mapsto> AvS (sd_Status d), ''email_verified'' \<mapsto> AvBOOL (sd_EmailVerified d),
     ''phone_verified'' \<mapsto> AvBOOL (sd_PhoneVerified d), ''version'' \<mapsto> av_int (sd_Version d),
     ''created_at'' \<mapsto> av_time (sd_CreatedAt d), ''updated_at'' \<mapsto> av_time (sd_UpdatedAt d)]"

definition marshal_reservation :: "email_reservation_record \<Rightarrow> item" where
  "marshal_reservation e = [''PK'' \<mapsto> AvS (er_PK e), ''SK'' \<mapsto> AvS (er_SK e),
     ''account_id'' \<mapsto> AvS (er_AccountID e), ''email'' \<mapsto> AvS (er_Email e)]"

definition unmarshal_gsi :: "item \<Rightarrow> gsi_email_result option" where
  "unmarshal_gsi it = do {
     account_id \<leftarrow> field av_to_str [] ''account_id'' it;
     pk \<leftarrow> field av_to_str [] ''PK'' it;
     Some \<lparr>ge_AccountID = account_id, ge_PK = pk\<rparr> }"

text \<open>\<open>func (r *accountRecord) toModel()\<close>\<close>

definition account_toModel :: "account_record \<Rightarrow> account" where
  "account_toModel a = \<lparr>a_AccountId = ar_AccountID a, a_AvatarUrl = optStr (ar_AvatarURL a),
     a_Email = ar_Email a, a_FirstName = ar_FirstName a, a_LastName = ar_LastName a,
     a_Phone = optStr (ar_Phone a), a_Username = ar_Username a\<rparr>"

section \<open>Operations\<close>

definition GetAccount :: "'s repo \<Rightarrow> string \<Rightarrow> 's \<Rightarrow> (error + account) \<times> 's" where
  "GetAccount r accountID s = (case BuildKey (client r) ''PK'' (''ACCOUNT#'' @ accountID) ''SK'' ''PROFILE'' of
     Inl e \<Rightarrow> (Inl e, s)
   | Inr key \<Rightarrow> (case GetItemAs r unmarshal_account key s of
       (Inl e, s') \<Rightarrow> (Inl e, s')
     | (Inr a, s') \<Rightarrow> (Inr (account_toModel a), s')))"

definition email_query :: "'s repo \<Rightarrow> string \<Rightarrow> query_input" where
  "email_query r email = \<lparr>TableName = tab r, IndexName = Some ''GSI1'',
     KeyConditionExpression = ''GSI1PK = :pk AND GSI1SK = :sk'',
     ExpressionValues = ['':pk'' \<mapsto> AvS (''EMAIL#'' @ to_lower email), '':sk'' \<mapsto> AvS ''PROFILE''],
     ScanIndexForward = None, Limit = None\<rparr>"

definition resolveAccountIDByEmail :: "'s repo \<Rightarrow> string \<Rightarrow> 's \<Rightarrow> (error + string) \<times> 's" where
  "resolveAccountIDByEmail r email s =
     (case unmarshal_list unmarshal_gsi (QueryAll (client r) (email_query r email) s) of
        (Inl e, s') \<Rightarrow> (Inl e, s')
      | (Inr results, s') \<Rightarrow>
          if length results = 0 then (Inl DbNotFound, s')
          else if length results > 1 then (Inl DbEmailAlreadyExists, s')
          else (Inr (ge_AccountID (results ! 0)), s'))"

text \<open>The loop over the items of the batch; the accumulator is \<open>(profile, settings)\<close>, each absent
  until found.\<close>

fun pick_items :: "credentials_batch_item list
    \<Rightarrow> credentials_batch_item option \<times> credentials_batch_item option
    \<Rightarrow> credentials_batch_item option \<times> credentials_batch_item option" where
  "pick_items [] acc = acc"
| "pick_items (i # items) (profile, settings) =
     (if ci_SK i = ''PROFILE'' then pick_items items (Some i, settings)
      else if ci_SK i = ''SETTINGS'' then pick_items items (profile, Some i)
      else pick_items items (profile, settings))"

definition GetAccountCredentialsByEmail ::
  "'s repo \<Rightarrow> string \<Rightarrow> 's \<Rightarrow> (error + credentials_response) \<times> 's" where
  "GetAccountCredentialsByEmail r email s = (case resolveAccountIDByEmail r email s of
     (Inl e, s1) \<Rightarrow> (Inl e, s1)
   | (Inr accountID, s1) \<Rightarrow>
       (case unmarshal_list unmarshal_credentials
          (BatchGetItem (client r) (tab r)
            [[''PK'' \<mapsto> AvS (createPK accountID), ''SK'' \<mapsto> AvS ''PROFILE''],
             [''PK'' \<mapsto> AvS (createPK accountID), ''SK'' \<mapsto> AvS ''SETTINGS'']] s1) of
        (Inl e, s2) \<Rightarrow> (Inl e, s2)
      | (Inr items, s2) \<Rightarrow>
          (case pick_items items (None, None) of
             (None, settings) \<Rightarrow> (Inl DbNotFound, s2)
           | (Some profile, settings) \<Rightarrow>
               (let status = (case settings of None \<Rightarrow> [] | Some i \<Rightarrow> ci_Status i);
                    verified = (case settings of None \<Rightarrow> False | Some i \<Rightarrow> ci_EmailVerified i)
                in (Inr \<lparr>cr_AccountId = ci_AccountID profile,
                     cr_AuthMethods = toAuthMethods (ci_AuthMethods profile),
                     cr_EmailVerified = verified,
                     cr_PasswordHash = optStr (ci_PasswordHash profile),
                     cr_Status = (if status = [] then ''active'' else status)\<rparr>, s2)))))"

definition GetAccountExistsByEmail ::
  "'s repo \<Rightarrow> string \<Rightarrow> 's \<Rightarrow> (error + account_exists_response) \<times> 's" where
  "GetAccountExistsByEmail r email s = (case resolveAccountIDByEmail r email s of
     (Inl e, s') \<Rightarrow> if e = DbNotFound then (Inr \<lparr>Exists = False\<rparr>, s') else (Inl e, s')
   | (Inr _, s') \<Rightarrow> (Inr \<lparr>Exists = True\<rparr>, s'))"

definition credentials_exprs :: "gtime \<Rightarrow> update_credentials_request \<Rightarrow> expr_build" where
  "credentials_exprs now req =
     add_set ''#ua'' '':ua'' ''updated_at'' (AvS (fmt_nano now))
    (set_field ''#am'' '':am'' ''auth_methods'' (\<lambda>am. AvL (map AvS am))
       (map_option (\<lambda>x. derefSlice (Some x)) (uc_AuthMethods req))
    (set_field ''#ph'' '':ph'' ''password_hash'' AvS (uc_PasswordHash req) no_exprs))"

definition UpdateAccountCredentials ::
  "'s repo \<Rightarrow> gtime \<Rightarrow> string \<Rightarrow> update_credentials_request \<Rightarrow> 's \<Rightarrow> error option \<times> 's" where
  "UpdateAccountCredentials r now accountID req s =
     (case BuildKey (client r) ''PK'' (createPK accountID) ''SK'' ''PROFILE'' of
        Inl e \<Rightarrow> (Some e, s)
      | Inr key \<Rightarrow>
          (let b = credentials_exprs now req
           in case UpdateItem (client r) (tab r) key (set_expr b) (exprValues b) (exprNames b)
                (Some ''attribute_exists(SK)'') s of
                (Inr _, s') \<Rightarrow> (None, s')
              | (Inl e, s') \<Rightarrow>
                  if e = ConditionalCheckFailed then (Some DbNotFound, s') else (Some e, s')))"

definition profile_record :: "gtime \<Rightarrow> string \<Rightarrow> create_account_request \<Rightarrow> account_record" where
  "profile_record now accountID req =
     (let email = to_lower (ca_Email req) in
      \<lparr>ar_PK = createPK accountID, ar_SK = ''PROFILE'', ar_AccountID = accountID,
       ar_Username = ca_Username req, ar_Email = email, ar_Phone = deref [] (ca_Phone req),
       ar_FirstName = ca_FirstName req, ar_LastName = ca_LastName req,
       ar_AvatarURL = deref [] (ca_AvatarUrl req), ar_PasswordHash = [], ar_AuthMethods = [],
       ar_GSI1PK = ''EMAIL#'' @ email, ar_GSI1SK = ''PROFILE'', ar_CreatedAt = now,
       ar_UpdatedAt = now\<rparr>)"

definition settings_default :: "gtime \<Rightarrow> string \<Rightarrow> settings_default_record" where
  "settings_default now accountID =
     \<lparr>sd_PK = createPK accountID, sd_SK = ''SETTINGS'', sd_Status = ''active'',
      sd_EmailVerified = False, sd_PhoneVerified = False, sd_Version = 0, sd_CreatedAt = now,
      sd_UpdatedAt = now\<rparr>"

definition reservation_record :: "string \<Rightarrow> create_account_request \<Rightarrow> email_reservation_record" where
  "reservation_record accountID req =
     (let email = to_lower (ca_Email req) in
      \<lparr>er_PK = emailReservationPK email, er_SK = emailReservationSK, er_AccountID = accountID,
       er_Email = email\<rparr>)"

definition transact_put :: "'s repo \<Rightarrow> item \<Rightarrow> string \<Rightarrow> transact_item" where
  "transact_put r it condition = \<lparr>ti_Table = tab r, ti_Op = TransactPut, ti_Item = it,
     ti_Key = Map.empty, ti_UpdateExpr = [], ti_ExprNames = Map.empty, ti_ExprValues = Map.empty,
     ti_Condition = Some condition\<rparr>"

definition emailReservationTransactIndex :: nat where
  "emailReservationTransactIndex = 2"

definition CreateAccount ::
  "'s repo \<Rightarrow> gtime \<Rightarrow> string \<Rightarrow> create_account_request \<Rightarrow> 's \<Rightarrow> (error + account) \<times> 's" where
  "CreateAccount r now accountID req s =
     (case TransactWrite (client r)
        [transact_put r (marshal_account (profile_record now accountID req)) ''attribute_not_exists(SK)'',
         transact_put r (marshal_settings_default (settings_default now accountID)) ''attribute_not_exists(SK)'',
         transact_put r (marshal_reservation (reservation_record accountID req)) ''attribute_not_exists(PK)''] s of
      (None, s') \<Rightarrow> (Inr (account_toModel (profile_record now accountID req)), s')
    | (Some e, s') \<Rightarrow>
        (case condition_failure_index e of
           Some idx \<Rightarrow> (Inl (if idx = emailReservationTransactIndex then DbEmailAlreadyExists
                           else DbAlreadyExists), s')
         | None \<Rightarrow> (Inl e, s')))"

definition account_exprs :: "gtime \<Rightarrow> update_account_request \<Rightarrow> expr_build" where
  "account_exprs now update =
     add_set ''#ua'' '':ua'' ''updated_at'' (AvS (fmt_nano now))
    (set_field ''#av'' '':av'' ''avatar_url'' AvS (ua_AvatarUrl update)
    (set_field ''#ln'' '':ln'' ''last_name'' AvS (ua_LastName update)
    (set_field ''#fn'' '':fn'' ''first_name'' AvS (ua_FirstName update)
    (set_field ''#ph'' '':ph'' ''phone'' AvS (ua_Phone update) no_exprs))))"

definition UpdateAccount ::
  "'s repo \<Rightarrow> gtime \<Rightarrow> string \<Rightarrow> update_account_request \<Rightarrow> 's \<Rightarrow> (error + account) \<times> 's" where
  "UpdateAccount r now accountID update s =
     (case BuildKey (client r) ''PK'' (createPK accountID) ''SK'' ''PROFILE'' of
        Inl e \<Rightarrow> (Inl e, s)
      | Inr key \<Rightarrow>
          (let b = account_exprs now update
           in case UpdateItemAs r unmarshal_account key (set_expr b) (exprValues b) (exprNames b)
                (Some ''attribute_exists(SK)'') s of
                (Inr a, s') \<Rightarrow> (Inr (account_toModel a), s')
              | (Inl e, s') \<Rightarrow>
                  if e = ConditionalCheckFailed then (Inl DbNotFound, s') else (Inl e, s')))"

section \<open>Erasure\<close>

record erasure_plan =
  children :: "transact_item list"
  identity :: "transact_item list"

definition erasureChunkSize :: nat where
  "erasureChunkSize = 100"

definition transact_del :: "'s repo \<Rightarrow> av \<Rightarrow> av \<Rightarrow> transact_item" where
  "transact_del r pk sk = \<lparr>ti_Table = tab r, ti_Op = TransactDelete, ti_Item = Map.empty,
     ti_Key = [''PK'' \<mapsto> pk, ''SK'' \<mapsto> sk], ti_UpdateExpr = [], ti_ExprNames = Map.empty,
     ti_ExprValues = Map.empty, ti_Condition = None\<rparr>"

fun plan_items :: "'s repo \<Rightarrow> item list \<Rightarrow> erasure_plan \<Rightarrow> error + erasure_plan" where
  "plan_items r [] plan = Inr plan"
| "plan_items r (it # items) plan =
     (case (it ''PK'', it ''SK'') of
        (Some pk, Some sk) \<Rightarrow>
          (let del = transact_del r pk sk in
           if sk \<noteq> AvS ''PROFILE''
           then plan_items r items (plan\<lparr>children := children plan @ [del]\<rparr>)
           else (case it ''email'' of
               Some (AvS email) \<Rightarrow>
                 if email = [] then Inl DbUnreadableProfileEmail
                 else plan_items r items (plan\<lparr>identity := identity plan
                   @ [del, transact_del r (AvS (emailReservationPK email)) (AvS emailReservationSK)]\<rparr>)
             | _ \<Rightarrow> Inl DbUnreadableProfileEmail))
      | _ \<Rightarrow> plan_items r items plan)"

definition buildErasurePlan :: "'s repo \<Rightarrow> item list \<Rightarrow> error + erasure_plan" where
  "buildErasurePlan r items = (case plan_items r items \<lparr>children = [], identity = []\<rparr> of
     Inl e \<Rightarrow> Inl e
   | Inr plan \<Rightarrow> if length (identity plan) = 0 then Inl DbNotFound else Inr plan)"

text \<open>The loop over the chunks of the plan, from offset \<open>start\<close>.\<close>

function erase_chunks :: "'s repo \<Rightarrow> transact_item list \<Rightarrow> nat \<Rightarrow> 's \<Rightarrow> error option \<times> 's" where
  "erase_chunks r cs start s =
     (if start < length cs then
        (let stop = min (start + erasureChunkSize) (length cs) in
         case TransactWrite (client r) (take (stop - start) (drop start cs)) s of
           (Some e, s') \<Rightarrow> (Some e, s')
         | (None, s') \<Rightarrow> erase_chunks r cs (start + erasureChunkSize) s')
      else (None, s))"
  by pat_completeness auto
termination
  by (relation "measure (\<lambda>(r, cs, start, s). length cs - start)") (auto simp: erasureChunkSize_def)

declare erase_chunks.simps [simp del]

definition account_query :: "'s repo \<Rightarrow> string \<Rightarrow> query_input" where
  "account_query r accountID = \<lparr>TableName = tab r, IndexName = None,
     KeyConditionExpression = ''PK = :pk'',
     ExpressionValues = ['':pk'' \<mapsto> AvS (''ACCOUNT#'' @ accountID)],
     ScanIndexForward = None, Limit = None\<rparr>"

definition DeleteAccount :: "'s repo \<Rightarrow> string \<Rightarrow> 's \<Rightarrow> error option \<times> 's" where
  "DeleteAccount r accountID s = (case QueryAll (client r) (account_query r accountID) s of
     (Inl e, s1) \<Rightarrow> (Some e, s1)
   | (Inr items, s1) \<Rightarrow>
       if length items = 0 then (Some DbNotFound, s1)
       else (case buildErasurePlan r items of
           Inl e \<Rightarrow> (Some e, s1)
         | Inr plan \<Rightarrow>
             (case erase_chunks r (children plan) 0 s1 of
                (Some e, s2) \<Rightarrow> (Some e, s2)
              | (None, s2) \<Rightarrow> TransactWrite (client r) (identity plan) s2)))"

section \<open>The abstract view of an account\<close>

definition account_at :: "table \<Rightarrow> string \<Rightarrow> account option" where
  "account_at tb i = Option.bind (tb (profile_key i)) (\<lambda>it. map_option account_toModel (unmarshal_account it))"

lemma unmarshal_marshal_account [decode_simps]:
  "valid_time (ar_CreatedAt a) \<Longrightarrow> valid_time (ar_UpdatedAt a) \<Longrightarrow>
    unmarshal_account (marshal_account a) = Some a"
  by (simp add: unmarshal_account_def marshal_account_def decode_simps)

lemma marshal_account_keys [simp]:
  "marshal_account a ''PK'' = Some (AvS (ar_PK a))" "marshal_account a ''SK'' = Some (AvS (ar_SK a))"
  by (simp_all add: marshal_account_def)

lemma marshal_settings_default_keys [simp]:
  "marshal_settings_default d ''PK'' = Some (AvS (sd_PK d))"
  "marshal_settings_default d ''SK'' = Some (AvS (sd_SK d))"
  "marshal_settings_default d ''GSI1SK'' = None"
  by (simp_all add: marshal_settings_default_def)

lemma marshal_reservation_fields [simp]:
  "marshal_reservation e ''PK'' = Some (AvS (er_PK e))"
  "marshal_reservation e ''SK'' = Some (AvS (er_SK e))"
  "marshal_reservation e ''account_id'' = Some (AvS (er_AccountID e))"
  "marshal_reservation e ''GSI1SK'' = None"
  by (simp_all add: marshal_reservation_def)

lemma profile_item_marshal:
  "profile_item i (to_lower (ca_Email req)) (marshal_account (profile_record now i req))"
  by (simp add: profile_item_def marshal_account_def profile_record_def Let_def)

lemma pick_items_last:
  "pick_items xs (p, q) =
    ((if filter (\<lambda>i. ci_SK i = ''PROFILE'') xs = [] then p
      else Some (last (filter (\<lambda>i. ci_SK i = ''PROFILE'') xs))),
     (if filter (\<lambda>i. ci_SK i = ''SETTINGS'') xs = [] then q
      else Some (last (filter (\<lambda>i. ci_SK i = ''SETTINGS'') xs))))"
  by (induction xs arbitrary: p q) auto

lemma pick_items_unique:
  assumes "\<forall>i \<in> set xs. ci_SK i = ''PROFILE'' \<longrightarrow> Some i = p" "\<forall>i \<in> set xs. ci_SK i = ''SETTINGS'' \<longrightarrow> Some i = q"
    and "\<forall>i. p = Some i \<longrightarrow> i \<in> set xs \<and> ci_SK i = ''PROFILE''"
    and "\<forall>i. q = Some i \<longrightarrow> i \<in> set xs \<and> ci_SK i = ''SETTINGS''"
  shows "pick_items xs (None, None) = (p, q)"
proof -
  have "(if filter (\<lambda>i. ci_SK i = k) xs = [] then None
      else Some (last (filter (\<lambda>i. ci_SK i = k) xs))) = w"
    if "\<forall>i \<in> set xs. ci_SK i = k \<longrightarrow> Some i = w" "\<forall>i. w = Some i \<longrightarrow> i \<in> set xs \<and> ci_SK i = k" for k w
  proof (cases "filter (\<lambda>i. ci_SK i = k) xs = []")
    case True
    then have "\<forall>i \<in> set xs. ci_SK i \<noteq> k" by (simp add: filter_empty_conv)
    with that(2) True show ?thesis by (cases w) auto
  next
    case False
    then have "last (filter (\<lambda>i. ci_SK i = k) xs) \<in> set (filter (\<lambda>i. ci_SK i = k) xs)"
      using last_in_set by blast
    with that(1) False show ?thesis by simp
  qed
  from this [OF assms(1,3)] this [OF assms(2,4)] show ?thesis
    unfolding pick_items_last by (rule arg_cong2)
qed

section \<open>What the operations do to the table\<close>

lemma email_query_index:
  "index_query (tab r) (KGsi '':pk'' '':sk'') (email_query r email)"
  by (auto simp: index_query_def email_query_def token_def)

lemma account_query_base: "base_query (tab r) (KPk '':pk'') (account_query r i)"
  by (simp add: base_query_def account_query_def token_def)

lemma email_rows:
  assumes "registry_ok tb"
  shows "{k. \<exists>it. tb k = Some it
      \<and> kcond_match (ExpressionValues (email_query r email)) (KGsi '':pk'' '':sk'') k it}
    = {k. \<exists>i. k = profile_key i \<and> owns tb i (to_lower email)}" (is "?L = ?R")
proof (intro set_eqI iffI)
  fix k assume "k \<in> ?L"
  then obtain it where it: "tb k = Some it" "it ''GSI1PK'' = Some (AvS (''EMAIL#'' @ to_lower email))"
    "it ''GSI1SK'' = Some (AvS ''PROFILE'')"
    by (auto simp: email_query_def)
  then obtain i em where "k = profile_key i" "profile_item i em it"
    by (auto elim: profileE [OF assms])
  with it show "k \<in> ?R" by (auto simp: profile_item_def owns_def)
next
  fix k assume "k \<in> ?R"
  then obtain i it where it: "k = profile_key i" "tb k = Some it"
    "it ''email'' = Some (AvS (to_lower email))"
    by (auto simp: owns_def)
  then obtain em where "profile_item i em it"
    using profileE [OF assms it(2)] by (metis key_inject(1) snd_key(1))
  with it show "k \<in> ?L" by (auto simp: profile_item_def email_query_def)
qed

text \<open>The two partial updates as lists of clauses.\<close>

definition account_clauses :: "gtime \<Rightarrow> update_account_request \<Rightarrow> clause list" where
  "account_clauses now u = opt_clause ''#ph'' '':ph'' ''phone'' AvS (ua_Phone u)
     @ opt_clause ''#fn'' '':fn'' ''first_name'' AvS (ua_FirstName u)
     @ opt_clause ''#ln'' '':ln'' ''last_name'' AvS (ua_LastName u)
     @ opt_clause ''#av'' '':av'' ''avatar_url'' AvS (ua_AvatarUrl u)
     @ [(''#ua'', '':ua'', ''updated_at'', AvS (fmt_nano now))]"

definition credentials_clauses :: "gtime \<Rightarrow> update_credentials_request \<Rightarrow> clause list" where
  "credentials_clauses now u = opt_clause ''#ph'' '':ph'' ''password_hash'' AvS (uc_PasswordHash u)
     @ opt_clause ''#am'' '':am'' ''auth_methods'' (\<lambda>am. AvL (map AvS am)) (uc_AuthMethods u)
     @ [(''#ua'', '':ua'', ''updated_at'', AvS (fmt_nano now))]"

lemma account_exprs_build: "account_exprs now u = build (account_clauses now u)"
  by (simp add: account_exprs_def account_clauses_def no_exprs_build del: build_Nil)

lemma credentials_exprs_build: "credentials_exprs now u = build (credentials_clauses now u)"
  by (simp add: credentials_exprs_def credentials_clauses_def no_exprs_build option.map_comp comp_def
      option.map_ident del: build_Nil)

lemma good_account_clauses: "good_clauses (account_clauses now u)"
  by (cases "ua_Phone u"; cases "ua_FirstName u"; cases "ua_LastName u"; cases "ua_AvatarUrl u")
    (simp_all add: good_clauses_def account_clauses_def clause_defs token_def)

lemma good_credentials_clauses: "good_clauses (credentials_clauses now u)"
  by (cases "uc_PasswordHash u"; cases "uc_AuthMethods u")
    (simp_all add: good_clauses_def credentials_clauses_def clause_defs token_def)

lemma plan_items_keys:
  assumes "\<forall>k \<in> set ks. \<exists>it. tb k = Some it \<and> it ''PK'' = Some (AvS (fst k)) \<and> it ''SK'' = Some (AvS (snd k))"
    and "\<forall>k \<in> set ks. snd k = ''PROFILE'' \<longrightarrow> the (tb k) ''email'' = Some (AvS em) \<and> em \<noteq> []"
  shows "plan_items r (map (\<lambda>k. the (tb k)) ks) plan = Inr (plan\<lparr>
      children := children plan
        @ map (render_write (tab r)) (map WDel (filter (\<lambda>k. snd k \<noteq> ''PROFILE'') ks)),
      identity := identity plan
        @ concat (map (\<lambda>k. map (render_write (tab r)) (map WDel [k, reservation_key em]))
            (filter (\<lambda>k. snd k = ''PROFILE'') ks))\<rparr>)"
  using assms
proof (induction ks arbitrary: plan)
  case (Cons k ks)
  then obtain it where it: "tb k = Some it" "it ''PK'' = Some (AvS (fst k))" "it ''SK'' = Some (AvS (snd k))"
    by auto
  have del: "transact_del r (AvS p) (AvS q) = render_write (tab r) (WDel (p, q))" for p q
    by (simp add: transact_del_def mk_key_def)
  have IH: "plan_items r (map (\<lambda>k. the (tb k)) ks) plan = Inr (plan\<lparr>
      children := children plan
        @ map (render_write (tab r)) (map WDel (filter (\<lambda>k. snd k \<noteq> ''PROFILE'') ks)),
      identity := identity plan
        @ concat (map (\<lambda>k. map (render_write (tab r)) (map WDel [k, reservation_key em]))
            (filter (\<lambda>k. snd k = ''PROFILE'') ks))\<rparr>)" for plan
    by (rule Cons.IH) (use Cons.prems in auto)
  show ?case
    using it Cons.prems(2) by (cases "snd k = ''PROFILE''") (simp_all add: IH del Let_def reservation_key_def)
qed simp

text \<open>The answer of a sign-in lookup for account \<open>i\<close>.\<close>

definition credentials_of :: "string \<Rightarrow> credentials_batch_item \<Rightarrow> credentials_batch_item option
    \<Rightarrow> credentials_response" where
  "credentials_of i p st = \<lparr>cr_AccountId = i, cr_AuthMethods = ci_AuthMethods p,
     cr_EmailVerified = (case st of None \<Rightarrow> False | Some d \<Rightarrow> ci_EmailVerified d),
     cr_PasswordHash = optStr (ci_PasswordHash p),
     cr_Status = (case st of None \<Rightarrow> ''active'' | Some d \<Rightarrow> if ci_Status d = [] then ''active'' else ci_Status d)\<rparr>"

text \<open>The state of the table after a registration.\<close>

definition created :: "gtime \<Rightarrow> string \<Rightarrow> create_account_request \<Rightarrow> table \<Rightarrow> table" where
  "created now i req tb = tb(profile_key i \<mapsto> marshal_account (profile_record now i req),
     settings_key i \<mapsto> marshal_settings_default (settings_default now i),
     reservation_key (ca_Email req) \<mapsto> marshal_reservation (reservation_record i req))"

definition free :: "string \<Rightarrow> string \<Rightarrow> table \<Rightarrow> bool" where
  "free i em tb \<longleftrightarrow> tb (profile_key i) = None \<and> tb (settings_key i) = None \<and> tb (reservation_key em) = None"

context dynamo
begin

lemma resolve_spec:
  assumes run: "resolveAccountIDByEmail r email s = (x, s')" and ok: "registry_ok (tbl s)"
  shows "tbl s' = tbl s \<and> (case x of
      Inr i \<Rightarrow> owns (tbl s) i (to_lower email)
    | Inl e \<Rightarrow> e = DbNotFound \<and> (\<forall>i. \<not> owns (tbl s) i (to_lower email)) \<or> transport e)"
proof -
  obtain y s1 where q: "QueryAll (client r) (email_query r email) s = (y, s1)" by fastforce
  note law = query_index [OF q email_query_index]
  then have t: "tbl s1 = tbl s" by simp
  show ?thesis
  proof (cases y)
    case (Inl e)
    with law q run t show ?thesis
      by (auto simp: resolveAccountIDByEmail_def unmarshal_list_def)
  next
    case (Inr its)
    with law obtain ks where ks: "distinct ks"
        "set ks = {k. \<exists>i. k = profile_key i \<and> owns (tbl s) i (to_lower email)}"
      and its: "list_all2 (\<lambda>it k. it ''account_id'' = the (tbl s k) ''account_id''
        \<and> it ''PK'' = the (tbl s k) ''PK'') its ks"
      by (auto simp: rows_def email_rows [OF ok] simp del: kcond_match.simps)
    have "\<forall>a \<in> set ks. \<forall>b \<in> set ks. a = b"
    proof (intro ballI)
      fix a b assume "a \<in> set ks" "b \<in> set ks"
      then obtain i j where "a = profile_key i" "owns (tbl s) i (to_lower email)"
        "b = profile_key j" "owns (tbl s) j (to_lower email)"
        unfolding ks(2) by blast
      with owns_unique [OF ok, of i _ j] show "a = b" by blast
    qed
    then have "card (set ks) \<le> 1" by (simp add: card_le_Suc0_iff_eq)
    then have "length ks \<le> 1" using distinct_card [OF ks(1)] by simp
    then consider "ks = []" | k where "ks = [k]"
      by (cases ks) auto
    then show ?thesis
    proof cases
      case 1
      have none: "\<not> owns (tbl s) i (to_lower email)" for i
      proof
        assume "owns (tbl s) i (to_lower email)"
        then have "profile_key i \<in> set ks" unfolding ks(2) by blast
        with 1 show False by simp
      qed
      from 1 its have "its = []" by simp
      with none Inr q run t show ?thesis
        by (auto simp: resolveAccountIDByEmail_def unmarshal_list_def)
    next
      case (2 k)
      with ks(2) obtain i where i: "k = profile_key i" "owns (tbl s) i (to_lower email)" by auto
      then obtain p where p: "tbl s k = Some p" by (auto simp: owns_def)
      with i obtain em where "profile_item i em p"
        by (metis profileE [OF ok p] key_inject(1) snd_key(1))
      with its 2 p i tbl_key [OF p] obtain it where it: "its = [it]"
        "it ''account_id'' = Some (AvS i)" "it ''PK'' = Some (AvS (createPK i))"
        by (auto simp: list_all2_Cons2 profile_item_def)
      then have "unmarshal_gsi it = Some \<lparr>ge_AccountID = i, ge_PK = createPK i\<rparr>"
        by (simp add: unmarshal_gsi_def field_keyed)
      with it(1) i(2) Inr q run t show ?thesis
        by (auto simp: resolveAccountIDByEmail_def unmarshal_list_def)
    qed
  qed
qed

lemma GetAccount_spec:
  assumes "GetAccount r i s = (x, s')"
  shows "tbl s' = tbl s \<and> (case x of
      Inr a \<Rightarrow> account_at (tbl s) i = Some a
    | Inl e \<Rightarrow> e = DbNotFound \<and> tbl s (profile_key i) = None \<or> transport e \<or> e = unmarshal_error)"
proof (cases rule: build_key_cases [where p = "''ACCOUNT#'' @ i" and k = "''PROFILE''"])
  case key
  obtain y s1 where g: "GetItem (client r) (tab r) (mk_key (createPK i) ''PROFILE'') s = (y, s1)"
    by fastforce
  from get_item [OF g] g key assms show ?thesis
    by (auto simp: GetAccount_def GetItemAs_def createPK_def profile_key_def account_at_def
        split: sum.splits option.splits)
next
  case (failed m)
  with assms show ?thesis by (auto simp: GetAccount_def)
qed

lemma UpdateAccount_spec:
  assumes "UpdateAccount r now i u s = (x, s')"
  shows "(\<exists>it. tbl s (profile_key i) = Some it
        \<and> tbl s' = (tbl s)(profile_key i \<mapsto> assign (account_clauses now u) it)
        \<and> (case x of Inr a \<Rightarrow> account_at (tbl s') i = Some a | Inl e \<Rightarrow> transport e \<or> e = unmarshal_error))
    \<or> tbl s' = tbl s \<and> (\<exists>e. x = Inl e \<and> (transport e \<or> e = DbNotFound \<and> tbl s (profile_key i) = None))"
proof (cases rule: build_key_cases [where p = "createPK i" and k = "''PROFILE''"])
  case key
  let ?b = "build (account_clauses now u)"
  obtain y s1 where g: "UpdateItem (client r) (tab r) (mk_key (createPK i) ''PROFILE'') (set_expr ?b)
      (exprValues ?b) (exprNames ?b) (Some ''attribute_exists(SK)'') s = (y, s1)" by fastforce
  note sp = build_spec [OF g _ _ good_account_clauses, of "Some present"]
  show ?thesis
    using sp g key assms
    by (auto simp: UpdateAccount_def account_exprs_build UpdateItemAs_def render_present Let_def
        write_spec_def profile_key_def old_or_new_def account_at_def
        split: sum.splits option.splits if_splits)
next
  case (failed m)
  with assms show ?thesis by (auto simp: UpdateAccount_def)
qed

lemma UpdateAccountCredentials_spec:
  assumes "UpdateAccountCredentials r now i u s = (e, s')"
  shows "(\<exists>it. tbl s (profile_key i) = Some it
        \<and> tbl s' = (tbl s)(profile_key i \<mapsto> assign (credentials_clauses now u) it)
        \<and> (case e of None \<Rightarrow> True | Some x \<Rightarrow> transport x))
    \<or> tbl s' = tbl s \<and> (\<exists>x. e = Some x \<and> (transport x \<or> x = DbNotFound \<and> tbl s (profile_key i) = None))"
proof (cases rule: build_key_cases [where p = "createPK i" and k = "''PROFILE''"])
  case key
  let ?b = "build (credentials_clauses now u)"
  obtain y s1 where g: "UpdateItem (client r) (tab r) (mk_key (createPK i) ''PROFILE'') (set_expr ?b)
      (exprValues ?b) (exprNames ?b) (Some ''attribute_exists(SK)'') s = (y, s1)" by fastforce
  note sp = build_spec [OF g _ _ good_credentials_clauses, of "Some present"]
  show ?thesis
    using sp g key assms
    by (auto simp: UpdateAccountCredentials_def credentials_exprs_build render_present Let_def
        write_spec_def profile_key_def old_or_new_def split: sum.splits option.splits if_splits)
next
  case (failed m)
  with assms show ?thesis by (auto simp: UpdateAccountCredentials_def)
qed

lemma unmarshal_credentials_SK:
  "unmarshal_credentials it = Some c \<Longrightarrow> it ''SK'' = Some (AvS k) \<Longrightarrow> ci_SK c = k"
  by (auto simp: unmarshal_credentials_def field_def split: Option.bind_splits)

lemma batch_pick:
  assumes its: "set its = {it. \<exists>k \<in> {profile_key i, settings_key i}. tbl s k = Some it}"
    and dec: "decode_all unmarshal_credentials its = Some xs"
  shows "pick_items xs (None, None) =
    (Option.bind (tbl s (profile_key i)) unmarshal_credentials,
     Option.bind (tbl s (settings_key i)) unmarshal_credentials)"
proof -
  have img: "Some ` set xs = unmarshal_credentials ` set its"
    using dec unfolding decode_all_Some by (metis list.set_map)
  have inv: "(tbl s (profile_key i) = Some it \<and> ci_SK c = ''PROFILE''
      \<or> tbl s (settings_key i) = Some it \<and> ci_SK c = ''SETTINGS'')" 
    if "unmarshal_credentials it = Some c" "it \<in> set its" for it c
    using that its tbl_key [of s "profile_key i" it] tbl_key [of s "settings_key i" it]
      unmarshal_credentials_SK [OF that(1)] by (auto simp: settingsSK_def)
  have fwd: "\<exists>it. unmarshal_credentials it = Some c \<and> it \<in> set its" if "c \<in> set xs" for c
    using img that by (metis imageE imageI)
  have bwd: "\<exists>c \<in> set xs. unmarshal_credentials it = Some c" if "it \<in> set its" for it
    using img that by (metis imageE imageI)
  have pre: "c \<in> set xs \<and> ci_SK c = snd kk"
    if k: "kk = profile_key i \<or> kk = settings_key i" and it: "tbl s kk = Some it"
      and c: "unmarshal_credentials it = Some c" for kk it c
  proof -
    have "it \<in> set its" using k it unfolding its by blast
    from bwd [OF this] c have "c \<in> set xs" by auto
    then show ?thesis
      using unmarshal_credentials_SK [OF c] tbl_key [OF it] by auto
  qed
  show ?thesis
  proof (rule pick_items_unique)
    show "\<forall>c \<in> set xs. ci_SK c = ''PROFILE'' \<longrightarrow>
        Some c = Option.bind (tbl s (profile_key i)) unmarshal_credentials"
      using fwd inv by fastforce
    show "\<forall>c \<in> set xs. ci_SK c = ''SETTINGS'' \<longrightarrow>
        Some c = Option.bind (tbl s (settings_key i)) unmarshal_credentials"
      using fwd inv by fastforce
    show "\<forall>c. Option.bind (tbl s (profile_key i)) unmarshal_credentials = Some c \<longrightarrow>
        c \<in> set xs \<and> ci_SK c = ''PROFILE''"
      using pre [of "profile_key i"] by (simp add: bind_eq_Some_conv) blast
    show "\<forall>c. Option.bind (tbl s (settings_key i)) unmarshal_credentials = Some c \<longrightarrow>
        c \<in> set xs \<and> ci_SK c = ''SETTINGS''"
      using pre [of "settings_key i"] by (simp add: bind_eq_Some_conv settingsSK_def) blast
  qed
qed

lemma credentials_spec:
  assumes run: "GetAccountCredentialsByEmail r email s = (x, s')" and ok: "registry_ok (tbl s)"
  shows "tbl s' = tbl s \<and> (case x of
      Inr c \<Rightarrow> (\<exists>i it p. owns (tbl s) i (to_lower email) \<and> tbl s (profile_key i) = Some it
        \<and> unmarshal_credentials it = Some p
        \<and> c = credentials_of i p (Option.bind (tbl s (settings_key i)) unmarshal_credentials))
    | Inl e \<Rightarrow> e = DbNotFound \<and> (\<forall>i. \<not> owns (tbl s) i (to_lower email)) \<or> transport e \<or> e = unmarshal_error)"
proof -
  obtain y s1 where q: "resolveAccountIDByEmail r email s = (y, s1)" by fastforce
  note law = resolve_spec [OF q ok]
  show ?thesis
  proof (cases y)
    case (Inl e)
    with law q run show ?thesis by (auto simp: GetAccountCredentialsByEmail_def)
  next
    case (Inr i)
    with law have own: "owns (tbl s) i (to_lower email)" and t1: "tbl s1 = tbl s" by auto
    then obtain it where it: "tbl s (profile_key i) = Some it" by (auto simp: owns_def)
    then obtain em where "profile_item i em it"
      by (metis profileE [OF ok it] key_inject(1) snd_key(1))
    then have aid: "unmarshal_credentials it = Some p \<Longrightarrow> ci_AccountID p = i" for p
      by (auto simp: profile_item_def unmarshal_credentials_def field_def split: Option.bind_splits)
    let ?keys = "[[''PK'' \<mapsto> AvS (createPK i), ''SK'' \<mapsto> AvS ''PROFILE''],
             [''PK'' \<mapsto> AvS (createPK i), ''SK'' \<mapsto> AvS ''SETTINGS'']]"
    have keys: "?keys = map (\<lambda>k. mk_key (fst k) (snd k)) [profile_key i, settings_key i]"
      by (simp add: mk_key_def settingsSK_def)
    obtain z s2 where g: "BatchGetItem (client r) (tab r) ?keys s1 = (z, s2)" by fastforce
    from batch_get [OF g [unfolded keys]] have t2: "tbl s2 = tbl s"
      and z: "case z of Inr its \<Rightarrow> set its = {it. \<exists>k \<in> {profile_key i, settings_key i}. tbl s k = Some it}
        | Inl e \<Rightarrow> transport e" by (auto simp: t1 split: sum.splits)
    show ?thesis
    proof (cases z)
      case (Inl e)
      with z t2 q g Inr run show ?thesis
        by (auto simp: GetAccountCredentialsByEmail_def unmarshal_list_def)
    next
      case its: (Inr its)
      show ?thesis
      proof (cases "decode_all unmarshal_credentials its")
        case None
        with its t2 q g Inr run show ?thesis
          by (auto simp: GetAccountCredentialsByEmail_def unmarshal_list_def)
      next
        case (Some xs)
        have "it \<in> set its" using z it its by auto
        with Some obtain p where p: "unmarshal_credentials it = Some p"
          using decode_all_None [of unmarshal_credentials its] by fastforce
        have pick: "pick_items xs (None, None) =
            (Some p, Option.bind (tbl s (settings_key i)) unmarshal_credentials)"
          using batch_pick [of its i s, OF _ Some] z its it p by simp
        have "x = Inr (credentials_of i p (Option.bind (tbl s (settings_key i)) unmarshal_credentials))"
          "s' = s2"
          using run aid [OF p]
          by (auto simp: GetAccountCredentialsByEmail_def unmarshal_list_def q g Inr its Some pick
              credentials_of_def Let_def split: option.splits)
        with own it p t2 show ?thesis by auto
      qed
    qed
  qed
qed

lemma CreateAccount_spec:
  assumes run: "CreateAccount r now i req s = (x, s')"
  shows "free i (ca_Email req) (tbl s) \<and> tbl s' = created now i req (tbl s)
        \<and> (case x of Inr a \<Rightarrow> a = account_toModel (profile_record now i req) | Inl e \<Rightarrow> transport e)
    \<or> tbl s' = tbl s \<and> (\<exists>e. x = Inl e \<and> (transport e
        \<or> e = DbEmailAlreadyExists \<and> tbl s (reservation_key (ca_Email req)) \<noteq> None
        \<or> e = DbAlreadyExists \<and> (tbl s (profile_key i) \<noteq> None \<or> tbl s (settings_key i) \<noteq> None)))"
proof -
  let ?ws = "[WPut (marshal_account (profile_record now i req)) (Some absent),
    WPut (marshal_settings_default (settings_default now i)) (Some absent),
    WPut (marshal_reservation (reservation_record i req)) (Some [AttrNotExists ''PK''])]"
  have keys: "map wr_key ?ws = [profile_key i, settings_key i, reservation_key (ca_Email req)]"
    by (simp add: item_key_def profile_record_def settings_default_def reservation_record_def Let_def
        profile_key_def settings_key_def reservation_key_def emailReservationPK_def settingsSK_def)
  have pk: "eval_cond Map.empty Map.empty (tbl s kk) (Some [AttrNotExists ''PK'']) \<longleftrightarrow> tbl s kk = None" for kk
    using tbl_key [of s kk] by (auto simp: eval_cond_def split: option.splits)
  have rend: "map (render_write (tab r)) ?ws
    = [transact_put r (marshal_account (profile_record now i req)) ''attribute_not_exists(SK)'',
       transact_put r (marshal_settings_default (settings_default now i)) ''attribute_not_exists(SK)'',
       transact_put r (marshal_reservation (reservation_record i req)) ''attribute_not_exists(PK)'']"
    by (simp add: transact_put_def render_absent) (simp add: render_cond_def)
  obtain e s1 where t: "TransactWrite (client r) (map (render_write (tab r)) ?ws) s = (e, s1)" by fastforce
  have valid: "list_all valid_write ?ws"
    by (simp add: item_key_def cond_atoms_def plain_def)
  have dist: "distinct (map wr_key ?ws)"
    unfolding keys by simp
  have ok: "wr_ok (?ws ! n) (tbl s) \<longleftrightarrow> tbl s (map wr_key ?ws ! n) = None" if "n < 3" for n
    using that by (auto simp: wr_ok_def less_Suc_eq numeral_3_eq_3 pk)
  have all_ok: "(\<forall>w \<in> set ?ws. wr_ok w (tbl s)) \<longleftrightarrow> free i (ca_Email req) (tbl s)"
    using ok [of 0] ok [of 1] ok [of 2] unfolding keys by (simp add: free_def)
  have new: "fold (wr_apply ssl) ?ws (tbl s) = created now i req (tbl s)"
    using keys by (simp add: wr_apply_def created_def)
  from transact_write [OF t] valid dist
  have o: "outcome ssl (transact_failed ?ws (tbl s)) ?ws (tbl s) e (tbl s1)" by simp
  show ?thesis
  proof (cases e)
    case None
    with o all_ok new run t rend show ?thesis
      by (auto simp: outcome_def commit_def CreateAccount_def)
  next
    case (Some f)
    with o consider (cond) n where "n < 3" "f = TransactConditionFailed n" "tbl s (map wr_key ?ws ! n) \<noteq> None"
        "tbl s1 = tbl s"
      | (fault) "transport f" "tbl s1 = tbl s \<or> free i (ca_Email req) (tbl s) \<and> tbl s1 = created now i req (tbl s)"
      using ok all_ok new by (auto simp: outcome_def commit_def transact_failed_def)
    then show ?thesis
    proof cases
      case (cond n)
      with Some run t rend show ?thesis unfolding keys
        by (auto simp: CreateAccount_def emailReservationTransactIndex_def less_Suc_eq numeral_3_eq_3
            split: if_splits)
    next
      case fault
      with Some run t rend show ?thesis by (auto simp: CreateAccount_def)
    qed
  qed
qed

lemma transact_delete:
  assumes "TransactWrite (client r) (map (render_write (tab r)) (map WDel ks)) s = (e, s')"
    and "ks \<noteq> []" "length ks \<le> 100" "distinct ks"
  shows "case e of None \<Rightarrow> tbl s' = erase (set ks) (tbl s)
    | Some x \<Rightarrow> transport x \<and> (tbl s' = tbl s \<or> tbl s' = erase (set ks) (tbl s))"
proof -
  have "outcome ssl (transact_failed (map WDel ks) (tbl s)) (map WDel ks) (tbl s) e (tbl s')"
    using transact_write [OF assms(1)] assms(2-4) by (simp add: comp_def list_all_iff)
  then show ?thesis
    by (auto simp: outcome_def commit_def transact_failed_def wr_ok_def fold_wr_del
        split: option.splits)
qed

lemma erase_chunks_spec:
  assumes "erase_chunks r (map (render_write (tab r)) (map WDel ks)) start s = (e, s')" "distinct ks"
  shows "(e = None \<longrightarrow> tbl s' = erase (set (drop start ks)) (tbl s)) \<and> (\<forall>x. e = Some x \<longrightarrow> transport x)
    \<and> (\<exists>D \<subseteq> set (drop start ks). tbl s' = erase D (tbl s))"
  using assms
proof (induction "length ks - start" arbitrary: start s rule: less_induct)
  case less
  show ?case
  proof (cases "start < length ks")
    case False
    with less.prems show ?thesis by (subst (asm) erase_chunks.simps) auto
  next
    case True
    define chunk where "chunk = take erasureChunkSize (drop start ks)"
    define rest where "rest = drop (start + erasureChunkSize) ks"
    have split: "drop start ks = chunk @ rest"
      by (simp add: chunk_def rest_def add.commute flip: drop_drop)
    have stop: "take (min (start + erasureChunkSize) (length ks) - start) (drop start ks) = chunk"
      using True by (auto simp: chunk_def min_def)
    obtain f s1 where t: "TransactWrite (client r) (map (render_write (tab r)) (map WDel chunk)) s = (f, s1)"
      by fastforce
    have "chunk \<noteq> []" "length chunk \<le> 100" "distinct chunk"
      using True less.prems(2) by (auto simp: chunk_def erasureChunkSize_def)
    note tr = transact_delete [OF t this]
    have run: "(case f of Some x \<Rightarrow> (Some x, s1) | None \<Rightarrow>
        erase_chunks r (map (render_write (tab r)) (map WDel ks)) (start + erasureChunkSize) s1) = (e, s')"
      using less.prems(1) True t
      by (subst (asm) erase_chunks.simps) (simp add: Let_def drop_map take_map stop)
    show ?thesis
    proof (cases f)
      case (Some x)
      with run tr have "e = Some x" "transport x" "tbl s' = erase {} (tbl s) \<or> tbl s' = erase (set chunk) (tbl s)"
        by auto
      moreover from this(3) have "\<exists>D \<subseteq> set (drop start ks). tbl s' = erase D (tbl s)"
        unfolding split by (metis Un_upper1 empty_subsetI set_append)
      ultimately show ?thesis by simp
    next
      case None
      with run have run': "erase_chunks r (map (render_write (tab r)) (map WDel ks))
          (start + erasureChunkSize) s1 = (e, s')" by simp
      have "length ks - (start + erasureChunkSize) < length ks - start"
        using True by (simp add: erasureChunkSize_def)
      note ih = less.hyps [OF this run' less.prems(2), folded rest_def]
      from tr None have t1: "tbl s1 = erase (set chunk) (tbl s)" by simp
      from ih obtain D where "D \<subseteq> set rest" "tbl s' = erase (D \<union> set chunk) (tbl s)"
        by (auto simp: t1)
      then have "\<exists>D \<subseteq> set (drop start ks). tbl s' = erase D (tbl s)"
        unfolding split by (intro exI [of _ "D \<union> set chunk"]) auto
      moreover have "e = None \<Longrightarrow> tbl s' = erase (set (drop start ks)) (tbl s)"
        using ih by (simp add: t1 split Un_commute)
      ultimately show ?thesis using ih by blast
    qed
  qed
qed

end

section \<open>Erasing an account\<close>

definition part :: "string \<Rightarrow> key set" where
  "part i = {k. fst k = createPK i}"

text \<open>The keys an erasure removes: the account's partition and the reservation of its email.\<close>

definition erased :: "string \<Rightarrow> string \<Rightarrow> table \<Rightarrow> table" where
  "erased i em tb = erase (insert (reservation_key em) (part i)) tb"

lemma email_only: "registry_ok tb \<Longrightarrow> tb (profile_key i) = Some it \<Longrightarrow>
    \<exists>em. it ''email'' = Some (AvS em) \<and> owns tb i em"
  by (erule (1) profileE) (auto simp: owns_def profile_item_def)

lemma plan_items_unreadable:
  assumes "\<forall>k \<in> set ks. \<exists>it. tb k = Some it \<and> it ''PK'' = Some (AvS (fst k)) \<and> it ''SK'' = Some (AvS (snd k))"
    and "\<exists>k \<in> set ks. snd k = ''PROFILE'' \<and> the (tb k) ''email'' = Some (AvS [])"
  shows "plan_items r (map (\<lambda>k. the (tb k)) ks) plan = Inl DbUnreadableProfileEmail"
  using assms
proof (induction ks arbitrary: plan)
  case (Cons k ks)
  then obtain it where "tb k = Some it" "it ''PK'' = Some (AvS (fst k))" "it ''SK'' = Some (AvS (snd k))"
    by auto
  with Cons show ?case by (auto simp: Let_def split: option.splits av.splits)
qed simp

lemma erase_cong_dom: "D \<inter> dom tb = E \<inter> dom tb \<Longrightarrow> erase D tb = erase E tb"
  by (auto simp: erase_def fun_eq_iff dom_def)

context dynamo
begin

lemma partition_query:
  assumes "QueryAll (client r) (account_query r i) s = (y, s')"
  shows "tbl s' = tbl s \<and> (case y of
      Inr its \<Rightarrow> (\<exists>ks. distinct ks \<and> set ks = part i \<inter> dom (tbl s) \<and> its = map (\<lambda>k. the (tbl s k)) ks)
    | Inl e \<Rightarrow> transport e)"
proof -
  have "kcond_match (ExpressionValues (account_query r i)) (KPk '':pk'') k it \<longleftrightarrow> k \<in> part i" for k it
    by (simp add: account_query_def part_def createPK_def eq_commute)
  then have "{k. \<exists>it. tbl s k = Some it
      \<and> kcond_match (ExpressionValues (account_query r i)) (KPk '':pk'') k it} = part i \<inter> dom (tbl s)"
    unfolding dom_def by blast
  moreover have "Limit (account_query r i) = None"
    by (simp add: account_query_def)
  ultimately show ?thesis
    using query_all [OF assms account_query_base] unfolding rows_def
    by (auto split: sum.splits simp del: kcond_match.simps)
qed

lemma DeleteAccount_spec:
  assumes run: "DeleteAccount r i s = (e, s')" and ok: "registry_ok (tbl s)"
  shows "(\<exists>em. owns (tbl s) i em \<and> em \<noteq> [] \<and> tbl s' = erased i em (tbl s)
        \<and> (\<forall>x. e = Some x \<longrightarrow> transport x))
    \<or> (\<exists>x D. e = Some x \<and> finite D \<and> D \<subseteq> part i - {profile_key i} \<and> tbl s' = erase D (tbl s)
        \<and> (transport x \<or> D = {} \<and> (x = DbNotFound \<and> tbl s (profile_key i) = None
              \<or> x = DbUnreadableProfileEmail \<and> owns (tbl s) i [])))"
    (is "?done \<or> ?kept")
proof -
  have kept: "?kept" if "e = Some x" "tbl s' = tbl s" "transport x \<or> x = DbNotFound
      \<and> tbl s (profile_key i) = None \<or> x = DbUnreadableProfileEmail \<and> owns (tbl s) i []" for x
    using that by (intro exI [of _ x] exI [of _ "{}"]) simp
  obtain y s1 where q: "QueryAll (client r) (account_query r i) s = (y, s1)" by fastforce
  note law = partition_query [OF q]
  show ?thesis
  proof (cases y)
    case (Inl x)
    with q run have "e = Some x" "s' = s1" by (simp_all add: DeleteAccount_def)
    with law Inl kept [of x] have ?kept by simp
    then show ?thesis ..
  next
    case (Inr its)
    with law obtain ks where ks: "distinct ks" "set ks = part i \<inter> dom (tbl s)"
      "its = map (\<lambda>k. the (tbl s k)) ks" and t1: "tbl s1 = tbl s" by auto
    have keyed: "\<forall>k \<in> set ks. \<exists>it. tbl s k = Some it \<and> it ''PK'' = Some (AvS (fst k))
        \<and> it ''SK'' = Some (AvS (snd k))"
      unfolding ks(2) using tbl_key by blast
    have prof: "k = profile_key i" if "k \<in> set ks" "snd k = ''PROFILE''" for k
      using that by (simp add: ks(2) part_def profile_key_def prod_eq_iff)
    show ?thesis
    proof (cases "tbl s (profile_key i)")
      case None
      then have none: "\<forall>k \<in> set ks. snd k \<noteq> ''PROFILE''" using prof ks(2) by fastforce
      have "filter (\<lambda>k. snd k = ''PROFILE'') ks = []" using none by (simp add: filter_empty_conv)
      with plan_items_keys [OF keyed, of "''x''" r] none
      have "buildErasurePlan r its = Inl DbNotFound" by (simp add: buildErasurePlan_def ks(3))
      with Inr q run have "e = Some DbNotFound" "s' = s1"
        by (auto simp: DeleteAccount_def split: if_splits)
      with None t1 kept [of DbNotFound] have ?kept by simp
      then show ?thesis ..
    next
      case (Some it)
      with email_only [OF ok] obtain em where em: "it ''email'' = Some (AvS em)" "owns (tbl s) i em"
        by blast
      have mem: "profile_key i \<in> set ks" using Some by (auto simp: ks(2) part_def)
      then have ne: "its \<noteq> []" by (auto simp: ks(3))
      show ?thesis
      proof (cases "em = []")
        case True
        with plan_items_unreadable [OF keyed, of r] mem Some em
        have "buildErasurePlan r its = Inl DbUnreadableProfileEmail"
          by (force simp: buildErasurePlan_def ks(3))
        with Inr q run ne have "e = Some DbUnreadableProfileEmail" "s' = s1"
          by (simp_all add: DeleteAccount_def)
        with True em t1 kept [of DbUnreadableProfileEmail] have ?kept by simp
        then show ?thesis ..
      next
        case False
        define cs where "cs = filter (\<lambda>k. snd k \<noteq> ''PROFILE'') ks"
        have single: "filter (\<lambda>k. snd k = ''PROFILE'') ks = [profile_key i]"
          by (rule filter_unique [OF ks(1) mem]) (use prof in auto)
        have em_ok: "\<forall>k \<in> set ks. snd k = ''PROFILE'' \<longrightarrow> the (tbl s k) ''email'' = Some (AvS em) \<and> em \<noteq> []"
          using prof Some em(1) False by (metis option.sel)
        have plan: "buildErasurePlan r its = Inr \<lparr>children = map (render_write (tab r)) (map WDel cs),
            identity = map (render_write (tab r)) (map WDel [profile_key i, reservation_key em])\<rparr>"
          unfolding buildErasurePlan_def ks(3) plan_items_keys [OF keyed em_ok] single by (simp add: cs_def)
        have cs: "distinct cs" "set cs = part i \<inter> dom (tbl s) - {profile_key i}"
          using ks prof by (auto simp: cs_def)
        obtain f s2 where ch: "erase_chunks r (map (render_write (tab r)) (map WDel cs)) 0 s1 = (f, s2)"
          by fastforce
        note sp = erase_chunks_spec [OF ch cs(1), unfolded t1 drop_0]
        show ?thesis
        proof (cases f)
          case f: (Some x)
          with plan Inr q run ne ch have "e = Some x" "s' = s2" by (simp_all add: DeleteAccount_def)
          moreover from sp obtain D where "D \<subseteq> set cs" "tbl s2 = erase D (tbl s)" by blast
          moreover from this(1) have "finite D" by (rule finite_subset) simp
          moreover from \<open>D \<subseteq> set cs\<close> have "D \<subseteq> part i - {profile_key i}" using cs(2) by auto
          ultimately have ?kept using sp f by blast
          then show ?thesis ..
        next
          case None
          with sp have t2: "tbl s2 = erase (set cs) (tbl s)" by blast
          from plan Inr q run ne ch None have tr: "TransactWrite (client r)
              (map (render_write (tab r)) (map WDel [profile_key i, reservation_key em])) s2 = (e, s')"
            by (simp add: DeleteAccount_def)
          have whole: "erase (set [profile_key i, reservation_key em]) (tbl s2) = erased i em (tbl s)"
            unfolding t2 erased_def erase_simps(2) using Some
            by (intro erase_cong_dom) (auto simp: cs(2) part_def)
          show ?thesis
            using transact_delete [OF tr] whole em(2) False t2 cs kept
            by (auto split: option.splits)
        qed
      qed
    qed
  qed
qed

end

section \<open>The promise about emails is kept\<close>

lemma created_registry:
  assumes "registry_ok tb" and "free i (ca_Email req) tb"
  shows "registry_ok (created now i req tb)"
proof -
  have "registry_ok (tb(settings_key i \<mapsto> marshal_settings_default (settings_default now i)))"
    using assms(1) by (rule registry_neutral) simp_all
  then have "registry_ok (tb(settings_key i \<mapsto> marshal_settings_default (settings_default now i),
      profile_key i \<mapsto> marshal_account (profile_record now i req),
      reservation_key (to_lower (ca_Email req)) \<mapsto> marshal_reservation (reservation_record i req)))"
    by (rule registry_create [OF _ _ profile_item_marshal])
      (use assms(2) in \<open>simp_all add: free_def reservation_record_def Let_def\<close>)
  moreover have "tb(settings_key i \<mapsto> x, profile_key i \<mapsto> y) = tb(profile_key i \<mapsto> y, settings_key i \<mapsto> x)" for x y
    by (rule fun_upd_twist) simp
  ultimately show ?thesis by (simp add: created_def del: key_inject)
qed

lemma created_owns: "owns (created now i req tb) i (to_lower (ca_Email req))"
  using profile_item_marshal [of i req now] by (simp add: owns_def created_def profile_item_def)

lemma created_account: "valid_time now \<Longrightarrow>
    account_at (created now i req tb) i = Some (account_toModel (profile_record now i req))"
  by (simp add: account_at_def created_def unmarshal_marshal_account profile_record_def Let_def)

lemma assign_registry:
  assumes "registry_ok tb" "tb (profile_key i) = Some it"
    and "\<forall>a \<in> {''account_id'', ''email'', ''GSI1PK'', ''GSI1SK''}. a \<notin> cl_a ` set qs"
  shows "registry_ok (tb(profile_key i \<mapsto> assign qs it))"
proof (rule registry_profile [OF assms(1,2)])
  show "\<forall>a \<in> {''account_id'', ''email'', ''GSI1PK'', ''GSI1SK''}. assign qs it a = it a"
    using assms(3) by (simp add: assign_other)
qed

lemma account_clauses_attr:
  "cl_a ` set (account_clauses now u) \<subseteq> {''phone'', ''first_name'', ''last_name'', ''avatar_url'', ''updated_at''}"
  by (auto simp: account_clauses_def clause_defs)

lemma credentials_clauses_attr:
  "cl_a ` set (credentials_clauses now u) \<subseteq> {''password_hash'', ''auth_methods'', ''updated_at''}"
  by (auto simp: credentials_clauses_def clause_defs)

lemma erased_registry:
  assumes ok: "registry_ok tb" and own: "owns tb i em"
  shows "registry_ok (erased i em tb)"
proof -
  let ?D = "part i - {profile_key i}"
  have neutral: "neutral_key k" if "k \<in> ?D" for k
    using that by (cases k) (auto simp: part_def neutral_key_def profile_key_def)
  have "registry_ok (erase ?D tb)"
    using registry_erase_neutral [OF ok] neutral by blast
  moreover have "owns (erase ?D tb) i em"
    using own by (simp add: owns_def erase_def)
  ultimately have "registry_ok ((erase ?D tb)(profile_key i := None, reservation_key em := None))"
    by (rule registry_erase)
  also have "(erase ?D tb)(profile_key i := None, reservation_key em := None) = erased i em tb"
  proof (rule ext)
    fix k
    show "((erase ?D tb)(profile_key i := None, reservation_key em := None)) k = erased i em tb k"
      by (cases "k = profile_key i") (auto simp: erased_def erase_def part_def)
  qed
  finally show ?thesis .
qed

context dynamo
begin

lemma CreateAccount_registry:
  "CreateAccount r now i req s = (x, s') \<Longrightarrow> registry_ok (tbl s) \<Longrightarrow> registry_ok (tbl s')"
  using CreateAccount_spec [of now i req s x s'] created_registry [of "tbl s" i req now] by auto

lemma UpdateAccount_registry:
  "UpdateAccount r now i u s = (x, s') \<Longrightarrow> registry_ok (tbl s) \<Longrightarrow> registry_ok (tbl s')"
  using UpdateAccount_spec [of now i u s x s'] assign_registry [of "tbl s" i] account_clauses_attr [of now u]
  by fastforce

lemma UpdateAccountCredentials_registry:
  "UpdateAccountCredentials r now i u s = (e, s') \<Longrightarrow> registry_ok (tbl s) \<Longrightarrow> registry_ok (tbl s')"
  using UpdateAccountCredentials_spec [of now i u s e s'] assign_registry [of "tbl s" i]
    credentials_clauses_attr [of now u] by fastforce

lemma DeleteAccount_registry:
  assumes "DeleteAccount r i s = (e, s')" and ok: "registry_ok (tbl s)"
  shows "registry_ok (tbl s')"
proof -
  have neutral: "neutral_key k" if "k \<in> part i - {profile_key i}" for k
    using that by (cases k) (auto simp: part_def neutral_key_def profile_key_def)
  from DeleteAccount_spec [OF assms] show ?thesis
  proof
    assume "\<exists>em. owns (tbl s) i em \<and> em \<noteq> [] \<and> tbl s' = erased i em (tbl s)
        \<and> (\<forall>x. e = Some x \<longrightarrow> transport x)"
    then show ?thesis using erased_registry [OF ok] by auto
  next
    assume "\<exists>x D. e = Some x \<and> finite D \<and> D \<subseteq> part i - {profile_key i} \<and> tbl s' = erase D (tbl s)
        \<and> (transport x \<or> D = {} \<and> (x = DbNotFound \<and> tbl s (profile_key i) = None
              \<or> x = DbUnreadableProfileEmail \<and> owns (tbl s) i []))"
    then obtain D where D: "D \<subseteq> part i - {profile_key i}" "tbl s' = erase D (tbl s)" by blast
    then have "\<forall>k \<in> D. neutral_key k" using neutral by blast
    with D(2) show ?thesis using registry_erase_neutral [OF ok] by simp
  qed
qed

lemma GetAccountExistsByEmail_spec:
  "GetAccountExistsByEmail r email s = (x, s') \<Longrightarrow> registry_ok (tbl s) \<Longrightarrow>
    tbl s' = tbl s \<and> (case x of
      Inr b \<Rightarrow> Exists b \<longleftrightarrow> (\<exists>i. owns (tbl s) i (to_lower email))
    | Inl e \<Rightarrow> transport e)"
  using resolve_spec [of email s]
  by (fastforce simp: GetAccountExistsByEmail_def split: prod.splits sum.splits if_splits)

end

text \<open>The effect of a profile update on the account model: the given fields are replaced (an empty
  phone or avatar reads back as absent), the others kept.\<close>

definition updated_account :: "update_account_request \<Rightarrow> account \<Rightarrow> account" where
  "updated_account u a = a\<lparr>
     a_Phone := (case ua_Phone u of None \<Rightarrow> a_Phone a | Some p \<Rightarrow> optStr p),
     a_FirstName := opt_or (a_FirstName a) (ua_FirstName u),
     a_LastName := opt_or (a_LastName a) (ua_LastName u),
     a_AvatarUrl := (case ua_AvatarUrl u of None \<Rightarrow> a_AvatarUrl a | Some p \<Rightarrow> optStr p)\<rparr>"

lemma unmarshal_account_iff:
  "unmarshal_account it = Some rc \<longleftrightarrow>
     field av_to_str [] ''PK'' it = Some (ar_PK rc)
   \<and> field av_to_str [] ''SK'' it = Some (ar_SK rc)
   \<and> field av_to_str [] ''account_id'' it = Some (ar_AccountID rc)
   \<and> field av_to_str [] ''username'' it = Some (ar_Username rc)
   \<and> field av_to_str [] ''email'' it = Some (ar_Email rc)
   \<and> field av_to_str [] ''phone'' it = Some (ar_Phone rc)
   \<and> field av_to_str [] ''first_name'' it = Some (ar_FirstName rc)
   \<and> field av_to_str [] ''last_name'' it = Some (ar_LastName rc)
   \<and> field av_to_str [] ''avatar_url'' it = Some (ar_AvatarURL rc)
   \<and> field av_to_str [] ''password_hash'' it = Some (ar_PasswordHash rc)
   \<and> field av_to_strs [] ''auth_methods'' it = Some (ar_AuthMethods rc)
   \<and> field av_to_str [] ''GSI1PK'' it = Some (ar_GSI1PK rc)
   \<and> field av_to_str [] ''GSI1SK'' it = Some (ar_GSI1SK rc)
   \<and> field av_to_time zero_time ''created_at'' it = Some (ar_CreatedAt rc)
   \<and> field av_to_time zero_time ''updated_at'' it = Some (ar_UpdatedAt rc)"
  by (cases rc) (auto simp: unmarshal_account_def bind_eq_Some_conv)

lemma field_opt:
  "field f z a (case p of None \<Rightarrow> it | Some y \<Rightarrow> it(b \<mapsto> AvS y))
    = (case p of None \<Rightarrow> field f z a it | Some y \<Rightarrow> if a = b then f (AvS y) else field f z a it)"
  by (simp split: option.splits)

lemma unmarshal_updated:
  assumes "valid_time now" and "unmarshal_account it = Some rc"
  shows "unmarshal_account (assign (account_clauses now u) it) = Some (rc\<lparr>
      ar_Phone := opt_or (ar_Phone rc) (ua_Phone u), ar_FirstName := opt_or (ar_FirstName rc) (ua_FirstName u),
      ar_LastName := opt_or (ar_LastName rc) (ua_LastName u),
      ar_AvatarURL := opt_or (ar_AvatarURL rc) (ua_AvatarUrl u), ar_UpdatedAt := now\<rparr>)"
  using assms unfolding unmarshal_account_iff
  by (simp add: account_clauses_def field_opt opt_or_def parse_time_fmt_nano split: option.split)

lemma account_at_updated:
  assumes "valid_time now" "account_at tb i = Some a" "tb (profile_key i) = Some it"
  shows "account_at (tb(profile_key i \<mapsto> assign (account_clauses now u) it)) i = Some (updated_account u a)"
  using assms unmarshal_updated [OF assms(1), of it _ u]
  by (auto simp: account_at_def account_toModel_def updated_account_def opt_or_def split: option.splits)

section \<open>Sample data for the witnesses\<close>

definition sample_time :: gtime where
  "sample_time = GTime 2024 1 2 3 4 5 600"

definition sample_request :: create_account_request where
  "sample_request = \<lparr>ca_AvatarUrl = None, ca_Email = ''Ann@x.io'', ca_FirstName = ''Ann'',
     ca_LastName = ''Lee'', ca_Phone = Some ''555'', ca_Username = ''ann''\<rparr>"

definition empty_mem :: mem where
  "empty_mem = \<lparr>m_rows = [], m_faults = []\<rparr>"

definition sample_mem :: mem where
  "sample_mem = snd (CreateAccount mem_repo sample_time ''a1'' sample_request empty_mem)"

lemma empty_mem_registry: "registry_ok (mem_tbl empty_mem)"
proof -
  have "mem_tbl empty_mem = Map.empty"
    by (rule ext) (simp add: mem_tbl_def empty_mem_def)
  then show ?thesis by (simp add: registry_empty)
qed

lemma sample_mem_registry: "registry_ok (mem_tbl sample_mem)"
  unfolding sample_mem_def
  by (rule mem.CreateAccount_registry [OF prod.collapse [symmetric] empty_mem_registry])

lemma sample_mem_created:
  "CreateAccount mem_repo sample_time ''a1'' sample_request empty_mem
    = (Inr (account_toModel (profile_record sample_time ''a1'' sample_request)), sample_mem)"
  unfolding sample_mem_def prod_eq_iff fst_conv snd_conv by (intro conjI refl) code_simp

section \<open>Properties\<close>

text \<open>C5 (CreateAccount). Registration is all or nothing: on success the identifier and the email
  were free, the profile, the default settings and the email reservation all appear, and the returned
  account is what a read now gives; \<open>ErrEmailAlreadyExists\<close> is returned only when another
  account owns the address (compared without case) and \<open>ErrAlreadyExists\<close> only when the identifier is
  in use, both with the table unchanged; any other failure leaves the table unchanged or
  the registration complete.\<close>

theorem CreateAccount_correct:
  assumes "dynamo r tbl ssl fits" and "CreateAccount r now i req s = (x, s')"
    and "registry_ok (tbl s)" and "valid_time now"
  shows "case x of
      Inr a \<Rightarrow> free i (ca_Email req) (tbl s) \<and> tbl s' = created now i req (tbl s)
        \<and> account_at (tbl s') i = Some a \<and> owns (tbl s') i (to_lower (ca_Email req))
    | Inl e \<Rightarrow> tbl s' = tbl s \<and> e = DbEmailAlreadyExists \<and> (\<exists>j. owns (tbl s) j (to_lower (ca_Email req)))
        \<or> tbl s' = tbl s \<and> e = DbAlreadyExists \<and> (tbl s (profile_key i) \<noteq> None \<or> tbl s (settings_key i) \<noteq> None)
        \<or> transport e \<and> (tbl s' = tbl s \<or> free i (ca_Email req) (tbl s) \<and> tbl s' = created now i req (tbl s))"
  using dynamo.CreateAccount_spec [OF assms(1,2)] created_account [OF assms(4), of i req "tbl s"]
    created_owns [of now i req "tbl s"] reservationE [OF assms(3), of "ca_Email req"]
  by (auto split: sum.splits)

lemma CreateAccount_correct_witness:
  "registry_ok (mem_tbl empty_mem) \<and> valid_time sample_time
    \<and> (\<exists>a. CreateAccount mem_repo sample_time ''a1'' sample_request empty_mem = (Inr a, sample_mem)
        \<and> account_at (mem_tbl sample_mem) ''a1'' = Some a
        \<and> owns (mem_tbl sample_mem) ''a1'' ''ann@x.io'')"
proof -
  have t: "valid_time sample_time" by code_simp
  have l: "to_lower (ca_Email sample_request) = ''ann@x.io''" by code_simp
  note CreateAccount_correct [OF mem.dynamo_axioms sample_mem_created empty_mem_registry t, unfolded sum.case l]
  then have "account_at (mem_tbl sample_mem) ''a1''
      = Some (account_toModel (profile_record sample_time ''a1'' sample_request))"
    "owns (mem_tbl sample_mem) ''a1'' ''ann@x.io''" by blast+
  then show ?thesis using t empty_mem_registry sample_mem_created by blast
qed

text \<open>GetAccountExistsByEmail: The existence check never answers wrongly: it says yes exactly
  when some account owns the address, whatever the letter case, and it writes nothing.\<close>

theorem GetAccountExistsByEmail_correct:
  assumes "dynamo r tbl ssl fits" and "registry_ok (tbl s)"
  shows "case GetAccountExistsByEmail r email s of (x, s') \<Rightarrow> tbl s' = tbl s \<and> (case x of
      Inr b \<Rightarrow> Exists b \<longleftrightarrow> (\<exists>i. owns (tbl s) i (to_lower email))
    | Inl e \<Rightarrow> transport e)"
  using dynamo.GetAccountExistsByEmail_spec [OF assms(1) _ assms(2)] by (auto split: prod.splits)

lemma GetAccountExistsByEmail_correct_witness:
  "fst (GetAccountExistsByEmail mem_repo ''ANN@X.io'' sample_mem) = Inr \<lparr>Exists = True\<rparr>
    \<and> (\<exists>i. owns (mem_tbl sample_mem) i (to_lower ''ANN@X.io''))"
proof -
  have run: "fst (GetAccountExistsByEmail mem_repo ''ANN@X.io'' sample_mem) = Inr \<lparr>Exists = True\<rparr>"
    by code_simp
  with GetAccountExistsByEmail_correct [OF mem.dynamo_axioms sample_mem_registry, of "''ANN@X.io''"]
  show ?thesis by (auto split: prod.splits)
qed



text \<open>C23 (UpdateAccount). A profile update changes exactly the fields given and refreshes nothing
  else: the returned account is the old one with those fields replaced, a read gives it from then
  on, and no other item of the table changes; \<open>ErrNotFound\<close> means there is no such account, and
  then nothing is created.\<close>

theorem UpdateAccount_correct:
  assumes "dynamo r tbl ssl fits" and "UpdateAccount r now i u s = (x, s')"
    and "account_at (tbl s) i = Some a" and "valid_time now"
  shows "(\<forall>k. k \<noteq> profile_key i \<longrightarrow> tbl s' k = tbl s k)
    \<and> (case x of Inr a' \<Rightarrow> a' = updated_account u a \<and> account_at (tbl s') i = Some a'
       | Inl e \<Rightarrow> transport e \<or> e = unmarshal_error)"
  using dynamo.UpdateAccount_spec [OF assms(1,2)] account_at_updated [OF assms(4,3), of _ u] assms(3)
  by (auto simp: account_at_def split: sum.splits)

definition sample_update :: update_account_request where
  "sample_update = \<lparr>ua_AvatarUrl = None, ua_FirstName = Some ''Anna'', ua_LastName = None, ua_Phone = None\<rparr>"

lemma UpdateAccount_correct_witness:
  "\<exists>a a'. account_at (mem_tbl sample_mem) ''a1'' = Some a
    \<and> fst (UpdateAccount mem_repo sample_time ''a1'' sample_update sample_mem) = Inr a'
    \<and> a' = updated_account sample_update a"
proof -
  have t: "valid_time sample_time" by code_simp
  obtain a where a: "account_at (mem_tbl sample_mem) ''a1'' = Some a"
    using mem.CreateAccount_spec [OF sample_mem_created] created_account [OF t]
    by auto
  have run: "isl (fst (UpdateAccount mem_repo sample_time ''a1'' sample_update sample_mem)) = False"
    by code_simp
  from UpdateAccount_correct [OF mem.dynamo_axioms prod.collapse [symmetric] a t, of sample_update] run a
  show ?thesis by (auto split: sum.splits)
qed

text \<open>C6 (DeleteAccount). A successful erasure is complete and exact: afterwards no item of the
  account is left in the table, its email is no longer reserved, and every item outside the
  account's partition and that reservation is as before.\<close>

theorem DeleteAccount_complete:
  assumes "dynamo r tbl ssl fits" and "registry_ok (tbl s)" and "DeleteAccount r i s = (None, s')"
  shows "\<exists>em. owns (tbl s) i em
    \<and> (\<forall>k. fst k = createPK i \<or> k = reservation_key em \<longrightarrow> tbl s' k = None)
    \<and> (\<forall>k. fst k \<noteq> createPK i \<and> k \<noteq> reservation_key em \<longrightarrow> tbl s' k = tbl s k)"
  using dynamo.DeleteAccount_spec [OF assms(1,3,2)]
  by (auto simp: erased_def erase_def part_def)

lemma DeleteAccount_complete_witness:
  "\<exists>s'. DeleteAccount mem_repo ''a1'' sample_mem = (None, s')
    \<and> (\<forall>k. fst k = createPK ''a1'' \<longrightarrow> mem_tbl s' k = None)"
proof -
  have "fst (DeleteAccount mem_repo ''a1'' sample_mem) = None" by code_simp
  then obtain s' where run: "DeleteAccount mem_repo ''a1'' sample_mem = (None, s')"
    by (metis prod.collapse)
  from DeleteAccount_complete [OF mem.dynamo_axioms sample_mem_registry run] run show ?thesis by blast
qed

text \<open>C7 (DeleteAccount). An erasure that reports an error can be retried: unless everything is
  already gone, the profile and the email reservation are untouched (identity is removed last and in
  one transaction), only other items of that account may have disappeared, and nothing of any other
  account has. When the error is not a client fault, nothing changed at all.\<close>

theorem DeleteAccount_retry:
  assumes "dynamo r tbl ssl fits" and "registry_ok (tbl s)" and "DeleteAccount r i s = (Some e, s')"
  shows "(transport e \<and> (\<exists>em. owns (tbl s) i em \<and> tbl s' = erased i em (tbl s)))
    \<or> ((\<forall>k. k = profile_key i \<or> fst k \<noteq> createPK i \<longrightarrow> tbl s' k = tbl s k)
       \<and> (\<forall>k it. tbl s' k = Some it \<longrightarrow> tbl s k = Some it)
       \<and> (\<not> transport e \<longrightarrow> tbl s' = tbl s
            \<and> (tbl s (profile_key i) = None \<and> e = DbNotFound \<or> e = DbUnreadableProfileEmail)))"
  using dynamo.DeleteAccount_spec [OF assms(1,3,2)]
proof
  assume "\<exists>em. owns (tbl s) i em \<and> em \<noteq> [] \<and> tbl s' = erased i em (tbl s)
      \<and> (\<forall>x. Some e = Some x \<longrightarrow> transport x)"
  then show ?thesis by blast
next
  assume "\<exists>x D. Some e = Some x \<and> finite D \<and> D \<subseteq> part i - {profile_key i} \<and> tbl s' = erase D (tbl s)
      \<and> (transport x \<or> D = {} \<and> (x = DbNotFound \<and> tbl s (profile_key i) = None
            \<or> x = DbUnreadableProfileEmail \<and> owns (tbl s) i []))"
  then obtain D where D: "D \<subseteq> part i - {profile_key i}" "tbl s' = erase D (tbl s)"
    "transport e \<or> D = {} \<and> (e = DbNotFound \<and> tbl s (profile_key i) = None \<or> e = DbUnreadableProfileEmail)"
    by blast
  have "\<forall>k. k = profile_key i \<or> fst k \<noteq> createPK i \<longrightarrow> tbl s' k = tbl s k"
    using D(1) unfolding D(2) erase_def part_def by auto
  moreover have "\<forall>k it. tbl s' k = Some it \<longrightarrow> tbl s k = Some it"
    by (simp add: D(2) erase_def)
  ultimately show ?thesis using D(2,3) by (metis erase_simps(1))
qed

lemma DeleteAccount_retry_witness:
  "\<exists>s'. DeleteAccount mem_repo ''a1'' (sample_mem\<lparr>m_faults := [False, False, True]\<rparr>) = (Some injected, s')
    \<and> mem_tbl s' (profile_key ''a1'') = mem_tbl sample_mem (profile_key ''a1'')
    \<and> mem_tbl sample_mem (profile_key ''a1'') \<noteq> None"
proof -
  let ?s = "sample_mem\<lparr>m_faults := [False, False, True]\<rparr>"
  have e: "fst (DeleteAccount mem_repo ''a1'' ?s) = Some injected" by code_simp
  then obtain s' where run: "DeleteAccount mem_repo ''a1'' ?s = (Some injected, s')"
    by (metis prod.collapse)
  have kept: "\<not> Option.is_none (mem_tbl (snd (DeleteAccount mem_repo ''a1'' ?s)) (createPK ''a1'', ''PROFILE''))"
    by code_simp
  have ok: "registry_ok (mem_tbl ?s)" using sample_mem_registry by simp
  have pk: "mem_tbl s' (profile_key ''a1'') \<noteq> None"
    using kept run by (simp add: profile_key_def Option.is_none_def)
  have gone: "erased ''a1'' em tb (profile_key ''a1'') = None" for em tb
    by (simp add: erased_def erase_def part_def)
  from DeleteAccount_retry [OF mem.dynamo_axioms ok run]
  have "mem_tbl s' (profile_key ''a1'') = mem_tbl ?s (profile_key ''a1'')"
  proof (elim disjE conjE exE)
    fix em assume "mem_tbl s' = erased ''a1'' em (mem_tbl ?s)"
    with pk gone show ?thesis by simp
  qed blast
  with pk run show ?thesis by auto
qed

end
