(* ===== verification/Settings_Db.thy ===== *)
theory Settings_Db
  imports Account_Db
begin

text \<open>
  \<open>internal/db/settings.go\<close>: the settings record, its optimistic concurrency control (a
  write names the version it expects and stores the next one) and the tag mutation.
\<close>

section \<open>Record\<close>

record settings_record =
  sr_PK :: string
  sr_SK :: string
  sr_EmailVerified :: bool
  sr_EmailVerifiedAt :: "gtime option"
  sr_PhoneVerified :: bool
  sr_PhoneVerifiedAt :: "gtime option"
  sr_Status :: string
  sr_StatusReason :: string
  sr_StatusChangedAt :: "gtime option"
  sr_Tags :: "string list"
  sr_Version :: go_int

definition put_time :: "string \<Rightarrow> gtime option \<Rightarrow> item \<Rightarrow> item" where
  "put_time a t it = (case t of None \<Rightarrow> it | Some x \<Rightarrow> it(a \<mapsto> av_time x))"

definition marshal_settings :: "settings_record \<Rightarrow> item" where
  "marshal_settings d =
     omitempty (sr_Tags d = []) ''tags'' (AvSS (sr_Tags d))
    (put_time ''status_changed_at'' (sr_StatusChangedAt d)
    (omitempty (sr_StatusReason d = []) ''status_reason'' (AvS (sr_StatusReason d))
    (put_time ''phone_verified_at'' (sr_PhoneVerifiedAt d)
    (put_time ''email_verified_at'' (sr_EmailVerifiedAt d)
      [''PK'' \<mapsto> AvS (sr_PK d), ''SK'' \<mapsto> AvS (sr_SK d),
       ''email_verified'' \<mapsto> AvBOOL (sr_EmailVerified d),
       ''phone_verified'' \<mapsto> AvBOOL (sr_PhoneVerified d),
       ''status'' \<mapsto> AvS (sr_Status d), ''version'' \<mapsto> av_int (sr_Version d)]))))"

definition unmarshal_settings :: "item \<Rightarrow> settings_record option" where
  "unmarshal_settings it = do {
     pk \<leftarrow> field av_to_str [] ''PK'' it;
     sk \<leftarrow> field av_to_str [] ''SK'' it;
     email_verified \<leftarrow> field av_to_bool False ''email_verified'' it;
     email_verified_at \<leftarrow> field av_to_time_ptr None ''email_verified_at'' it;
     phone_verified \<leftarrow> field av_to_bool False ''phone_verified'' it;
     phone_verified_at \<leftarrow> field av_to_time_ptr None ''phone_verified_at'' it;
     status \<leftarrow> field av_to_str [] ''status'' it;
     status_reason \<leftarrow> field av_to_str [] ''status_reason'' it;
     status_changed_at \<leftarrow> field av_to_time_ptr None ''status_changed_at'' it;
     tags \<leftarrow> field av_to_strs [] ''tags'' it;
     version \<leftarrow> field av_to_int 0 ''version'' it;
     Some \<lparr>sr_PK = pk, sr_SK = sk, sr_EmailVerified = email_verified,
       sr_EmailVerifiedAt = email_verified_at, sr_PhoneVerified = phone_verified,
       sr_PhoneVerifiedAt = phone_verified_at, sr_Status = status, sr_StatusReason = status_reason,
       sr_StatusChangedAt = status_changed_at, sr_Tags = tags, sr_Version = version\<rparr> }"

definition settings_toModel :: "settings_record \<Rightarrow> account_settings" where
  "settings_toModel d = \<lparr>st_EmailVerified = Some (sr_EmailVerified d),
     st_EmailVerifiedAt = sr_EmailVerifiedAt d, st_PhoneVerified = Some (sr_PhoneVerified d),
     st_PhoneVerifiedAt = sr_PhoneVerifiedAt d, st_Status = sr_Status d,
     st_StatusChangedAt = sr_StatusChangedAt d, st_StatusReason = optStr (sr_StatusReason d),
     st_Tags = ptrSlice (sr_Tags d), st_Version = sr_Version d\<rparr>"

definition settingsRecordFrom :: "string \<Rightarrow> string \<Rightarrow> account_settings \<Rightarrow> settings_record" where
  "settingsRecordFrom pk sk st = \<lparr>sr_PK = pk, sr_SK = sk,
     sr_EmailVerified = deref False (st_EmailVerified st), sr_EmailVerifiedAt = st_EmailVerifiedAt st,
     sr_PhoneVerified = deref False (st_PhoneVerified st), sr_PhoneVerifiedAt = st_PhoneVerifiedAt st,
     sr_Status = st_Status st, sr_StatusReason = deref [] (st_StatusReason st),
     sr_StatusChangedAt = st_StatusChangedAt st, sr_Tags = derefSlice (st_Tags st),
     sr_Version = st_Version st\<rparr>"

section \<open>Operations\<close>

definition GetSettings :: "'s repo \<Rightarrow> string \<Rightarrow> 's \<Rightarrow> (error + account_settings) \<times> 's" where
  "GetSettings r accountID s = (case BuildKey (client r) ''PK'' (createPK accountID) ''SK'' settingsSK of
     Inl e \<Rightarrow> (Inl e, s)
   | Inr key \<Rightarrow> (case GetItemAs r unmarshal_settings key s of
       (Inl e, s') \<Rightarrow> (Inl e, s')
     | (Inr d, s') \<Rightarrow> (Inr (settings_toModel d), s')))"

text \<open>The maps start with the two version placeholders; \<open>"#v = :newV"\<close> is the last clause.\<close>

definition version_exprs :: "go_int \<Rightarrow> expr_build" where
  "version_exprs version = \<lparr>setClauses = [],
     exprValues = ['':expected'' \<mapsto> AvN (sint version), '':newV'' \<mapsto> AvN (sint (version + 1))],
     exprNames = [''#v'' \<mapsto> ''version'']\<rparr>"

definition set_status :: "gtime \<Rightarrow> string option \<Rightarrow> expr_build \<Rightarrow> expr_build" where
  "set_status now status b = (case status of None \<Rightarrow> b
     | Some st \<Rightarrow> add_set ''#scat'' '':scat'' ''status_changed_at'' (av_time now)
                  (add_set ''#st'' '':st'' ''status'' (AvS st) b))"

definition add_clause :: "string \<Rightarrow> expr_build \<Rightarrow> expr_build" where
  "add_clause c b = b\<lparr>setClauses := setClauses b @ [c]\<rparr>"

definition settings_exprs :: "gtime \<Rightarrow> update_settings_request \<Rightarrow> go_int \<Rightarrow> expr_build" where
  "settings_exprs now req version =
     add_clause ''#v = :newV''
    (add_set ''#ua'' '':ua'' ''updated_at'' (av_time now)
    (set_field ''#sr'' '':sr'' ''status_reason'' AvS (us_StatusReason req)
    (set_status now (us_Status req)
    (set_field ''#pvat'' '':pvat'' ''phone_verified_at'' av_time (us_PhoneVerifiedAt req)
    (set_field ''#pv'' '':pv'' ''phone_verified'' AvBOOL (us_PhoneVerified req)
    (set_field ''#evat'' '':evat'' ''email_verified_at'' av_time (us_EmailVerifiedAt req)
    (set_field ''#ev'' '':ev'' ''email_verified'' AvBOOL (us_EmailVerified req)
       (version_exprs version))))))))"

definition settingsConditionFailureError :: "'s repo \<Rightarrow> item \<Rightarrow> 's \<Rightarrow> error \<times> 's" where
  "settingsConditionFailureError r key s = (case GetItemAs r unmarshal_settings key s of
     (Inl e, s') \<Rightarrow> if e = DbNotFound then (DbNotFound, s') else (e, s')
   | (Inr _, s') \<Rightarrow> (DbVersionConflict, s'))"

definition UpdateSettingsPartial ::
  "'s repo \<Rightarrow> gtime \<Rightarrow> string \<Rightarrow> update_settings_request \<Rightarrow> go_int \<Rightarrow> 's \<Rightarrow> error option \<times> 's" where
  "UpdateSettingsPartial r now accountID req version s =
     (case BuildKey (client r) ''PK'' (createPK accountID) ''SK'' settingsSK of
        Inl e \<Rightarrow> (Some e, s)
      | Inr key \<Rightarrow>
          (let b = settings_exprs now req version
           in case UpdateItem (client r) (tab r) key (set_expr b) (exprValues b) (exprNames b)
                (Some ''attribute_exists(SK) AND #v = :expected'') s of
                (Inr _, s') \<Rightarrow> (None, s')
              | (Inl e, s') \<Rightarrow>
                  if e = ConditionalCheckFailed
                  then (case settingsConditionFailureError r key s' of (e', s'') \<Rightarrow> (Some e', s''))
                  else (Some e, s')))"

definition UpdateSettings :: "'s repo \<Rightarrow> string \<Rightarrow> account_settings \<Rightarrow> 's \<Rightarrow> error option \<times> 's" where
  "UpdateSettings r accountID st s =
     WriteItem (client r) (tab r) (marshal_settings (settingsRecordFrom (createPK accountID) settingsSK st)) None s"

definition MutateSettingsTags ::
  "'s repo \<Rightarrow> string \<Rightarrow> update_settings_tags_request \<Rightarrow> go_int \<Rightarrow> 's \<Rightarrow> error option \<times> 's" where
  "MutateSettingsTags r accountID req version s =
     (let add = derefSlice (ut_Add req); remove = derefSlice (ut_Remove req)
      in if length add = 0 \<and> length remove = 0 then (None, s)
         else (case BuildKey (client r) ''PK'' (createPK accountID) ''SK'' settingsSK of
             Inl e \<Rightarrow> (Some e, s)
           | Inr key \<Rightarrow>
               (let values = ['':expected'' \<mapsto> AvN (sint version), '':newV'' \<mapsto> AvN (sint (version + 1))];
                    clauses = [''SET #v = :newV''];
                    (clauses1, values1) = (if length add > 0
                      then (clauses @ [''ADD #tags :addSet''], values('':addSet'' \<mapsto> AvSS add))
                      else (clauses, values));
                    (clauses2, values2) = (if length remove > 0
                      then (clauses1 @ [''DELETE #tags :removeSet''], values1('':removeSet'' \<mapsto> AvSS remove))
                      else (clauses1, values1))
                in case UpdateItem (client r) (tab r) key (join '' '' clauses2) values2
                     [''#tags'' \<mapsto> ''tags'', ''#v'' \<mapsto> ''version'']
                     (Some ''attribute_exists(SK) AND #v = :expected'') s of
                     (Inr _, s') \<Rightarrow> (None, s')
                   | (Inl e, s') \<Rightarrow>
                       if e = ConditionalCheckFailed
                       then (case settingsConditionFailureError r key s' of (e', s'') \<Rightarrow> (Some e', s''))
                       else (Some e, s'))))"

section \<open>The abstract view of the settings\<close>

definition settings_at :: "table \<Rightarrow> string \<Rightarrow> account_settings option" where
  "settings_at tb i = Option.bind (tb (settings_key i)) (\<lambda>it. map_option settings_toModel (unmarshal_settings it))"

text \<open>The stored version, and the two conditions an optimistic write depends on.\<close>

definition version_is :: "table \<Rightarrow> string \<Rightarrow> go_int \<Rightarrow> bool" where
  "version_is tb i v \<longleftrightarrow> (\<exists>it. tb (settings_key i) = Some it \<and> it ''version'' = Some (AvN (sint v)))"

definition expected_cond :: cond where
  "expected_cond = [AttrExists ''SK'', NameEq ''#v'' '':expected'']"

definition settings_clauses :: "gtime \<Rightarrow> update_settings_request \<Rightarrow> clause list" where
  "settings_clauses now req =
     opt_clause ''#ev'' '':ev'' ''email_verified'' AvBOOL (us_EmailVerified req)
   @ opt_clause ''#evat'' '':evat'' ''email_verified_at'' av_time (us_EmailVerifiedAt req)
   @ opt_clause ''#pv'' '':pv'' ''phone_verified'' AvBOOL (us_PhoneVerified req)
   @ opt_clause ''#pvat'' '':pvat'' ''phone_verified_at'' av_time (us_PhoneVerifiedAt req)
   @ opt_clause ''#st'' '':st'' ''status'' AvS (us_Status req)
   @ opt_clause ''#scat'' '':scat'' ''status_changed_at'' (\<lambda>_. av_time now) (us_Status req)
   @ opt_clause ''#sr'' '':sr'' ''status_reason'' AvS (us_StatusReason req)
   @ [(''#ua'', '':ua'', ''updated_at'', av_time now)]"

definition version_clause :: "go_int \<Rightarrow> clause" where
  "version_clause version = (''#v'', '':newV'', ''version'', AvN (sint (version + 1)))"

lemma render_expected: "render_cond expected_cond = ''attribute_exists(SK) AND #v = :expected''"
  by (simp add: expected_cond_def render_cond_def)

lemma set_field_version:
  "set_field n v a f p (version_exprs ver) = build_on (version_exprs ver) (opt_clause n v a f p)"
  by (simp add: set_field_def opt_clause_def build_on_def clause_defs split: option.splits)

lemma settings_exprs_build_on:
  "settings_exprs now req version =
    (build_on (version_exprs version) (settings_clauses now req))\<lparr>setClauses :=
       setClauses (build_on (version_exprs version) (settings_clauses now req)) @ [''#v = :newV'']\<rparr>"
  by (cases "us_Status req")
    (simp_all add: settings_exprs_def add_clause_def set_status_def set_field_version settings_clauses_def)

lemma good_settings_clauses: "good_clauses (settings_clauses now req @ [version_clause v])"
proof -
  have "settings_clauses now req @ [version_clause v] = opts
    [(''#ev'', '':ev'', ''email_verified'', map_option AvBOOL (us_EmailVerified req)),
     (''#evat'', '':evat'', ''email_verified_at'', map_option av_time (us_EmailVerifiedAt req)),
     (''#pv'', '':pv'', ''phone_verified'', map_option AvBOOL (us_PhoneVerified req)),
     (''#pvat'', '':pvat'', ''phone_verified_at'', map_option av_time (us_PhoneVerifiedAt req)),
     (''#st'', '':st'', ''status'', map_option AvS (us_Status req)),
     (''#scat'', '':scat'', ''status_changed_at'', map_option (\<lambda>_. av_time now) (us_Status req)),
     (''#sr'', '':sr'', ''status_reason'', map_option AvS (us_StatusReason req)),
     (''#ua'', '':ua'', ''updated_at'', Some (av_time now)),
     (''#v'', '':newV'', ''version'', Some (AvN (sint (v + 1))))]"
    by (simp add: settings_clauses_def version_clause_def opts_opt opts_Some del: opts.simps(2))
  then show ?thesis
    by (simp only:) (rule good_opts, simp_all add: opts_opt opts_Some token_def del: opts.simps(2))
qed

lemma settings_clauses_keys:
  "''#v'' \<notin> cl_n ` set (settings_clauses now req)"
  "'':newV'' \<notin> cl_v ` set (settings_clauses now req)"
  "'':expected'' \<notin> cl_v ` set (settings_clauses now req)"
  by (auto simp: settings_clauses_def clause_defs)

lemma settings_exprs_build:
  assumes qs_def: "qs = settings_clauses now req @ [version_clause version]"
  shows "set_expr (settings_exprs now req version) = set_expr (build qs)"
    and "exprNames (settings_exprs now req version) = exprNames (build qs)"
    and "exprValues (settings_exprs now req version)
      = exprValues (build qs) ++ ['':expected'' \<mapsto> AvN (sint version)]"
proof -
  let ?q = "settings_clauses now req"
  have q: "build qs = add_set ''#v'' '':newV'' ''version'' (AvN (sint (version + 1))) (build ?q)"
    by (simp add: qs_def version_clause_def)
  show "set_expr (settings_exprs now req version) = set_expr (build qs)"
    unfolding q settings_exprs_build_on by (simp add: set_expr_def build_on_fields add_set_def version_exprs_def)
  have n: "exprNames (build ?q) ''#v'' = None" "exprValues (build ?q) '':newV'' = None"
    "exprValues (build ?q) '':expected'' = None"
    using settings_clauses_keys [of now req] unfolding dom_build [symmetric] by (auto simp: dom_def)
  show "exprNames (settings_exprs now req version) = exprNames (build qs)"
    unfolding q settings_exprs_build_on
    using n(1) by (auto simp: build_on_fields add_set_def version_exprs_def map_add_def fun_eq_iff split: option.splits)
  show "exprValues (settings_exprs now req version)
      = exprValues (build qs) ++ ['':expected'' \<mapsto> AvN (sint version)]"
    unfolding q settings_exprs_build_on
    using n(2,3) by (auto simp: build_on_fields add_set_def version_exprs_def map_add_def fun_eq_iff split: option.splits)
qed

lemma expected_atoms:
  "cond_atoms (Some expected_cond) = expected_cond" "expected_cond \<noteq> []" "list_all catom_ok expected_cond"
  "concat (map catom_names expected_cond) = [''#v'']" "concat (map catom_vals expected_cond) = ['':expected'']"
  by (simp_all add: expected_cond_def cond_atoms_def plain_def)

lemma eval_expected:
  assumes "nm ''#v'' = Some ''version''" "vl '':expected'' = Some (AvN (sint v))"
    and "\<forall>it. tb (settings_key i) = Some it \<longrightarrow> it ''SK'' \<noteq> None"
  shows "eval_cond nm vl (tb (settings_key i)) (Some expected_cond) \<longleftrightarrow> version_is tb i v"
  using assms by (cases "tb (settings_key i)") (auto simp: eval_cond_def expected_cond_def version_is_def)

text \<open>What an optimistic write does: on a version match it stores \<open>f\<close> of the item (and a fault may be
  reported although it did); otherwise nothing changes and the error tells why.\<close>

definition optimistic :: "string \<Rightarrow> go_int \<Rightarrow> (item \<Rightarrow> item) \<Rightarrow> table \<Rightarrow> error option \<Rightarrow> table \<Rightarrow> bool" where
  "optimistic i v f tb e tb' \<longleftrightarrow>
     (\<exists>it. tb (settings_key i) = Some it \<and> version_is tb i v \<and> tb' = tb(settings_key i \<mapsto> f it)
        \<and> (\<forall>x. e = Some x \<longrightarrow> transport x))
   \<or> tb' = tb \<and> (\<exists>x. e = Some x \<and> (transport x \<or> x = unmarshal_error
        \<or> x = DbNotFound \<and> tb (settings_key i) = None
        \<or> x = DbVersionConflict \<and> tb (settings_key i) \<noteq> None \<and> \<not> version_is tb i v))"

context dynamo
begin

lemma GetSettings_spec:
  assumes "GetSettings r i s = (x, s')"
  shows "tbl s' = tbl s \<and> (case x of
      Inr a \<Rightarrow> settings_at (tbl s) i = Some a
    | Inl e \<Rightarrow> e = DbNotFound \<and> tbl s (settings_key i) = None \<or> transport e \<or> e = unmarshal_error)"
proof (cases rule: build_key_cases [where p = "createPK i" and k = settingsSK])
  case key
  obtain y s1 where g: "GetItem (client r) (tab r) (mk_key (createPK i) settingsSK) s = (y, s1)" by fastforce
  from get_item [OF g] g key assms show ?thesis
    by (auto simp: GetSettings_def GetItemAs_def settings_key_def settings_at_def
        split: sum.splits option.splits)
next
  case (failed m)
  with assms show ?thesis by (auto simp: GetSettings_def)
qed

lemma condition_failure_spec:
  assumes "settingsConditionFailureError r (mk_key (createPK i) settingsSK) s = (e, s')"
  shows "tbl s' = tbl s \<and> (transport e \<or> e = unmarshal_error
    \<or> e = DbNotFound \<and> tbl s (settings_key i) = None
    \<or> e = DbVersionConflict \<and> tbl s (settings_key i) \<noteq> None)"
proof -
  obtain y s1 where g: "GetItem (client r) (tab r) (mk_key (createPK i) settingsSK) s = (y, s1)" by fastforce
  from get_item [OF g] g assms show ?thesis
    by (auto simp: settingsConditionFailureError_def GetItemAs_def settings_key_def
        split: sum.splits option.splits if_splits)
qed

lemma version_is_old: "version_is (tbl s) i v \<longleftrightarrow>
    (\<exists>it. tbl s (settings_key i) = Some it \<and> old_or_new (settings_key i) s = it \<and> version_is (tbl s) i v)"
  by (auto simp: version_is_def old_or_new_def)

lemma optimistic_step:
  assumes sp: "write_spec (version_is (tbl s) i v) (settings_key i) (Some (f (old_or_new (settings_key i) s))) (tbl s)
      (err_of x) (tbl s1)"
    and run: "(case x of Inr it \<Rightarrow> (None, s1) | Inl e \<Rightarrow>
      if e = ConditionalCheckFailed
      then (case settingsConditionFailureError r (mk_key (createPK i) settingsSK) s1 of (e', s'') \<Rightarrow> (Some e', s''))
      else (Some e, s1)) = (e, s')"
  shows "optimistic i v f (tbl s) e (tbl s')"
proof (cases x)
  case (Inr it)
  with sp run version_is_old [of s i v] show ?thesis by (auto simp: optimistic_def write_spec_def)
next
  case (Inl g)
  show ?thesis
  proof (cases "g = ConditionalCheckFailed")
    case True
    obtain e' s2 where c: "settingsConditionFailureError r (mk_key (createPK i) settingsSK) s1 = (e', s2)"
      by fastforce
    from condition_failure_spec [OF c] sp run Inl True c show ?thesis
      by (auto simp: optimistic_def write_spec_def)
  next
    case False
    with sp run Inl version_is_old [of s i v] show ?thesis by (auto simp: optimistic_def write_spec_def)
  qed
qed

lemma eval_expected_tbl:
  "nm ''#v'' = Some ''version'' \<Longrightarrow> vl '':expected'' = Some (AvN (sint v)) \<Longrightarrow>
    eval_cond nm vl (tbl s (settings_key i)) (Some expected_cond) \<longleftrightarrow> version_is (tbl s) i v"
  using tbl_key [of s "settings_key i"] by (intro eval_expected) auto

lemma UpdateSettingsPartial_spec:
  assumes "UpdateSettingsPartial r now i req v s = (e, s')"
  shows "optimistic i v (assign (settings_clauses now req @ [version_clause v])) (tbl s) e (tbl s')"
proof (cases rule: build_key_cases [where p = "createPK i" and k = settingsSK])
  case key
  define qs where "qs = settings_clauses now req @ [version_clause v]"
  note ex = settings_exprs_build [OF qs_def]
  let ?extra = "['':expected'' \<mapsto> AvN (sint v)]"
  have good: "good_clauses qs" unfolding qs_def by (rule good_settings_clauses)
  have ne: "qs \<noteq> []" by (simp add: qs_def)
  obtain x s1 where u: "UpdateItem (client r) (tab r) (mk_key (createPK i) settingsSK) (set_expr (build qs))
      (exprValues (build qs) ++ ?extra) (exprNames (build qs))
      (Some ''attribute_exists(SK) AND #v = :expected'') s = (x, s1)" by fastforce
  have v: "'':expected'' \<notin> cl_v ` set qs" "''#v'' \<in> cl_n ` set qs"
    using settings_clauses_keys(3) by (auto simp: qs_def version_clause_def clause_defs)
  have valid: "valid_upd (sets_only qs) (exprNames (build qs)) (exprValues (build qs) ++ ?extra) (Some expected_cond)"
    by (rule valid_build [OF good]) (use v in \<open>simp_all add: expected_atoms token_def\<close>)
  have app: "apply_uexpr ssl (exprNames (build qs)) (exprValues (build qs) ++ ?extra) (sets_only qs)
      (old_or_new (createPK i, settingsSK) s) = assign qs (old_or_new (createPK i, settingsSK) s)"
    by (rule apply_build [OF good]) (use v in simp)
  have nm: "exprNames (build qs) ''#v'' = Some ''version''"
    using build_lookup(1) [of "version_clause v" qs] good
    by (simp add: good_clauses_def qs_def version_clause_def clause_defs)
  from upd_spec(1) [OF u [unfolded set_expr_build [OF ne]] _ valid app, unfolded option.map render_expected]
  have "write_spec (version_is (tbl s) i v) (settings_key i)
      (Some (assign qs (old_or_new (settings_key i) s))) (tbl s) (err_of x) (tbl s1)"
    using eval_expected_tbl [where nm = "exprNames (build qs)" and vl = "exprValues (build qs) ++ ?extra"
        and v = v and s = s and i = i] nm
    by (simp add: settings_key_def)
  then show ?thesis
    using assms key u unfolding qs_def [symmetric]
    by (intro optimistic_step) (simp_all add: UpdateSettingsPartial_def Let_def ex)
next
  case (failed m)
  with assms show ?thesis by (auto simp: UpdateSettingsPartial_def optimistic_def)
qed
end

section \<open>Tag mutation\<close>

definition tags_of :: "item \<Rightarrow> string set" where
  "tags_of it = set (av_ss (it ''tags''))"

definition tag_expr :: "string list \<Rightarrow> string list \<Rightarrow> uexpr" where
  "tag_expr add remove = UExpr [(''#v'', '':newV'')]
     (if add = [] then [] else [(''#tags'', '':addSet'')])
     (if remove = [] then [] else [(''#tags'', '':removeSet'')])"

definition tag_names :: "string \<rightharpoonup> string" where
  "tag_names = [''#tags'' \<mapsto> ''tags'', ''#v'' \<mapsto> ''version'']"

definition tag_values :: "go_int \<Rightarrow> string list \<Rightarrow> string list \<Rightarrow> string \<rightharpoonup> av" where
  "tag_values v add remove = ['':expected'' \<mapsto> AvN (sint v), '':newV'' \<mapsto> AvN (sint (v + 1))]
     ++ (if add = [] then Map.empty else ['':addSet'' \<mapsto> AvSS add])
     ++ (if remove = [] then Map.empty else ['':removeSet'' \<mapsto> AvSS remove])"

lemma MutateSettingsTags_alt:
  "MutateSettingsTags r i req v s =
     (let add = derefSlice (ut_Add req); remove = derefSlice (ut_Remove req)
      in if add = [] \<and> remove = [] then (None, s)
         else case BuildKey (client r) ''PK'' (createPK i) ''SK'' settingsSK of
             Inl e \<Rightarrow> (Some e, s)
           | Inr key \<Rightarrow> case UpdateItem (client r) (tab r) key (render_uexpr (tag_expr add remove))
                (tag_values v add remove) tag_names (Some (render_cond expected_cond)) s of
                (x, s1) \<Rightarrow> (case x of Inr it \<Rightarrow> (None, s1) | Inl e \<Rightarrow>
                  if e = ConditionalCheckFailed
                  then (case settingsConditionFailureError r key s1 of (e', s'') \<Rightarrow> (Some e', s''))
                  else (Some e, s1)))"
proof -
  have "render_uexpr (tag_expr add remove) = join '' '' ([''SET #v = :newV'']
      @ (if add = [] then [] else [''ADD #tags :addSet''])
      @ (if remove = [] then [] else [''DELETE #tags :removeSet'']))" for add remove
    by (simp add: render_uexpr_def tag_expr_def render_set_def render_pair_def)
  then show ?thesis
    by (auto simp: MutateSettingsTags_def Let_def render_expected tag_names_def tag_values_def
        split: sum.splits prod.splits)
qed

text \<open>The effect on the settings item when tags are added, or removed.\<close>

definition retag :: "(string set \<Rightarrow> string list) \<Rightarrow> go_int \<Rightarrow> string list \<Rightarrow> string list \<Rightarrow> item \<Rightarrow> item" where
  "retag ssl v add remove it = apply_uexpr ssl tag_names (tag_values v add remove) (tag_expr add remove) it"

lemma valid_tag_expr:
  assumes "add = [] \<and> remove \<noteq> [] \<and> distinct remove \<or> remove = [] \<and> add \<noteq> [] \<and> distinct add"
  shows "valid_upd (tag_expr add remove) tag_names (tag_values v add remove) (Some expected_cond)"
  using assms
  by (auto simp: valid_upd_def tag_expr_def tag_names_def tag_values_def u_pairs_def used_names_def
      used_vals_def expected_atoms token_def good_ss_def)

lemma retag_add:
  assumes "\<And>A. finite A \<Longrightarrow> set (ssl A) = A \<and> distinct (ssl A)" and "add \<noteq> []"
  shows "tags_of (retag ssl v add [] it) = tags_of it \<union> set add"
    and "retag ssl v add [] it ''version'' = Some (AvN (sint (v + 1)))"
    and "a \<noteq> ''tags'' \<Longrightarrow> a \<noteq> ''version'' \<Longrightarrow> retag ssl v add [] it a = it a"
  using assms by (simp_all add: retag_def apply_uexpr_def tag_expr_def tag_names_def tag_values_def
      tags_of_def)

lemma retag_remove:
  assumes "\<And>A. finite A \<Longrightarrow> set (ssl A) = A \<and> distinct (ssl A)" and "remove \<noteq> []"
  shows "tags_of (retag ssl v [] remove it) = tags_of it - set remove"
    and "retag ssl v [] remove it ''version'' = Some (AvN (sint (v + 1)))"
    and "a \<noteq> ''tags'' \<Longrightarrow> a \<noteq> ''version'' \<Longrightarrow> retag ssl v [] remove it a = it a"
  using assms by (simp_all add: retag_def apply_uexpr_def tag_expr_def tag_names_def tag_values_def
      tags_of_def Let_def)

context dynamo
begin

lemma MutateSettingsTags_spec:
  assumes run: "MutateSettingsTags r i req v s = (e, s')"
    and add: "add = derefSlice (ut_Add req)" and remove: "remove = derefSlice (ut_Remove req)"
    and one: "add = [] \<and> remove \<noteq> [] \<and> distinct remove \<or> remove = [] \<and> add \<noteq> [] \<and> distinct add"
  shows "optimistic i v (retag ssl v add remove) (tbl s) e (tbl s')"
proof (cases rule: build_key_cases [where p = "createPK i" and k = settingsSK])
  case key
  obtain x s1 where u: "UpdateItem (client r) (tab r) (mk_key (createPK i) settingsSK)
      (render_uexpr (tag_expr add remove)) (tag_values v add remove) tag_names
      (Some (render_cond expected_cond)) s = (x, s1)" by fastforce
  have nm: "tag_names ''#v'' = Some ''version''" "tag_values v add remove '':expected'' = Some (AvN (sint v))"
    by (simp_all add: tag_names_def tag_values_def)
  from upd_spec(1) [OF u _ valid_tag_expr [OF one] refl, unfolded option.map]
  have "write_spec (version_is (tbl s) i v) (settings_key i)
      (Some (retag ssl v add remove (old_or_new (settings_key i) s))) (tbl s) (err_of x) (tbl s1)"
    using eval_expected_tbl [where nm = tag_names and vl = "tag_values v add remove" and v = v and s = s and i = i] nm
    by (simp add: settings_key_def retag_def)
  then show ?thesis
    using run key u one unfolding MutateSettingsTags_alt Let_def add [symmetric] remove [symmetric]
    by (intro optimistic_step) auto
next
  case (failed m)
  with run one show ?thesis
    unfolding MutateSettingsTags_alt Let_def add [symmetric] remove [symmetric]
    by (auto simp: optimistic_def)
qed

text \<open>Adding and removing in one request addresses the path \<open>#tags\<close> twice; the service
  rejects such an expression.\<close>

lemma MutateSettingsTags_both:
  assumes run: "MutateSettingsTags r i req v s = (e, s')"
    and "derefSlice (ut_Add req) \<noteq> []" "derefSlice (ut_Remove req) \<noteq> []"
  shows "tbl s' = tbl s \<and> (\<exists>m. e = Some (Transport m))"
proof (cases rule: build_key_cases [where p = "createPK i" and k = settingsSK])
  case key
  define add where add: "add = derefSlice (ut_Add req)"
  define remove where remove: "remove = derefSlice (ut_Remove req)"
  obtain x s1 where u: "UpdateItem (client r) (tab r) (mk_key (createPK i) settingsSK)
      (render_uexpr (tag_expr add remove)) (tag_values v add remove) tag_names
      (map_option render_cond (Some expected_cond)) s = (x, s1)" by fastforce
  have "\<not> distinct (map (\<lambda>p. the (tag_names (fst p))) (u_pairs (tag_expr add remove)))"
    "well_formed_expr (tag_expr add remove) (Some expected_cond)"
    using assms(2,3) unfolding add [symmetric] remove [symmetric]
    by (simp_all add: tag_expr_def u_pairs_def tag_names_def well_formed_expr_def used_names_def
        used_vals_def expected_atoms token_def)
  from update_overlap [OF u this] u key run assms(2,3) show ?thesis
    unfolding MutateSettingsTags_alt Let_def add [symmetric] remove [symmetric] by auto
next
  case (failed m)
  with run assms(2,3) show ?thesis by (auto simp: MutateSettingsTags_alt Let_def)
qed

lemma UpdateSettings_spec:
  assumes "UpdateSettings r i st s = (e, s')"
  shows "write_spec True (settings_key i)
    (Some (marshal_settings (settingsRecordFrom (createPK i) settingsSK st))) (tbl s) e (tbl s')"
proof -
  have k: "marshal_settings d ''PK'' = Some (AvS (sr_PK d))" "marshal_settings d ''SK'' = Some (AvS (sr_SK d))" for d
    by (simp_all add: marshal_settings_def omitempty_def put_time_def split: option.splits)
  show ?thesis
    using put_spec [OF assms [unfolded UpdateSettings_def], of None "createPK i" settingsSK]
    by (simp add: k settingsRecordFrom_def settings_key_def eval_cond_def)
qed

end

section \<open>What a settings write means for readers\<close>

lemma optimistic_registry:
  assumes "optimistic i v f tb e tb'" and "registry_ok tb" and "\<forall>it. f it ''GSI1SK'' = it ''GSI1SK''"
  shows "registry_ok tb'"
  using assms registry_neutral_upd [OF assms(2), of "settings_key i"] by (auto simp: optimistic_def)

lemma opt_upd_other: "a \<noteq> b \<Longrightarrow> (case p of None \<Rightarrow> it | Some y \<Rightarrow> it(b \<mapsto> g y)) a = it a"
  by (simp split: option.split)

lemma settings_assign_GSI:
  "assign (settings_clauses now req @ [version_clause v]) it ''GSI1SK'' = it ''GSI1SK''"
  by (simp add: settings_clauses_def version_clause_def opt_upd_other)

lemma retag_GSI: "retag ssl v add remove it ''GSI1SK'' = it ''GSI1SK''"
  by (simp add: retag_def apply_uexpr_def tag_expr_def tag_names_def Let_def)

context dynamo
begin

lemma settings_registry:
  "UpdateSettingsPartial r now i req v s = (e, s') \<Longrightarrow> registry_ok (tbl s) \<Longrightarrow> registry_ok (tbl s')"
  using UpdateSettingsPartial_spec optimistic_registry settings_assign_GSI by blast

lemma UpdateSettings_registry:
  assumes "UpdateSettings r i st s = (e, s')" and ok: "registry_ok (tbl s)"
  shows "registry_ok (tbl s')"
proof -
  have "marshal_settings d ''GSI1SK'' = None" for d
    by (simp add: marshal_settings_def omitempty_def put_time_def split: option.splits)
  with UpdateSettings_spec [OF assms(1)] registry_neutral [OF ok, of "settings_key i"] ok show ?thesis
    by (auto simp: write_spec_def split: option.splits)
qed

end

definition updated_settings :: "gtime \<Rightarrow> update_settings_request \<Rightarrow> account_settings \<Rightarrow> account_settings" where
  "updated_settings now req a = a\<lparr>
     st_EmailVerified := (case us_EmailVerified req of None \<Rightarrow> st_EmailVerified a | Some b \<Rightarrow> Some b),
     st_EmailVerifiedAt := (case us_EmailVerifiedAt req of None \<Rightarrow> st_EmailVerifiedAt a | Some t \<Rightarrow> Some t),
     st_PhoneVerified := (case us_PhoneVerified req of None \<Rightarrow> st_PhoneVerified a | Some b \<Rightarrow> Some b),
     st_PhoneVerifiedAt := (case us_PhoneVerifiedAt req of None \<Rightarrow> st_PhoneVerifiedAt a | Some t \<Rightarrow> Some t),
     st_Status := opt_or (st_Status a) (us_Status req),
     st_StatusChangedAt := (case us_Status req of None \<Rightarrow> st_StatusChangedAt a | Some _ \<Rightarrow> Some now),
     st_StatusReason := (case us_StatusReason req of None \<Rightarrow> st_StatusReason a | Some x \<Rightarrow> optStr x),
     st_Version := st_Version a + 1\<rparr>"

lemma unmarshal_settings_iff:
  "unmarshal_settings it = Some d \<longleftrightarrow>
     field av_to_str [] ''PK'' it = Some (sr_PK d)
   \<and> field av_to_str [] ''SK'' it = Some (sr_SK d)
   \<and> field av_to_bool False ''email_verified'' it = Some (sr_EmailVerified d)
   \<and> field av_to_time_ptr None ''email_verified_at'' it = Some (sr_EmailVerifiedAt d)
   \<and> field av_to_bool False ''phone_verified'' it = Some (sr_PhoneVerified d)
   \<and> field av_to_time_ptr None ''phone_verified_at'' it = Some (sr_PhoneVerifiedAt d)
   \<and> field av_to_str [] ''status'' it = Some (sr_Status d)
   \<and> field av_to_str [] ''status_reason'' it = Some (sr_StatusReason d)
   \<and> field av_to_time_ptr None ''status_changed_at'' it = Some (sr_StatusChangedAt d)
   \<and> field av_to_strs [] ''tags'' it = Some (sr_Tags d)
   \<and> field av_to_int 0 ''version'' it = Some (sr_Version d)"
  by (cases d) (auto simp: unmarshal_settings_def bind_eq_Some_conv)

lemma field_opt_gen:
  "(\<And>y. g y \<noteq> AvNULL) \<Longrightarrow> field f z a (case p of None \<Rightarrow> it | Some y \<Rightarrow> it(b \<mapsto> g y))
    = (case p of None \<Rightarrow> field f z a it | Some y \<Rightarrow> if a = b then f (g y) else field f z a it)"
  by (simp split: option.splits)

definition valid_time_opt :: "gtime option \<Rightarrow> bool" where
  "valid_time_opt t \<longleftrightarrow> (case t of None \<Rightarrow> True | Some x \<Rightarrow> valid_time x)"

lemma version_is_decoded:
  assumes "version_is tb i v" "tb (settings_key i) = Some it" "unmarshal_settings it = Some d"
  shows "sr_Version d = v"
  using assms av_to_int_av_int [of v]
  by (auto simp: version_is_def unmarshal_settings_iff field_def av_int_def)

lemma settings_at_updated:
  assumes "valid_time now" "valid_time_opt (us_EmailVerifiedAt req)" "valid_time_opt (us_PhoneVerifiedAt req)"
    and "settings_at tb i = Some a" "version_is tb i v" "tb (settings_key i) = Some it"
  shows "settings_at (tb(settings_key i \<mapsto> assign (settings_clauses now req @ [version_clause v]) it)) i
    = Some (updated_settings now req a)"
proof -
  from assms(4,6) obtain d where d: "unmarshal_settings it = Some d" "a = settings_toModel d"
    by (auto simp: settings_at_def)
  have v: "sr_Version d = v" by (rule version_is_decoded [OF assms(5,6) d(1)])
  have n: "av_to_int (AvN (sint (v + 1))) = Some (v + 1)"
    using av_to_int_av_int [of "v + 1"] by (simp add: av_int_def)
  let ?d = "d\<lparr>sr_EmailVerified := opt_or (sr_EmailVerified d) (us_EmailVerified req),
    sr_EmailVerifiedAt := (case us_EmailVerifiedAt req of None \<Rightarrow> sr_EmailVerifiedAt d | Some t \<Rightarrow> Some t),
    sr_PhoneVerified := opt_or (sr_PhoneVerified d) (us_PhoneVerified req),
    sr_PhoneVerifiedAt := (case us_PhoneVerifiedAt req of None \<Rightarrow> sr_PhoneVerifiedAt d | Some t \<Rightarrow> Some t),
    sr_Status := opt_or (sr_Status d) (us_Status req),
    sr_StatusChangedAt := (case us_Status req of None \<Rightarrow> sr_StatusChangedAt d | Some _ \<Rightarrow> Some now),
    sr_StatusReason := opt_or (sr_StatusReason d) (us_StatusReason req),
    sr_Version := v + 1\<rparr>"
  have "unmarshal_settings (assign (settings_clauses now req @ [version_clause v]) it) = Some ?d"
    using d(1) assms(1-3) n unfolding unmarshal_settings_iff
    by (simp add: settings_clauses_def version_clause_def field_opt_gen)
      (intro conjI; simp add: opt_or_def valid_time_opt_def av_to_time_av_time av_to_time_ptr_def
        split: option.split option.split_asm)
  moreover have "settings_toModel ?d = updated_settings now req a"
    by (simp add: d(2) settings_toModel_def updated_settings_def v)
      (intro conjI; simp split: option.split)
  ultimately show ?thesis by (simp add: settings_at_def)
qed

section \<open>Properties\<close>


definition sample_settings_update :: update_settings_request where
  "sample_settings_update = \<lparr>us_EmailVerified = Some True, us_EmailVerifiedAt = None,
     us_PhoneVerified = None, us_PhoneVerifiedAt = None, us_Status = Some ''suspended'',
     us_StatusChangedAt = None, us_StatusReason = Some ''chargeback'', us_Tags = None, us_Version = Some 0\<rparr>"

definition settings_mem :: mem where
  "settings_mem = snd (UpdateSettingsPartial mem_repo sample_time ''a1'' sample_settings_update 0 sample_mem)"

lemma settings_mem_run:
  "UpdateSettingsPartial mem_repo sample_time ''a1'' sample_settings_update 0 sample_mem = (None, settings_mem)"
  unfolding settings_mem_def prod_eq_iff fst_conv snd_conv by (intro conjI refl) code_simp

lemma sample_settings: "settings_at (mem_tbl sample_mem) ''a1'' = Some \<lparr>st_EmailVerified = Some False,
    st_EmailVerifiedAt = None, st_PhoneVerified = Some False, st_PhoneVerifiedAt = None,
    st_Status = ''active'', st_StatusChangedAt = None, st_StatusReason = None, st_Tags = None, st_Version = 0\<rparr>"
proof -
  have n: "field av_to_int 0 ''version'' (marshal_settings_default (settings_default t i)) = Some 0" for t i
    using av_to_int_av_int [of 0] by (simp add: field_def marshal_settings_default_def settings_default_def av_int_def)
  have "mem_tbl sample_mem (settings_key ''a1'') = Some (marshal_settings_default (settings_default sample_time ''a1''))"
    using mem.CreateAccount_spec [OF sample_mem_created] by (auto simp: created_def)
  then show ?thesis
    by (simp add: settings_at_def unmarshal_settings_def n)
      (simp add: marshal_settings_default_def settings_default_def settings_toModel_def field_def)
qed


text \<open>C12 (UpdateSettingsPartial). No update is lost: once a write that expected version \<open>v\<close> has
  succeeded, a second write that also expected \<open>v\<close> cannot succeed and changes nothing.\<close>

theorem settings_no_lost_update:
  assumes "dynamo r tbl ssl fits" and "UpdateSettingsPartial r now i req v s = (None, s1)"
    and "UpdateSettingsPartial r now' i req' v s1 = (e, s2)"
  shows "tbl s2 = tbl s1 \<and> (\<exists>x. e = Some x \<and> (x = DbVersionConflict \<or> x = unmarshal_error \<or> transport x))"
proof -
  from dynamo.UpdateSettingsPartial_spec [OF assms(1,2)] obtain it where
    t1: "tbl s1 = (tbl s)(settings_key i \<mapsto> assign (settings_clauses now req @ [version_clause v]) it)"
    by (auto simp: optimistic_def)
  have "sint (v + 1) \<noteq> sint v" by (metis add_cancel_left_right signed_word_eqI zero_neq_one)
  then have "\<not> version_is (tbl s1) i v"
    by (simp add: version_is_def t1 version_clause_def)
  moreover have "tbl s1 (settings_key i) \<noteq> None" by (simp add: t1)
  ultimately show ?thesis
    using dynamo.UpdateSettingsPartial_spec [OF assms(1,3)] by (auto simp: optimistic_def)
qed

lemma settings_no_lost_update_witness:
  "UpdateSettingsPartial mem_repo sample_time ''a1'' sample_settings_update 0 sample_mem = (None, settings_mem)
    \<and> (\<exists>e s2. UpdateSettingsPartial mem_repo sample_time ''a1'' sample_settings_update 0 settings_mem = (Some e, s2)
        \<and> mem_tbl s2 = mem_tbl settings_mem)"
  using settings_no_lost_update [OF mem.dynamo_axioms settings_mem_run prod.collapse [symmetric]] settings_mem_run
  by (metis prod.collapse)

text \<open>C30 (MutateSettingsTags). A tag request that only adds or only removes has exactly its set effect:
  on success the tags are the old ones with the given tags added (or taken away), the version
  went up by one, every other attribute and item is unchanged, and the stored version was the
  expected one; otherwise nothing changed, unless a client fault hides a completed write.\<close>

theorem MutateSettingsTags_correct:
  assumes "dynamo r tbl ssl fits" and "MutateSettingsTags r i req v s = (e, s')"
    and "add = derefSlice (ut_Add req)" and "remove = derefSlice (ut_Remove req)"
    and "add = [] \<and> remove \<noteq> [] \<and> distinct remove \<or> remove = [] \<and> add \<noteq> [] \<and> distinct add"
  shows "(\<exists>it new. tbl s (settings_key i) = Some it \<and> version_is (tbl s) i v
        \<and> tbl s' = (tbl s)(settings_key i \<mapsto> new) \<and> version_is (tbl s') i (v + 1)
        \<and> tags_of new = tags_of it \<union> set add - set remove
        \<and> (\<forall>a. a \<noteq> ''tags'' \<and> a \<noteq> ''version'' \<longrightarrow> new a = it a)
        \<and> (\<forall>x. e = Some x \<longrightarrow> transport x))
    \<or> tbl s' = tbl s \<and> (\<exists>x. e = Some x \<and> (transport x \<or> x = unmarshal_error
        \<or> x = DbNotFound \<and> tbl s (settings_key i) = None
        \<or> x = DbVersionConflict \<and> \<not> version_is (tbl s) i v))"
proof -
  note ssl = dynamo.ssl_set [OF assms(1)]
  have f: "tags_of (retag ssl v add remove it) = tags_of it \<union> set add - set remove"
    "retag ssl v add remove it ''version'' = Some (AvN (sint (v + 1)))"
    "a \<noteq> ''tags'' \<Longrightarrow> a \<noteq> ''version'' \<Longrightarrow> retag ssl v add remove it a = it a" for it a
    using assms(5) retag_add [OF ssl] retag_remove [OF ssl] by auto
  from dynamo.MutateSettingsTags_spec [OF assms(1-5)] consider
    it where "tbl s (settings_key i) = Some it" "version_is (tbl s) i v"
      "tbl s' = (tbl s)(settings_key i \<mapsto> retag ssl v add remove it)" "\<forall>x. e = Some x \<longrightarrow> transport x"
  | x where "tbl s' = tbl s" "e = Some x" "transport x \<or> x = unmarshal_error
        \<or> x = DbNotFound \<and> tbl s (settings_key i) = None
        \<or> x = DbVersionConflict \<and> \<not> version_is (tbl s) i v"
    unfolding optimistic_def by blast
  then show ?thesis
  proof cases
    case (1 it)
    then have "version_is (tbl s') i (v + 1)" by (simp add: version_is_def f(2))
    with 1 f(1) f(3) show ?thesis by blast
  next
    case 2
    then show ?thesis by blast
  qed
qed

definition sample_tags :: update_settings_tags_request where
  "sample_tags = \<lparr>ut_Add = Some [''loyalty.gold''], ut_Remove = None, ut_Version = Some 0\<rparr>"

lemma MutateSettingsTags_correct_witness:
  "\<exists>s' it. MutateSettingsTags mem_repo ''a1'' sample_tags 0 sample_mem = (None, s')
    \<and> mem_tbl s' (settings_key ''a1'') = Some it \<and> ''loyalty.gold'' \<in> tags_of it"
proof -
  have "fst (MutateSettingsTags mem_repo ''a1'' sample_tags 0 sample_mem) = None" by code_simp
  then obtain s' where run: "MutateSettingsTags mem_repo ''a1'' sample_tags 0 sample_mem = (None, s')"
    by (metis prod.collapse)
  have a: "[''loyalty.gold''] = derefSlice (ut_Add sample_tags)" "[] = derefSlice (ut_Remove sample_tags)"
    by (simp_all add: sample_tags_def)
  from MutateSettingsTags_correct [OF mem.dynamo_axioms run a] run show ?thesis by auto
qed

text \<open>C31 (MutateSettingsTags). A request that both adds and removes tags is always refused by the
  store, as it names the tag set in two actions of one update expression: nothing changes, and
  the caller gets an unclassified error.\<close>

theorem MutateSettingsTags_both_refused:
  assumes "dynamo r tbl ssl fits" and "derefSlice (ut_Add req) \<noteq> []" and "derefSlice (ut_Remove req) \<noteq> []"
  shows "case MutateSettingsTags r i req v s of (e, s') \<Rightarrow> tbl s' = tbl s \<and> (\<exists>m. e = Some (Transport m))"
  using dynamo.MutateSettingsTags_both [OF assms(1) _ assms(2,3)] by (auto split: prod.splits)

lemma MutateSettingsTags_both_refused_witness:
  "let req = \<lparr>ut_Add = Some [''system.a''], ut_Remove = Some [''system.b''], ut_Version = Some 0\<rparr>
   in derefSlice (ut_Add req) \<noteq> [] \<and> (\<exists>m. fst (MutateSettingsTags mem_repo ''a1'' req 0 sample_mem) = Some (Transport m))"
  using MutateSettingsTags_both_refused [OF mem.dynamo_axioms,
      where req = "\<lparr>ut_Add = Some [''system.a''], ut_Remove = Some [''system.b''], ut_Version = Some 0\<rparr>"
        and i = "''a1''" and v = 0 and s = sample_mem]
  by (auto split: prod.splits)

end
