(* ===== verification/Defaults_Db.thy ===== *)
theory Defaults_Db
  imports Settings_Db
begin

text \<open>
  What the address and payment files of \<open>internal/db\<close> share: prefix queries over one account, and
  \<open>demoteAndPromoteDefault\<close> of \<open>payments.go\<close>, which moves the default flag of a group of items to one
  target in a single transaction. The lemmas give its effect on the whole table.
\<close>

section \<open>Prefix queries\<close>

definition prefix_query :: "'s repo \<Rightarrow> string \<Rightarrow> string \<Rightarrow> bool option \<Rightarrow> nat option \<Rightarrow> query_input" where
  "prefix_query r pk skPrefix fwd lim = \<lparr>TableName = tab r, IndexName = None,
     KeyConditionExpression = ''PK = :pk AND begins_with(SK, :skPrefix)'',
     ExpressionValues = ['':pk'' \<mapsto> AvS pk, '':skPrefix'' \<mapsto> AvS skPrefix],
     ScanIndexForward = fwd, Limit = lim\<rparr>"

text \<open>The shape the lemmas need; the name of the second placeholder varies in the code.\<close>

definition is_prefix_query ::
  "'s repo \<Rightarrow> query_input \<Rightarrow> string \<Rightarrow> string \<Rightarrow> bool option \<Rightarrow> nat option \<Rightarrow> bool" where
  "is_prefix_query r q pk skPrefix fwd lim \<longleftrightarrow> (\<exists>w. token w \<and> w \<noteq> '':pk'' \<and> q = \<lparr>TableName = tab r,
     IndexName = None, KeyConditionExpression = render_kcond (KPkPrefix '':pk'' w),
     ExpressionValues = ['':pk'' \<mapsto> AvS pk, w \<mapsto> AvS skPrefix],
     ScanIndexForward = fwd, Limit = lim\<rparr>)"

lemma prefix_query_is [simp]: "is_prefix_query r (prefix_query r pk pre fwd lim) pk pre fwd lim"
  unfolding is_prefix_query_def prefix_query_def
  by (rule exI [of _ "'':skPrefix''"]) (simp add: token_def)

text \<open>The keys of a group of items of one partition.\<close>

definition keys_of :: "string \<Rightarrow> string \<Rightarrow> key set" where
  "keys_of pk skPrefix = {k. fst k = pk \<and> has_prefix skPrefix (snd k)}"

text \<open>Every listing of a group fits in one page (the 1 MB bound of a query).\<close>

definition group_fits :: "(item list \<Rightarrow> bool) \<Rightarrow> table \<Rightarrow> key set \<Rightarrow> bool" where
  "group_fits fits tb G \<longleftrightarrow>
     (\<forall>ks. distinct ks \<and> set ks = G \<inter> dom tb \<longrightarrow> fits (map (\<lambda>k. the (tb k)) ks))"

context dynamo
begin

lemma prefix_query_spec:
  assumes run: "Query (client r) q s = (y, s')" and q: "is_prefix_query r q pk pre fwd lim"
  shows "tbl s' = tbl s \<and> (case y of
      Inr its \<Rightarrow> (\<exists>ks n. distinct ks \<and> set ks = keys_of pk pre \<inter> dom (tbl s) \<and> ordered fwd ks
        \<and> (case lim of None \<Rightarrow> group_fits fits (tbl s) (keys_of pk pre) \<longrightarrow> length ks \<le> n
           | Some l \<Rightarrow> n \<le> l \<and> (group_fits fits (tbl s) (keys_of pk pre) \<longrightarrow> min l (length ks) \<le> n))
        \<and> its = take n (map (\<lambda>k. the (tbl s k)) ks))
    | Inl e \<Rightarrow> transport e)"
proof -
  from q obtain w where w: "token w" "w \<noteq> '':pk''" and q: "q = \<lparr>TableName = tab r, IndexName = None,
      KeyConditionExpression = render_kcond (KPkPrefix '':pk'' w),
      ExpressionValues = ['':pk'' \<mapsto> AvS pk, w \<mapsto> AvS pre], ScanIndexForward = fwd, Limit = lim\<rparr>"
    unfolding is_prefix_query_def by blast
  let ?kc = "KPkPrefix '':pk'' w"
  have base: "base_query (tab r) ?kc q"
    using w by (auto simp: base_query_def q token_def)
  have m: "kcond_match (ExpressionValues q) ?kc k it \<longleftrightarrow> k \<in> keys_of pk pre" for k it
    using w by (auto simp: q keys_of_def)
  then have rows: "rows (tbl s) (kcond_match (ExpressionValues q) ?kc) ks
      \<longleftrightarrow> distinct ks \<and> set ks = keys_of pk pre \<inter> dom (tbl s)" for ks
    unfolding rows_def m dom_def by blast
  have f: "ScanIndexForward q = fwd" "Limit q = lim" by (simp_all add: q)
  note law = query [OF run base, unfolded rows f page_len_def length_map]
  show ?thesis
  proof (cases y)
    case (Inl e)
    with law show ?thesis by simp
  next
    case (Inr its)
    with law obtain ks n where ks: "distinct ks" "set ks = keys_of pk pre \<inter> dom (tbl s)" "ordered fwd ks"
      "its = take n (map (\<lambda>k. the (tbl s k)) ks)" and t: "tbl s' = tbl s"
      and n: "case lim of None \<Rightarrow> fits (map (\<lambda>k. the (tbl s k)) ks) \<longrightarrow> length ks \<le> n
        | Some l \<Rightarrow> n \<le> l \<and> (fits (map (\<lambda>k. the (tbl s k)) ks) \<longrightarrow> min l (length ks) \<le> n)"
      by auto
    have "group_fits fits (tbl s) (keys_of pk pre) \<Longrightarrow> fits (map (\<lambda>k. the (tbl s k)) ks)"
      using ks(1,2) by (simp add: group_fits_def)
    with n have "case lim of None \<Rightarrow> group_fits fits (tbl s) (keys_of pk pre) \<longrightarrow> length ks \<le> n
        | Some l \<Rightarrow> n \<le> l \<and> (group_fits fits (tbl s) (keys_of pk pre) \<longrightarrow> min l (length ks) \<le> n)"
      by (auto split: option.splits)
    with ks t Inr show ?thesis by auto
  qed
qed

end

section \<open>Moving the default flag\<close>

record default_flag_record =
  df_SK :: string
  df_IsDefault :: bool

definition unmarshal_flag :: "item \<Rightarrow> default_flag_record option" where
  "unmarshal_flag it = do {
     sk \<leftarrow> field av_to_str [] ''SK'' it;
     is_default \<leftarrow> field av_to_bool False ''is_default'' it;
     Some \<lparr>df_SK = sk, df_IsDefault = is_default\<rparr> }"

definition demote_item :: "'s repo \<Rightarrow> string \<Rightarrow> gtime \<Rightarrow> string \<Rightarrow> transact_item" where
  "demote_item r pk now sk = \<lparr>ti_Table = tab r, ti_Op = TransactUpdate, ti_Item = Map.empty,
     ti_Key = [''PK'' \<mapsto> AvS pk, ''SK'' \<mapsto> AvS sk],
     ti_UpdateExpr = ''SET #isd = :false, #ua = :now'',
     ti_ExprNames = [''#isd'' \<mapsto> ''is_default'', ''#ua'' \<mapsto> ''updated_at''],
     ti_ExprValues = ['':false'' \<mapsto> AvBOOL False, '':now'' \<mapsto> av_time now],
     ti_Condition = Some ''attribute_exists(SK)''\<rparr>"

definition promote_item :: "'s repo \<Rightarrow> string \<Rightarrow> gtime \<Rightarrow> string \<Rightarrow> transact_item" where
  "promote_item r pk now sk = \<lparr>ti_Table = tab r, ti_Op = TransactUpdate, ti_Item = Map.empty,
     ti_Key = [''PK'' \<mapsto> AvS pk, ''SK'' \<mapsto> AvS sk],
     ti_UpdateExpr = ''SET #isd = :true, #ua = :now'',
     ti_ExprNames = [''#isd'' \<mapsto> ''is_default'', ''#ua'' \<mapsto> ''updated_at''],
     ti_ExprValues = ['':true'' \<mapsto> AvBOOL True, '':now'' \<mapsto> av_time now],
     ti_Condition = Some ''attribute_exists(SK)''\<rparr>"

text \<open>The loop over the candidates.\<close>

fun demote_items :: "'s repo \<Rightarrow> string \<Rightarrow> gtime \<Rightarrow> string \<Rightarrow> default_flag_record list \<Rightarrow> transact_item list" where
  "demote_items r pk now targetSK [] = []"
| "demote_items r pk now targetSK (c # cs) =
     (if df_SK c = targetSK \<or> \<not> df_IsDefault c then demote_items r pk now targetSK cs
      else demote_item r pk now (df_SK c) # demote_items r pk now targetSK cs)"

definition demoteAndPromoteDefault ::
  "'s repo \<Rightarrow> gtime \<Rightarrow> string \<Rightarrow> string \<Rightarrow> string \<Rightarrow> 's \<Rightarrow> error option \<times> 's" where
  "demoteAndPromoteDefault r now pk skPrefix targetSK s =
     (case unmarshal_list unmarshal_flag (Query (client r) (prefix_query r pk skPrefix None None) s) of
        (Inl e, s1) \<Rightarrow> (Some e, s1)
      | (Inr candidates, s1) \<Rightarrow>
          (case TransactWrite (client r)
             (demote_items r pk now targetSK candidates @ [promote_item r pk now targetSK]) s1 of
             (None, s2) \<Rightarrow> (None, s2)
           | (Some e, s2) \<Rightarrow>
               (case condition_failure_index e of
                  Some _ \<Rightarrow> (Some DbNotFound, s2)
                | None \<Rightarrow> (Some e, s2))))"

section \<open>Its effect\<close>

definition flagged :: "table \<Rightarrow> key set \<Rightarrow> key set" where
  "flagged tb G = {k \<in> G. \<exists>it. tb k = Some it \<and> it ''is_default'' = Some (AvBOOL True)}"

text \<open>The table after the flag has moved to \<open>target\<close>.\<close>

definition moved :: "gtime \<Rightarrow> key set \<Rightarrow> key \<Rightarrow> table \<Rightarrow> table" where
  "moved now G target tb = (\<lambda>k. case tb k of None \<Rightarrow> None
     | Some it \<Rightarrow> if k = target then Some (it(''is_default'' \<mapsto> AvBOOL True, ''updated_at'' \<mapsto> av_time now))
         else if k \<in> flagged tb G then Some (it(''is_default'' \<mapsto> AvBOOL False, ''updated_at'' \<mapsto> av_time now))
         else Some it)"

definition flag_write :: "gtime \<Rightarrow> bool \<Rightarrow> key \<Rightarrow> wreq" where
  "flag_write now b k = (let v = (if b then '':true'' else '':false'') in
     WUpd k (UExpr [(''#isd'', v), (''#ua'', '':now'')] [] [])
       [''#isd'' \<mapsto> ''is_default'', ''#ua'' \<mapsto> ''updated_at'']
       [v \<mapsto> AvBOOL b, '':now'' \<mapsto> av_time now] (Some present))"

lemma flag_write_simps [simp]:
  "wr_key (flag_write now b k) = k" "valid_write (flag_write now b k)"
  by (auto simp: flag_write_def Let_def valid_upd_def u_pairs_def used_names_def used_vals_def
      token_def)

lemma render_flag_write:
  "render_write (tab r) (flag_write now False (pk, sk)) = demote_item r pk now sk"
  "render_write (tab r) (flag_write now True (pk, sk)) = promote_item r pk now sk"
  by (simp_all add: flag_write_def Let_def demote_item_def promote_item_def render_uexpr_def
      render_set_def mk_key_def render_present)

lemma flag_write_new:
  "wr_new ssl (flag_write now b k) (Some it)
    = Some (it(''is_default'' \<mapsto> AvBOOL b, ''updated_at'' \<mapsto> av_time now))"
  by (simp add: flag_write_def Let_def apply_uexpr_def)

lemma fold_wr_other: "k \<notin> wr_key ` set ws \<Longrightarrow> fold (wr_apply ssl) ws tb k = tb k"
  by (induction ws arbitrary: tb) (auto simp: wr_apply_def)

lemma fold_wr_distinct:
  "distinct (map wr_key ws) \<Longrightarrow> fold (wr_apply ssl) ws tb k
    = (case List.find (\<lambda>w. wr_key w = k) ws of None \<Rightarrow> tb k | Some w \<Rightarrow> wr_new ssl w (tb k))"
proof (induction ws arbitrary: tb)
  case (Cons w ws)
  show ?case
  proof (cases "wr_key w = k")
    case True
    with Cons.prems have "k \<notin> wr_key ` set ws" by auto
    with True show ?thesis by (simp add: fold_wr_other) (simp add: wr_apply_def)
  next
    case False
    with Cons show ?thesis by (simp add: wr_apply_def)
  qed
qed simp

lemma demote_items_render:
  "demote_items r pk now targetSK cs = map (render_write (tab r)) (map (\<lambda>c. flag_write now False (pk, df_SK c))
    (filter (\<lambda>c. df_SK c \<noteq> targetSK \<and> df_IsDefault c) cs))"
  by (induction cs) (auto simp: render_flag_write)

lemma find_flag_write:
  "List.find (\<lambda>w. wr_key w = k) (map (flag_write now b) ks @ ws)
    = (if k \<in> set ks then Some (flag_write now b k) else List.find (\<lambda>w. wr_key w = k) ws)"
  by (induction ks) auto


text \<open>The spec: the flag moves, or nothing changes.\<close>

lemma unmarshal_flag_fields:
  "unmarshal_flag it = Some c \<Longrightarrow> it ''SK'' = Some (AvS k) \<Longrightarrow>
    df_SK c = k \<and> (df_IsDefault c \<longleftrightarrow> it ''is_default'' = Some (AvBOOL True))"
  by (auto simp: unmarshal_flag_def field_def split: Option.bind_splits option.splits av.splits)

lemma moved_flagged:
  "target \<in> G \<Longrightarrow> tb target \<noteq> None \<Longrightarrow> flagged (moved now G target tb) G = {target}"
  by (auto simp: flagged_def moved_def split: option.splits if_splits)

lemma moved_other: "k \<notin> G \<Longrightarrow> k \<noteq> target \<Longrightarrow> moved now G target tb k = tb k"
  by (auto simp: moved_def flagged_def split: option.splits)

lemma candidates_keys:
  assumes "map unmarshal_flag (map (\<lambda>k. the (tb k)) ks) = map Some cs"
    and "\<forall>k \<in> set ks. fst k = pk \<and> k \<in> G \<and> (\<exists>it. tb k = Some it \<and> it ''SK'' = Some (AvS (snd k)))"
  shows "map (\<lambda>c. (pk, df_SK c)) (filter (\<lambda>c. df_SK c \<noteq> sk \<and> df_IsDefault c) cs)
    = filter (\<lambda>k. k \<noteq> (pk, sk) \<and> k \<in> flagged tb G) ks"
  using assms
proof (induction ks arbitrary: cs)
  case (Cons k ks)
  then obtain c cs' it where cs: "cs = c # cs'" "tb k = Some it" "it ''SK'' = Some (AvS (snd k))"
    "unmarshal_flag it = Some c" by (cases cs) auto
  from unmarshal_flag_fields [OF cs(4,3)] cs(2) Cons.prems(2)
  have "df_SK c = snd k" "df_IsDefault c \<longleftrightarrow> k \<in> flagged tb G" "fst k = pk" by (auto simp: flagged_def)
  moreover have "map (\<lambda>c. (pk, df_SK c)) (filter (\<lambda>c. df_SK c \<noteq> sk \<and> df_IsDefault c) cs')
    = filter (\<lambda>k. k \<noteq> (pk, sk) \<and> k \<in> flagged tb G) ks"
    by (rule Cons.IH) (use Cons.prems cs(1) in auto)
  ultimately show ?case by (cases k) (auto simp: cs(1))
qed simp

lemma moved_same_identity: "same_identity tb (moved now G target tb)"
  by (auto simp: same_identity_def moved_def split: option.splits if_splits)

context dynamo
begin

lemma flag_write_ok [simp]: "wr_ok (flag_write now b k) (tbl s) \<longleftrightarrow> tbl s k \<noteq> None"
  by (simp add: wr_ok_def flag_write_def Let_def)

lemma demoteAndPromote_spec:
  assumes run: "demoteAndPromoteDefault r now pk pre sk s = (e, s')"
    and G: "G = keys_of pk pre" and target: "(pk, sk) \<in> G"
    and fits: "group_fits fits (tbl s) G"
    and few: "card (flagged (tbl s) G - {(pk, sk)}) < 100"
  shows "(tbl s (pk, sk) \<noteq> None \<and> tbl s' = moved now G (pk, sk) (tbl s) \<and> (\<forall>x. e = Some x \<longrightarrow> transport x))
    \<or> tbl s' = tbl s \<and> (\<exists>x. e = Some x \<and> (transport x \<or> x = unmarshal_error
        \<or> x = DbNotFound \<and> tbl s (pk, sk) = None))"
proof -
  obtain y s1 where q: "Query (client r) (prefix_query r pk pre None None) s = (y, s1)" by fastforce
  note law = prefix_query_spec [OF q prefix_query_is, folded G]
  then have t1: "tbl s1 = tbl s" by simp
  consider (fault) f where "y = Inl f" | (bad) its where "y = Inr its" "decode_all unmarshal_flag its = None"
    | (ok) its cs where "y = Inr its" "decode_all unmarshal_flag its = Some cs"
    by (cases y) (blast, metis not_None_eq)
  then show ?thesis
  proof cases
    case fault
    with law q run show ?thesis by (auto simp: demoteAndPromoteDefault_def unmarshal_list_def)
  next
    case bad
    with law q run show ?thesis by (auto simp: demoteAndPromoteDefault_def unmarshal_list_def)
  next
    case (ok its cs)
    with law obtain ks n where ks: "distinct ks" "set ks = G \<inter> dom (tbl s)" "length ks \<le> n"
      "its = take n (map (\<lambda>k. the (tbl s k)) ks)"
      using fits by auto
    then have its: "its = map (\<lambda>k. the (tbl s k)) ks" by simp
    have cs: "map unmarshal_flag its = map Some cs" using ok(2) by (simp add: decode_all_Some)
    have pk: "fst k = pk" if "k \<in> set ks" for k using that ks(2) G by (auto simp: keys_of_def)
    define fs where "fs = filter (\<lambda>k. k \<noteq> (pk, sk) \<and> k \<in> flagged (tbl s) G) ks"
    have keyed: "\<forall>k \<in> set ks. fst k = pk \<and> k \<in> G \<and> (\<exists>it. tbl s k = Some it \<and> it ''SK'' = Some (AvS (snd k)))"
      using pk ks(2) tbl_key by blast
    have fs: "map (\<lambda>c. (pk, df_SK c)) (filter (\<lambda>c. df_SK c \<noteq> sk \<and> df_IsDefault c) cs) = fs"
      unfolding fs_def by (rule candidates_keys [OF cs [unfolded its] keyed])
    have set_fs: "set fs = flagged (tbl s) G - {(pk, sk)}" "distinct fs"
      using ks(1,2) by (auto simp: fs_def flagged_def)
    have len: "length fs < 100" using few set_fs distinct_card [OF set_fs(2)] by simp
    let ?ws = "map (flag_write now False) fs @ [flag_write now True (pk, sk)]"
    have items: "demote_items r pk now sk cs @ [promote_item r pk now sk] = map (render_write (tab r)) ?ws"
      by (simp add: demote_items_render render_flag_write fs [symmetric] comp_def)
    obtain f s2 where t: "TransactWrite (client r) (map (render_write (tab r)) ?ws) s1 = (f, s2)" by fastforce
    have keys: "map wr_key ?ws = fs @ [(pk, sk)]" by (simp add: comp_def)
    have out: "outcome ssl (transact_failed ?ws (tbl s)) ?ws (tbl s) f (tbl s2)"
      using transact_write [OF t, unfolded t1] len set_fs unfolding keys by (simp add: list_all_iff)
    have all_ok: "(\<forall>w \<in> set ?ws. wr_ok w (tbl s)) \<longleftrightarrow> tbl s (pk, sk) \<noteq> None"
      using set_fs(1) by (auto simp: flagged_def)
    have tf: "condition_failure_index x \<noteq> None \<and> tbl s (pk, sk) = None"
      if tf: "transact_failed ?ws (tbl s) x" for x
    proof -
      from tf obtain n where n: "n < length ?ws" "x = TransactConditionFailed n" "\<not> wr_ok (?ws ! n) (tbl s)"
        unfolding transact_failed_def by blast
      from nth_mem [OF n(1)] n(3) all_ok n(2) show ?thesis by auto
    qed
    have fold: "fold (wr_apply ssl) ?ws (tbl s) = moved now G (pk, sk) (tbl s)"
      if "tbl s (pk, sk) \<noteq> None"
    proof (rule ext)
      fix k
      have d: "distinct (map wr_key ?ws)" using set_fs unfolding keys by simp
      show "fold (wr_apply ssl) ?ws (tbl s) k = moved now G (pk, sk) (tbl s) k"
      proof (cases "tbl s k")
        case None
        then have "k \<notin> set fs" unfolding set_fs(1) flagged_def by simp
        moreover have "k \<noteq> (pk, sk)" using None that by metis
        ultimately show ?thesis
          unfolding fold_wr_distinct [OF d] find_flag_write using None by (simp add: moved_def)
      next
        case (Some it)
        have "k \<in> set fs \<longleftrightarrow> k \<in> flagged (tbl s) G \<and> k \<noteq> (pk, sk)" unfolding set_fs(1) by blast
        with Some show ?thesis
          unfolding fold_wr_distinct [OF d] find_flag_write by (auto simp: moved_def flag_write_new)
      qed
    qed
    have step: "tbl s (pk, sk) \<noteq> None \<and> tbl s2 = moved now G (pk, sk) (tbl s)
          \<and> (\<forall>x. f = Some x \<longrightarrow> transport x)
        \<or> tbl s2 = tbl s \<and> (\<exists>x. f = Some x \<and> (transport x
          \<or> condition_failure_index x \<noteq> None \<and> tbl s (pk, sk) = None))"
    proof (cases f)
      case None
      with out all_ok have "tbl s (pk, sk) \<noteq> None" "tbl s2 = fold (wr_apply ssl) ?ws (tbl s)"
        unfolding outcome_def commit_def by simp_all
      with fold None show ?thesis by simp
    next
      case (Some x)
      with out have "transact_failed ?ws (tbl s) x \<and> tbl s2 = tbl s \<or> transport x \<and> (tbl s2 = tbl s
          \<or> (\<forall>w \<in> set ?ws. wr_ok w (tbl s)) \<and> tbl s2 = fold (wr_apply ssl) ?ws (tbl s))"
        unfolding outcome_def commit_def by simp
      with tf fold all_ok Some show ?thesis by (metis option.inject)
    qed
    have res: "(case f of None \<Rightarrow> (None, s2) | Some e \<Rightarrow> (case condition_failure_index e of
        Some _ \<Rightarrow> (Some DbNotFound, s2) | None \<Rightarrow> (Some e, s2))) = (e, s')"
      using run q ok(1,2) t items by (simp add: demoteAndPromoteDefault_def unmarshal_list_def)
    show ?thesis
    proof (cases f)
      case None
      with step res show ?thesis by simp
    next
      case (Some x)
      with step res show ?thesis by (cases "condition_failure_index x") auto
    qed
  qed
qed

end

context dynamo
begin

text \<open>A page of a group, decoded.\<close>

lemma page_spec:
  assumes run: "unmarshal_list dec (Query (client r) qu s) = (x, s')"
    and qu: "is_prefix_query r qu pk pre fwd (Some l)"
  shows "tbl s' = tbl s \<and> (case x of
      Inr xs \<Rightarrow> (\<exists>ks n. distinct ks \<and> set ks = keys_of pk pre \<inter> dom (tbl s) \<and> ordered fwd ks \<and> n \<le> l
        \<and> (group_fits fits (tbl s) (keys_of pk pre) \<longrightarrow> min l (length ks) \<le> n)
        \<and> map (\<lambda>k. dec (the (tbl s k))) (take n ks) = map Some xs)
    | Inl e \<Rightarrow> transport e \<or> e = unmarshal_error)"
proof -
  obtain y s1 where q: "Query (client r) qu s = (y, s1)" by fastforce
  note law = prefix_query_spec [OF q qu]
  show ?thesis
  proof (cases y)
    case (Inl e)
    with law run q show ?thesis by (auto simp: unmarshal_list_def)
  next
    case (Inr its)
    with law obtain ks n where ks: "distinct ks" "set ks = keys_of pk pre \<inter> dom (tbl s)" "ordered fwd ks"
      "n \<le> l" "group_fits fits (tbl s) (keys_of pk pre) \<longrightarrow> min l (length ks) \<le> n"
      "its = take n (map (\<lambda>k. the (tbl s k)) ks)" and t: "tbl s1 = tbl s" by auto
    show ?thesis
    proof (cases "decode_all dec its")
      case None
      with Inr t run q show ?thesis by (auto simp: unmarshal_list_def)
    next
      case (Some xs)
      with Inr run q have "x = Inr xs" "s' = s1" by (simp_all add: unmarshal_list_def)
      moreover have "map (\<lambda>k. dec (the (tbl s k))) (take n ks) = map Some xs"
        using Some ks(6) by (simp add: decode_all_Some take_map comp_def)
      ultimately show ?thesis using ks t by auto
    qed
  qed
qed

end

section \<open>Listing a group\<close>

text \<open>A listing of at most \<open>l\<close> items of a group that fits in a page is complete: it holds every item of
  the group exactly once, in key order.\<close>

context dynamo
begin

lemma listing_spec:
  assumes run: "(case unmarshal_list dec (Query (client r) qu s) of
      (Inl e, s1) \<Rightarrow> (Inl e, s1) | (Inr records, s1) \<Rightarrow> (Inr (map f records), s1)) = (x, s')"
    and qu: "is_prefix_query r qu pk pre fwd (Some l)"
    and fits: "group_fits fits (tbl s) (keys_of pk pre)" and few: "card (keys_of pk pre \<inter> dom (tbl s)) \<le> l"
  shows "tbl s' = tbl s \<and> (case x of
      Inr xs \<Rightarrow> (\<exists>ks. distinct ks \<and> set ks = keys_of pk pre \<inter> dom (tbl s) \<and> ordered fwd ks
        \<and> map (\<lambda>k. map_option f (dec (the (tbl s k)))) ks = map Some xs)
    | Inl e \<Rightarrow> transport e \<or> e = unmarshal_error)"
proof -
  obtain y s1 where q: "unmarshal_list dec (Query (client r) qu s) = (y, s1)" by fastforce
  note law = page_spec [OF q qu]
  show ?thesis
  proof (cases y)
    case (Inl e)
    with law q run show ?thesis by auto
  next
    case (Inr zs)
    with law obtain ks n where ks: "distinct ks" "set ks = keys_of pk pre \<inter> dom (tbl s)" "ordered fwd ks"
      "min l (length ks) \<le> n" "map (\<lambda>k. dec (the (tbl s k))) (take n ks) = map Some zs"
      and t: "tbl s1 = tbl s" using fits by auto
    have "length ks \<le> n" using ks(1,2,4) few distinct_card [of ks] by simp
    with ks(5) have m: "map (\<lambda>k. dec (the (tbl s k))) ks = map Some zs" by simp
    have "map (\<lambda>k. map_option f (dec (the (tbl s k)))) ks = map (map_option f) (map Some zs)"
      unfolding m [symmetric] by simp
    then have "map (\<lambda>k. map_option f (dec (the (tbl s k)))) ks = map Some (map f zs)" by simp
    moreover have "x = Inr (map f zs)" "s' = s1" using Inr q run by simp_all
    ultimately show ?thesis using ks t by auto
  qed
qed

end

context dynamo
begin

text \<open>The same, as what an observer sees.\<close>

lemma default_moved:
  assumes "demoteAndPromoteDefault r now pk pre sk s = (e, s')"
    and G: "G = keys_of pk pre" and target: "(pk, sk) \<in> G"
    and "group_fits fits (tbl s) G" and few: "card (flagged (tbl s) G) < 100"
  shows "(\<forall>k. k \<notin> G \<longrightarrow> tbl s' k = tbl s k)
    \<and> (\<forall>k it. tbl s k = Some it \<longrightarrow> (\<exists>it'. tbl s' k = Some it'
        \<and> (\<forall>a. a \<noteq> ''is_default'' \<and> a \<noteq> ''updated_at'' \<longrightarrow> it' a = it a)))
    \<and> (case e of
        None \<Rightarrow> flagged (tbl s') G = {(pk, sk)}
      | Some x \<Rightarrow> (tbl s' = tbl s \<or> flagged (tbl s') G = {(pk, sk)})
          \<and> (x = DbNotFound \<longrightarrow> tbl s (pk, sk) = None))"
proof -
  have "card (flagged (tbl s) G - {(pk, sk)}) < 100"
    using few card_Diff1_le [of "flagged (tbl s) G" "(pk, sk)"] by linarith
  from demoteAndPromote_spec [OF assms(1) G target assms(4) this] show ?thesis
  proof
    assume m: "tbl s (pk, sk) \<noteq> None \<and> tbl s' = moved now G (pk, sk) (tbl s) \<and> (\<forall>x. e = Some x \<longrightarrow> transport x)"
    then have f: "flagged (tbl s') G = {(pk, sk)}" using moved_flagged [OF target] by simp
    have o: "tbl s' k = tbl s k" if "k \<notin> G" for k
      using m moved_other [OF that] target that by metis
    have a: "\<exists>it'. tbl s' k = Some it' \<and> (\<forall>a. a \<noteq> ''is_default'' \<and> a \<noteq> ''updated_at'' \<longrightarrow> it' a = it a)"
      if "tbl s k = Some it" for k it
      using m that by (simp add: moved_def)
    have "x \<noteq> DbNotFound" if "e = Some x" for x using m that by auto
    with f o a show ?thesis by (cases e) auto
  next
    assume "tbl s' = tbl s \<and> (\<exists>x. e = Some x \<and> (transport x \<or> x = unmarshal_error
        \<or> x = DbNotFound \<and> tbl s (pk, sk) = None))"
    then show ?thesis by auto
  qed
qed

end

lemma flagged_upd:
  "k \<in> G \<Longrightarrow> it ''is_default'' = Some (AvBOOL True) \<Longrightarrow> flagged (tb(k \<mapsto> it)) G = insert k (flagged tb G)"
  by (auto simp: flagged_def)

lemma sample_mem_flagged: "flagged (mem_tbl sample_mem) G = {}"
proof -
  have "mem_tbl empty_mem = Map.empty" by (rule ext) (simp add: mem_tbl_def empty_mem_def)
  moreover have "mem_tbl sample_mem = created sample_time ''a1'' sample_request (mem_tbl empty_mem)"
    using mem.CreateAccount_spec [OF sample_mem_created] by simp
  ultimately show ?thesis
    by (auto simp: flagged_def created_def marshal_account_def marshal_settings_default_def
        marshal_reservation_def split: if_splits)
qed

context dynamo
begin

text \<open>Whatever the limits of the store, a call never leaves the partition it was given.\<close>

lemma demote_part:
  assumes run: "demoteAndPromoteDefault r now pk pre sk s = (e, s')" and k: "fst k \<noteq> pk"
  shows "tbl s' k = tbl s k"
proof -
  let ?G = "keys_of pk pre"
  obtain y s1 where q: "Query (client r) (prefix_query r pk pre None None) s = (y, s1)" by fastforce
  note law = prefix_query_spec [OF q prefix_query_is]
  then have t1: "tbl s1 = tbl s" by simp
  consider (fault) f where "y = Inl f" | (bad) its where "y = Inr its" "decode_all unmarshal_flag its = None"
    | (ok) its cs where "y = Inr its" "decode_all unmarshal_flag its = Some cs"
    by (cases y) (blast, metis not_None_eq)
  then show ?thesis
  proof cases
    case (ok its cs)
    with law obtain ks n where ks: "distinct ks" "set ks = ?G \<inter> dom (tbl s)"
      "its = map (\<lambda>k. the (tbl s k)) (take n ks)" by (auto simp: take_map)
    have keyed: "\<forall>k \<in> set (take n ks). fst k = pk \<and> k \<in> ?G \<and> (\<exists>it. tbl s k = Some it \<and> it ''SK'' = Some (AvS (snd k)))"
      using ks(2) tbl_key by (fastforce simp: keys_of_def dest: in_set_takeD)
    have cs: "map unmarshal_flag its = map Some cs" using ok(2) by (simp add: decode_all_Some)
    define fs where "fs = filter (\<lambda>k. k \<noteq> (pk, sk) \<and> k \<in> flagged (tbl s) ?G) (take n ks)"
    have fs: "map (\<lambda>c. (pk, df_SK c)) (filter (\<lambda>c. df_SK c \<noteq> sk \<and> df_IsDefault c) cs) = fs"
      unfolding fs_def by (rule candidates_keys [OF cs [unfolded ks(3)] keyed])
    have set_fs: "\<forall>k \<in> set fs. fst k = pk \<and> k \<noteq> (pk, sk)" "distinct fs"
      using ks(1) keyed by (auto simp: fs_def)
    let ?ws = "map (flag_write now False) fs @ [flag_write now True (pk, sk)]"
    have items: "demote_items r pk now sk cs @ [promote_item r pk now sk] = map (render_write (tab r)) ?ws"
      by (simp add: demote_items_render render_flag_write fs [symmetric] comp_def)
    obtain f s2 where t: "TransactWrite (client r) (map (render_write (tab r)) ?ws) s1 = (f, s2)" by fastforce
    have keys: "map wr_key ?ws = fs @ [(pk, sk)]" by (simp add: comp_def)
    have "tbl s2 = tbl s \<or> tbl s2 = fold (wr_apply ssl) ?ws (tbl s)"
    proof (cases "length ?ws \<le> 100")
      case True
      have "outcome ssl (transact_failed ?ws (tbl s)) ?ws (tbl s) f (tbl s2)"
        using transact_write [OF t, unfolded t1] True set_fs unfolding keys by (auto simp: list_all_iff)
      then show ?thesis unfolding outcome_def commit_def by (auto split: option.splits)
    next
      case False
      with transact_limit [OF t] t1 show ?thesis by simp
    qed
    moreover have "k \<notin> wr_key ` set ?ws" unfolding set_map [symmetric] keys using k set_fs(1) by auto
    then have "fold (wr_apply ssl) ?ws (tbl s) k = tbl s k" by (rule fold_wr_other)
    moreover have "s' = s2"
      using run q ok(1,2) t items
      by (auto simp: demoteAndPromoteDefault_def unmarshal_list_def split: option.splits)
    ultimately show ?thesis by metis
  qed (use law q run in \<open>auto simp: demoteAndPromoteDefault_def unmarshal_list_def\<close>)
qed

lemma listing_tbl:
  assumes "(case unmarshal_list dec (Query (client r) qu s) of
      (Inl e, s1) \<Rightarrow> (Inl e, s1) | (Inr records, s1) \<Rightarrow> (Inr (map f records), s1)) = (x, s')"
    and "is_prefix_query r qu pk pre fwd (Some l)"
  shows "tbl s' = tbl s"
proof -
  obtain y s1 where q: "unmarshal_list dec (Query (client r) qu s) = (y, s1)" by fastforce
  from page_spec [OF q assms(2)] q assms(1) show ?thesis by (cases y) auto
qed

end

end
