(* ===== verification/Address_Db.thy ===== *)
theory Address_Db
  imports Defaults_Db
begin

text \<open>\<open>internal/db/address.go\<close>: the address items of an account.\<close>

section \<open>Record\<close>

record address_record =
  dr_PK :: string
  dr_SK :: string
  dr_AddressID :: string
  dr_Alias :: string
  dr_Line1 :: string
  dr_Line2 :: string
  dr_City :: string
  dr_State :: string
  dr_ZipCode :: string
  dr_Country :: string
  dr_IsDefault :: bool

definition marshal_address :: "address_record \<Rightarrow> item" where
  "marshal_address d =
     omitempty (dr_Line2 d = []) ''line2'' (AvS (dr_Line2 d))
    (omitempty (dr_Alias d = []) ''alias'' (AvS (dr_Alias d))
     [''PK'' \<mapsto> AvS (dr_PK d), ''SK'' \<mapsto> AvS (dr_SK d), ''address_id'' \<mapsto> AvS (dr_AddressID d),
      ''line1'' \<mapsto> AvS (dr_Line1 d), ''city'' \<mapsto> AvS (dr_City d), ''state'' \<mapsto> AvS (dr_State d),
      ''zip_code'' \<mapsto> AvS (dr_ZipCode d), ''country'' \<mapsto> AvS (dr_Country d),
      ''is_default'' \<mapsto> AvBOOL (dr_IsDefault d)])"

definition unmarshal_address :: "item \<Rightarrow> address_record option" where
  "unmarshal_address it = do {
     pk \<leftarrow> field av_to_str [] ''PK'' it;
     sk \<leftarrow> field av_to_str [] ''SK'' it;
     address_id \<leftarrow> field av_to_str [] ''address_id'' it;
     alias \<leftarrow> field av_to_str [] ''alias'' it;
     line1 \<leftarrow> field av_to_str [] ''line1'' it;
     line2 \<leftarrow> field av_to_str [] ''line2'' it;
     city \<leftarrow> field av_to_str [] ''city'' it;
     state \<leftarrow> field av_to_str [] ''state'' it;
     zip_code \<leftarrow> field av_to_str [] ''zip_code'' it;
     country \<leftarrow> field av_to_str [] ''country'' it;
     is_default \<leftarrow> field av_to_bool False ''is_default'' it;
     Some \<lparr>dr_PK = pk, dr_SK = sk, dr_AddressID = address_id, dr_Alias = alias, dr_Line1 = line1,
       dr_Line2 = line2, dr_City = city, dr_State = state, dr_ZipCode = zip_code,
       dr_Country = country, dr_IsDefault = is_default\<rparr> }"

definition address_toModel :: "address_record \<Rightarrow> address" where
  "address_toModel d = \<lparr>ad_AddressId = dr_AddressID d, ad_Alias = optStr (dr_Alias d),
     ad_City = dr_City d, ad_Country = dr_Country d, ad_IsDefault = dr_IsDefault d,
     ad_Line1 = dr_Line1 d, ad_Line2 = optStr (dr_Line2 d), ad_State = dr_State d,
     ad_ZipCode = dr_ZipCode d\<rparr>"

definition addressRecordFrom :: "string \<Rightarrow> string \<Rightarrow> address \<Rightarrow> address_record" where
  "addressRecordFrom pk sk a = \<lparr>dr_PK = pk, dr_SK = sk, dr_AddressID = ad_AddressId a,
     dr_Alias = deref [] (ad_Alias a), dr_Line1 = ad_Line1 a, dr_Line2 = deref [] (ad_Line2 a),
     dr_City = ad_City a, dr_State = ad_State a, dr_ZipCode = ad_ZipCode a,
     dr_Country = ad_Country a, dr_IsDefault = ad_IsDefault a\<rparr>"

section \<open>Operations\<close>

text \<open>\<open>CreateAddress\<close> sets the identifier in the caller's address, which is therefore returned;
  \<open>fresh\<close> is \<open>ksuid.New().String()\<close>.\<close>

definition CreateAddress ::
  "'s repo \<Rightarrow> string \<Rightarrow> string \<Rightarrow> address \<Rightarrow> 's \<Rightarrow> (error option \<times> address) \<times> 's" where
  "CreateAddress r fresh accountID addr s =
     (let addr' = (if ad_AddressId addr = [] then addr\<lparr>ad_AddressId := ''addr_'' @ fresh\<rparr> else addr);
          rc = addressRecordFrom (createPK accountID) (addrSK (ad_AddressId addr')) addr'
      in case WriteItem (client r) (tab r) (marshal_address rc) (Some ''attribute_not_exists(SK)'') s of
           (None, s') \<Rightarrow> ((None, addr'), s')
         | (Some e, s') \<Rightarrow>
             if e = ConditionalCheckFailed then ((Some DbAlreadyExists, addr'), s')
             else ((Some e, addr'), s'))"

definition GetAddress :: "'s repo \<Rightarrow> string \<Rightarrow> string \<Rightarrow> 's \<Rightarrow> (error + address) \<times> 's" where
  "GetAddress r accountID addressID s =
     (case BuildKey (client r) ''PK'' (createPK accountID) ''SK'' (addrSK addressID) of
        Inl e \<Rightarrow> (Inl e, s)
      | Inr key \<Rightarrow> (case GetItemAs r unmarshal_address key s of
          (Inl e, s') \<Rightarrow> (Inl e, s')
        | (Inr d, s') \<Rightarrow> (Inr (address_toModel d), s')))"

definition GetAccountAddresses :: "'s repo \<Rightarrow> string \<Rightarrow> 's \<Rightarrow> (error + address list) \<times> 's" where
  "GetAccountAddresses r accountID s =
     (case unmarshal_list unmarshal_address
        (Query (client r) (prefix_query r (createPK accountID) ''ADDR#'' None (Some 100)) s) of
        (Inl e, s') \<Rightarrow> (Inl e, s')
      | (Inr records, s') \<Rightarrow> (Inr (map address_toModel records), s'))"

definition address_exprs :: "update_address_request \<Rightarrow> expr_build" where
  "address_exprs req =
     set_field ''#isd'' '':isd'' ''is_default'' AvBOOL (ud_IsDefault req)
    (set_field ''#country'' '':country'' ''country'' AvS (ud_Country req)
    (set_field ''#zc'' '':zc'' ''zip_code'' AvS (ud_ZipCode req)
    (set_field ''#state'' '':state'' ''state'' AvS (ud_State req)
    (set_field ''#city'' '':city'' ''city'' AvS (ud_City req)
    (set_field ''#l2'' '':l2'' ''line2'' AvS (ud_Line2 req)
    (set_field ''#l1'' '':l1'' ''line1'' AvS (ud_Line1 req)
    (set_field ''#alias'' '':alias'' ''alias'' AvS (ud_Alias req) no_exprs)))))))"

definition UpdateAddress ::
  "'s repo \<Rightarrow> string \<Rightarrow> string \<Rightarrow> update_address_request \<Rightarrow> 's \<Rightarrow> error option \<times> 's" where
  "UpdateAddress r accountID addressID req s =
     (case BuildKey (client r) ''PK'' (createPK accountID) ''SK'' (addrSK addressID) of
        Inl e \<Rightarrow> (Some e, s)
      | Inr key \<Rightarrow>
          (let b = address_exprs req
           in if length (setClauses b) = 0 then (None, s)
              else case UpdateItem (client r) (tab r) key (set_expr b) (exprValues b) (exprNames b)
                (Some ''attribute_exists(SK)'') s of
                (Inr _, s') \<Rightarrow> (None, s')
              | (Inl e, s') \<Rightarrow>
                  if e = ConditionalCheckFailed then (Some DbNotFound, s') else (Some e, s')))"

definition SetAddressDefault :: "'s repo \<Rightarrow> gtime \<Rightarrow> string \<Rightarrow> string \<Rightarrow> 's \<Rightarrow> error option \<times> 's" where
  "SetAddressDefault r now accountID addressID s =
     demoteAndPromoteDefault r now (createPK accountID) ''ADDR#'' (addrSK addressID) s"

definition DeleteAddress :: "'s repo \<Rightarrow> string \<Rightarrow> string \<Rightarrow> 's \<Rightarrow> error option \<times> 's" where
  "DeleteAddress r accountID addressID s =
     (case BuildKey (client r) ''PK'' (createPK accountID) ''SK'' (addrSK addressID) of
        Inl e \<Rightarrow> (Some e, s)
      | Inr key \<Rightarrow> DeleteItem (client r) (tab r) key s)"

section \<open>The abstract view of an address\<close>

definition address_key :: "string \<Rightarrow> string \<Rightarrow> key" where
  "address_key i aid = (createPK i, addrSK aid)"

definition address_at :: "table \<Rightarrow> string \<Rightarrow> string \<Rightarrow> address option" where
  "address_at tb i aid =
     Option.bind (tb (address_key i aid)) (\<lambda>it. map_option address_toModel (unmarshal_address it))"

lemma address_key_neutral [simp]: "neutral_key (address_key i aid)"
  by (auto simp: neutral_key_def address_key_def key_simps)

lemma marshal_address_keys [simp]:
  "marshal_address d ''PK'' = Some (AvS (dr_PK d))" "marshal_address d ''SK'' = Some (AvS (dr_SK d))"
  "marshal_address d ''GSI1SK'' = None" "marshal_address d ''is_default'' = Some (AvBOOL (dr_IsDefault d))"
  by (simp_all add: marshal_address_def omitempty_def)

lemma unmarshal_marshal_address [decode_simps]: "unmarshal_address (marshal_address d) = Some d"
  by (simp add: unmarshal_address_def marshal_address_def omitempty_def field_def)

text \<open>An empty alias or second line reads back as absent.\<close>

definition norm_address :: "address \<Rightarrow> address" where
  "norm_address a = a\<lparr>ad_Alias := optStr (deref [] (ad_Alias a)), ad_Line2 := optStr (deref [] (ad_Line2 a))\<rparr>"

lemma address_toModel_from [simp]: "address_toModel (addressRecordFrom pk sk a) = norm_address a"
  by (simp add: address_toModel_def addressRecordFrom_def norm_address_def)

definition address_clauses :: "update_address_request \<Rightarrow> clause list" where
  "address_clauses u = opt_clause ''#alias'' '':alias'' ''alias'' AvS (ud_Alias u)
     @ opt_clause ''#l1'' '':l1'' ''line1'' AvS (ud_Line1 u)
     @ opt_clause ''#l2'' '':l2'' ''line2'' AvS (ud_Line2 u)
     @ opt_clause ''#city'' '':city'' ''city'' AvS (ud_City u)
     @ opt_clause ''#state'' '':state'' ''state'' AvS (ud_State u)
     @ opt_clause ''#zc'' '':zc'' ''zip_code'' AvS (ud_ZipCode u)
     @ opt_clause ''#country'' '':country'' ''country'' AvS (ud_Country u)
     @ opt_clause ''#isd'' '':isd'' ''is_default'' AvBOOL (ud_IsDefault u)"

lemma address_exprs_build: "address_exprs u = build (address_clauses u)"
  by (simp add: address_exprs_def address_clauses_def no_exprs_build del: build_Nil)

lemma good_address_clauses: "address_clauses u \<noteq> [] \<Longrightarrow> good_clauses (address_clauses u)"
proof -
  assume ne: "address_clauses u \<noteq> []"
  have "address_clauses u = opts
    [(''#alias'', '':alias'', ''alias'', map_option AvS (ud_Alias u)),
     (''#l1'', '':l1'', ''line1'', map_option AvS (ud_Line1 u)),
     (''#l2'', '':l2'', ''line2'', map_option AvS (ud_Line2 u)),
     (''#city'', '':city'', ''city'', map_option AvS (ud_City u)),
     (''#state'', '':state'', ''state'', map_option AvS (ud_State u)),
     (''#zc'', '':zc'', ''zip_code'', map_option AvS (ud_ZipCode u)),
     (''#country'', '':country'', ''country'', map_option AvS (ud_Country u)),
     (''#isd'', '':isd'', ''is_default'', map_option AvBOOL (ud_IsDefault u))]"
    by (simp add: address_clauses_def opts_opt del: opts.simps(2))
  with ne show ?thesis
    by (simp only:) (rule good_opts, simp_all add: token_def del: opts.simps(2))
qed

context dynamo
begin

lemma CreateAddress_spec:
  assumes "CreateAddress r fresh i a s = ((e, a'), s')"
  shows "a' = (if ad_AddressId a = [] then a\<lparr>ad_AddressId := ''addr_'' @ fresh\<rparr> else a)
    \<and> put_result DbAlreadyExists (tbl s (address_key i (ad_AddressId a')) = None)
      (address_key i (ad_AddressId a'))
      (Some (marshal_address (addressRecordFrom (createPK i) (addrSK (ad_AddressId a')) a')))
      (tbl s) e (tbl s')"
proof -
  define b where "b = (if ad_AddressId a = [] then a\<lparr>ad_AddressId := ''addr_'' @ fresh\<rparr> else a)"
  let ?it = "marshal_address (addressRecordFrom (createPK i) (addrSK (ad_AddressId b)) b)"
  obtain f s1 where w: "WriteItem (client r) (tab r) ?it (Some ''attribute_not_exists(SK)'') s = (f, s1)"
    by fastforce
  have ws: "write_spec (tbl s (address_key i (ad_AddressId b)) = None) (address_key i (ad_AddressId b))
      (Some ?it) (tbl s) f (tbl s1)"
    using put_spec [OF w, of "Some absent" "createPK i" "addrSK (ad_AddressId b)"]
    by (simp add: render_absent address_key_def addressRecordFrom_def)
  have run: "(case f of None \<Rightarrow> ((None, b), s1) | Some x \<Rightarrow>
      if x = ConditionalCheckFailed then ((Some DbAlreadyExists, b), s1) else ((Some x, b), s1)) = ((e, a'), s')"
    using assms w by (simp add: CreateAddress_def Let_def flip: b_def)
  then have "a' = b" "s' = s1" by (auto split: option.splits if_splits)
  moreover have "put_result DbAlreadyExists (tbl s (address_key i (ad_AddressId b)) = None)
      (address_key i (ad_AddressId b)) (Some ?it) (tbl s) e (tbl s1)"
    by (rule put_result_write [OF ws]) (use run in \<open>auto split: option.splits if_splits\<close>)
  ultimately show ?thesis by (simp add: b_def)
qed

lemma GetAddress_spec:
  assumes "GetAddress r i aid s = (x, s')"
  shows "tbl s' = tbl s \<and> (case x of
      Inr a \<Rightarrow> address_at (tbl s) i aid = Some a
    | Inl e \<Rightarrow> e = DbNotFound \<and> tbl s (address_key i aid) = None \<or> transport e \<or> e = unmarshal_error)"
proof (cases rule: build_key_cases [where p = "createPK i" and k = "addrSK aid"])
  case key
  obtain y s1 where g: "GetItem (client r) (tab r) (mk_key (createPK i) (addrSK aid)) s = (y, s1)" by fastforce
  from get_item [OF g] g key assms show ?thesis
    by (auto simp: GetAddress_def GetItemAs_def address_key_def address_at_def
        split: sum.splits option.splits)
next
  case (failed m)
  with assms show ?thesis by (auto simp: GetAddress_def)
qed

lemma UpdateAddress_spec:
  assumes "UpdateAddress r i aid u s = (e, s')"
  shows "(address_clauses u = [] \<and> tbl s' = tbl s)
    \<or> (\<exists>new. put_result DbNotFound (tbl s (address_key i aid) \<noteq> None) (address_key i aid) new (tbl s) e (tbl s')
        \<and> (\<forall>it. tbl s (address_key i aid) = Some it \<longrightarrow> new = Some (assign (address_clauses u) it)))"
proof (cases rule: build_key_cases [where p = "createPK i" and k = "addrSK aid"])
  case key
  let ?b = "build (address_clauses u)"
  show ?thesis
  proof (cases "address_clauses u = []")
    case True
    with key assms show ?thesis by (simp add: UpdateAddress_def address_exprs_build no_exprs_def)
  next
    case False
    obtain x s1 where u: "UpdateItem (client r) (tab r) (mk_key (createPK i) (addrSK aid)) (set_expr ?b)
        (exprValues ?b) (exprNames ?b) (Some ''attribute_exists(SK)'') s = (x, s1)" by fastforce
    have "(case x of Inr _ \<Rightarrow> (None, s1) | Inl e \<Rightarrow>
        if e = ConditionalCheckFailed then (Some DbNotFound, s1) else (Some e, s1)) = (e, s')"
      using assms key u False by (simp add: UpdateAddress_def address_exprs_build Let_def)
    from present_update_spec [OF u good_address_clauses [OF False] this] show ?thesis
      by (simp add: address_key_def)
  qed
next
  case (failed m)
  with assms show ?thesis
    by (auto simp: UpdateAddress_def intro!: exI [of _ "map_option (assign (address_clauses u)) (tbl s (address_key i aid))"]
        put_result_transport)
qed

lemma DeleteAddress_spec:
  "DeleteAddress r i aid s = (e, s') \<Longrightarrow>
    tbl s' = (tbl s)(address_key i aid := None) \<and> (\<forall>x. e = Some x \<longrightarrow> transport x)
    \<or> tbl s' = tbl s \<and> (\<exists>x. e = Some x \<and> transport x)"
  unfolding DeleteAddress_def address_key_def by (rule delete_spec)

end

section \<open>Properties\<close>

text \<open>The update on the model; an empty alias or second line reads back as absent.\<close>

definition updated_address :: "update_address_request \<Rightarrow> address \<Rightarrow> address" where
  "updated_address u a = a\<lparr>
     ad_Alias := (case ud_Alias u of None \<Rightarrow> ad_Alias a | Some x \<Rightarrow> optStr x),
     ad_Line1 := opt_or (ad_Line1 a) (ud_Line1 u),
     ad_Line2 := (case ud_Line2 u of None \<Rightarrow> ad_Line2 a | Some x \<Rightarrow> optStr x),
     ad_City := opt_or (ad_City a) (ud_City u), ad_State := opt_or (ad_State a) (ud_State u),
     ad_ZipCode := opt_or (ad_ZipCode a) (ud_ZipCode u), ad_Country := opt_or (ad_Country a) (ud_Country u),
     ad_IsDefault := opt_or (ad_IsDefault a) (ud_IsDefault u)\<rparr>"

lemma unmarshal_address_iff:
  "unmarshal_address it = Some d \<longleftrightarrow> field av_to_str [] ''PK'' it = Some (dr_PK d)
   \<and> field av_to_str [] ''SK'' it = Some (dr_SK d)
   \<and> field av_to_str [] ''address_id'' it = Some (dr_AddressID d)
   \<and> field av_to_str [] ''alias'' it = Some (dr_Alias d)
   \<and> field av_to_str [] ''line1'' it = Some (dr_Line1 d)
   \<and> field av_to_str [] ''line2'' it = Some (dr_Line2 d)
   \<and> field av_to_str [] ''city'' it = Some (dr_City d)
   \<and> field av_to_str [] ''state'' it = Some (dr_State d)
   \<and> field av_to_str [] ''zip_code'' it = Some (dr_ZipCode d)
   \<and> field av_to_str [] ''country'' it = Some (dr_Country d)
   \<and> field av_to_bool False ''is_default'' it = Some (dr_IsDefault d)"
  by (cases d) (auto simp: unmarshal_address_def bind_eq_Some_conv)

lemma address_at_updated:
  assumes "tb (address_key i aid) = Some it" "address_at tb i aid = Some a"
  shows "address_at (tb(address_key i aid \<mapsto> assign (address_clauses u) it)) i aid = Some (updated_address u a)"
proof -
  from assms obtain d where d: "unmarshal_address it = Some d" "a = address_toModel d"
    by (auto simp: address_at_def)
  let ?d = "d\<lparr>dr_Alias := opt_or (dr_Alias d) (ud_Alias u), dr_Line1 := opt_or (dr_Line1 d) (ud_Line1 u),
    dr_Line2 := opt_or (dr_Line2 d) (ud_Line2 u), dr_City := opt_or (dr_City d) (ud_City u),
    dr_State := opt_or (dr_State d) (ud_State u), dr_ZipCode := opt_or (dr_ZipCode d) (ud_ZipCode u),
    dr_Country := opt_or (dr_Country d) (ud_Country u), dr_IsDefault := opt_or (dr_IsDefault d) (ud_IsDefault u)\<rparr>"
  have "unmarshal_address (assign (address_clauses u) it) = Some ?d"
    using d(1) unfolding unmarshal_address_iff
    by (simp add: address_clauses_def field_opt_gen)
      (intro conjI; simp add: opt_or_def split: option.split)
  moreover have "address_toModel ?d = updated_address u a"
    by (simp add: d(2) address_toModel_def updated_address_def)
      (intro conjI; simp add: opt_or_def split: option.split)
  ultimately show ?thesis by (simp add: address_at_def)
qed

definition sample_address :: address where
  "sample_address = \<lparr>ad_AddressId = [], ad_Alias = Some ''Home'', ad_City = ''Oslo'', ad_Country = ''NO'',
     ad_IsDefault = True, ad_Line1 = ''Main 1'', ad_Line2 = None, ad_State = ''OS'', ad_ZipCode = ''0150''\<rparr>"

definition address_mem :: mem where
  "address_mem = snd (CreateAddress mem_repo ''k1'' ''a1'' sample_address sample_mem)"

definition two_address_mem :: mem where
  "two_address_mem = snd (CreateAddress mem_repo ''k2'' ''a1'' sample_address address_mem)"

lemma address_mem_created: "CreateAddress mem_repo ''k1'' ''a1'' sample_address sample_mem
    = ((None, sample_address\<lparr>ad_AddressId := ''addr_k1''\<rparr>), address_mem)"
  unfolding address_mem_def prod_eq_iff fst_conv snd_conv by (intro conjI refl) code_simp+

text \<open>CreateAddress: Adding an address never overwrites one: on success the identifier, the
  caller's or a new one, was free, a read gives back the address (an empty alias or second line as
  absent), and no other item changes; \<open>ErrAlreadyExists\<close> means that the identifier is taken, and then
  nothing changes.\<close>

theorem CreateAddress_correct:
  assumes "dynamo r tbl ssl fits" and "CreateAddress r fresh i a s = ((e, a'), s')"
  shows "(\<forall>k. k \<noteq> address_key i (ad_AddressId a') \<longrightarrow> tbl s' k = tbl s k)
    \<and> (ad_AddressId a \<noteq> [] \<longrightarrow> a' = a) \<and> ad_AddressId a' \<noteq> []
    \<and> (case e of
        None \<Rightarrow> tbl s (address_key i (ad_AddressId a')) = None
          \<and> address_at (tbl s') i (ad_AddressId a') = Some (norm_address a')
      | Some x \<Rightarrow> (transport x \<or> x = DbAlreadyExists \<and> tbl s (address_key i (ad_AddressId a')) \<noteq> None \<and> tbl s' = tbl s)
          \<and> (tbl s (address_key i (ad_AddressId a')) \<noteq> None \<longrightarrow> tbl s' = tbl s))"
  using dynamo.CreateAddress_spec [OF assms]
  by (cases e) (auto simp: put_result_def address_at_def unmarshal_marshal_address split: if_splits)

lemma CreateAddress_correct_witness:
  "CreateAddress mem_repo ''k1'' ''a1'' sample_address sample_mem
      = ((None, sample_address\<lparr>ad_AddressId := ''addr_k1''\<rparr>), address_mem)
    \<and> address_at (mem_tbl address_mem) ''a1'' ''addr_k1'' = Some (sample_address\<lparr>ad_AddressId := ''addr_k1''\<rparr>)"
  using CreateAddress_correct [OF mem.dynamo_axioms address_mem_created] address_mem_created
  by (simp add: norm_address_def sample_address_def)

lemma UpdateAddress_no_fields:
  assumes "dynamo r tbl ssl fits" and "address_clauses u = []" and "UpdateAddress r i aid u s = (e, s')"
  shows "\<forall>x. e = Some x \<longrightarrow> transport x"
  using assms(2,3) dynamo.build_key [OF assms(1), of "createPK i" "addrSK aid"]
  by (auto simp: UpdateAddress_def address_exprs_build no_exprs_def)

text \<open>C36 (UpdateAddress). An address update changes exactly the fields given, in one item: a read
  gives the old address with them replaced. \<open>ErrNotFound\<close> means that there is no such address, and then
  nothing is created. A request without fields changes nothing.\<close>

theorem UpdateAddress_correct:
  assumes "dynamo r tbl ssl fits" and "UpdateAddress r i aid u s = (e, s')"
  shows "(\<forall>k. k \<noteq> address_key i aid \<longrightarrow> tbl s' k = tbl s k)
    \<and> (tbl s (address_key i aid) = None \<longrightarrow> tbl s' = tbl s)
    \<and> (\<forall>a. address_at (tbl s) i aid = Some a \<longrightarrow>
        (case e of None \<Rightarrow> address_at (tbl s') i aid = Some (updated_address u a)
         | Some x \<Rightarrow> transport x \<and> (address_at (tbl s') i aid \<in> {Some a, Some (updated_address u a)})))"
proof -
  have eq: "updated_address u a = a" if "address_clauses u = []" for a
    using that by (auto simp: address_clauses_def updated_address_def opt_clause_def split: option.splits)
  from dynamo.UpdateAddress_spec [OF assms] consider
      (none) "address_clauses u = []" "tbl s' = tbl s" |
      (some) new where "put_result DbNotFound (tbl s (address_key i aid) \<noteq> None) (address_key i aid) new (tbl s) e (tbl s')"
        "\<forall>it. tbl s (address_key i aid) = Some it \<longrightarrow> new = Some (assign (address_clauses u) it)" by blast
  then show ?thesis
  proof cases
    case none
    with UpdateAddress_no_fields [OF assms(1) none(1) assms(2)] eq show ?thesis
      by (cases e) auto
  next
    case some
    have present: "\<exists>it. tbl s (address_key i aid) = Some it" if "address_at (tbl s) i aid = Some a" for a
      using that by (cases "tbl s (address_key i aid)") (auto simp: address_at_def)
    from some(1) show ?thesis
      unfolding put_result_def
    proof
      assume l: "tbl s (address_key i aid) \<noteq> None \<and> tbl s' = (tbl s)(address_key i aid := new)
        \<and> (\<forall>x. e = Some x \<longrightarrow> transport x)"
      then obtain it where it: "tbl s (address_key i aid) = Some it" by blast
      with some(2) l address_at_updated [where tb = "tbl s", OF it] show ?thesis
        by (cases e) auto
    next
      assume "tbl s' = tbl s \<and> (\<exists>x. e = Some x \<and> (transport x \<or> x = DbNotFound \<and> \<not> tbl s (address_key i aid) \<noteq> None))"
      with present show ?thesis by (auto simp: address_at_def)
    qed
  qed
qed

definition sample_move :: update_address_request where
  "sample_move = \<lparr>ud_Alias = Some [], ud_City = Some ''Bergen'', ud_Country = None, ud_IsDefault = None,
     ud_Line1 = None, ud_Line2 = None, ud_State = None, ud_ZipCode = None\<rparr>"

lemma UpdateAddress_correct_witness:
  "\<exists>s'. UpdateAddress mem_repo ''a1'' ''addr_k1'' sample_move address_mem = (None, s')
    \<and> address_at (mem_tbl s') ''a1'' ''addr_k1''
      = Some (sample_address\<lparr>ad_AddressId := ''addr_k1'', ad_Alias := None, ad_City := ''Bergen''\<rparr>)"
proof -
  have "fst (UpdateAddress mem_repo ''a1'' ''addr_k1'' sample_move address_mem) = None" by code_simp
  then obtain s' where run: "UpdateAddress mem_repo ''a1'' ''addr_k1'' sample_move address_mem = (None, s')"
    by (metis prod.collapse)
  with UpdateAddress_correct [OF mem.dynamo_axioms run]
    CreateAddress_correct [OF mem.dynamo_axioms address_mem_created]
  show ?thesis by (simp add: norm_address_def sample_address_def updated_address_def sample_move_def)
qed

text \<open>C35 (SetAddressDefault). Choosing a default address leaves exactly one: on success the target is
  the only address of the account flagged as default, every other attribute of every address except
  the change time is as before, and nothing outside the account's addresses changes. When it fails,
  the table is unchanged or the change is complete; it fails with \<open>ErrNotFound\<close> only without such
  an address.\<close>

theorem SetAddressDefault_correct:
  assumes "dynamo r tbl ssl fits" and "SetAddressDefault r now i aid s = (e, s')"
    and "G = keys_of (createPK i) ''ADDR#''" and "group_fits fits (tbl s) G"
    and "card (flagged (tbl s) G) < 100"
  shows "(\<forall>k. k \<notin> G \<longrightarrow> tbl s' k = tbl s k)
    \<and> (\<forall>k it. tbl s k = Some it \<longrightarrow> (\<exists>it'. tbl s' k = Some it'
        \<and> (\<forall>a. a \<noteq> ''is_default'' \<and> a \<noteq> ''updated_at'' \<longrightarrow> it' a = it a)))
    \<and> (case e of
        None \<Rightarrow> flagged (tbl s') G = {address_key i aid}
      | Some x \<Rightarrow> (tbl s' = tbl s \<or> flagged (tbl s') G = {address_key i aid})
          \<and> (x = DbNotFound \<longrightarrow> tbl s (address_key i aid) = None))"
  by (rule dynamo.default_moved [OF assms(1) assms(2) [unfolded SetAddressDefault_def] assms(3) _ assms(4,5),
      folded address_key_def])
    (simp add: assms(3) keys_of_def addrSK_def address_key_def has_prefix_def)

lemma address_flagged:
  assumes "CreateAddress mem_repo fresh ''a1'' sample_address s = ((None, a'), s')"
  shows "flagged (mem_tbl s') (keys_of (createPK ''a1'') ''ADDR#'')
    = insert (address_key ''a1'' (ad_AddressId a')) (flagged (mem_tbl s) (keys_of (createPK ''a1'') ''ADDR#''))"
proof -
  have "address_key ''a1'' (ad_AddressId a') \<in> keys_of (createPK ''a1'') ''ADDR#''"
    by (simp add: keys_of_def address_key_def addrSK_def has_prefix_def)
  with mem.CreateAddress_spec [OF assms] show ?thesis
    by (auto simp: put_result_def addressRecordFrom_def sample_address_def intro!: flagged_upd split: if_splits)
qed

lemma two_address_mem_created: "CreateAddress mem_repo ''k2'' ''a1'' sample_address address_mem
    = ((None, sample_address\<lparr>ad_AddressId := ''addr_k2''\<rparr>), two_address_mem)"
  unfolding two_address_mem_def prod_eq_iff fst_conv snd_conv by (intro conjI refl) code_simp+

lemma SetAddressDefault_correct_witness:
  "flagged (mem_tbl two_address_mem) (keys_of (createPK ''a1'') ''ADDR#'')
      = {address_key ''a1'' ''addr_k1'', address_key ''a1'' ''addr_k2''}
    \<and> (\<exists>s'. SetAddressDefault mem_repo sample_time ''a1'' ''addr_k2'' two_address_mem = (None, s')
      \<and> flagged (mem_tbl s') (keys_of (createPK ''a1'') ''ADDR#'') = {address_key ''a1'' ''addr_k2''})"
proof -
  let ?G = "keys_of (createPK ''a1'') ''ADDR#''"
  have fl: "flagged (mem_tbl two_address_mem) ?G = {address_key ''a1'' ''addr_k1'', address_key ''a1'' ''addr_k2''}"
    using address_flagged [OF address_mem_created] address_flagged [OF two_address_mem_created]
      sample_mem_flagged by (simp add: insert_commute)
  have "card (flagged (mem_tbl two_address_mem) ?G) < 100"
    unfolding fl by (simp add: card_insert_if)
  moreover have "group_fits (\<lambda>_. True) (mem_tbl two_address_mem) ?G" by (simp add: group_fits_def)
  moreover have "fst (SetAddressDefault mem_repo sample_time ''a1'' ''addr_k2'' two_address_mem) = None" by code_simp
  then obtain s' where run: "SetAddressDefault mem_repo sample_time ''a1'' ''addr_k2'' two_address_mem = (None, s')"
    by (metis prod.collapse)
  ultimately show ?thesis
    using SetAddressDefault_correct [OF mem.dynamo_axioms run refl] fl run by simp
qed

end
