(* ===== verification/Payments_Db.thy ===== *)
theory Payments_Db
  imports Defaults_Db
begin

text \<open>\<open>internal/db/payments.go\<close>: the payment-method items of an account.\<close>

section \<open>Record\<close>

record payment_record =
  mr_PK :: string
  mr_SK :: string
  mr_PaymentID :: string
  mr_Provider :: string
  mr_Last4 :: string
  mr_Brand :: string
  mr_ExpiryMonth :: go_int
  mr_ExpiryYear :: go_int
  mr_IsDefault :: bool

definition marshal_payment :: "payment_record \<Rightarrow> item" where
  "marshal_payment m = [''PK'' \<mapsto> AvS (mr_PK m), ''SK'' \<mapsto> AvS (mr_SK m),
     ''payment_id'' \<mapsto> AvS (mr_PaymentID m), ''provider'' \<mapsto> AvS (mr_Provider m),
     ''last4'' \<mapsto> AvS (mr_Last4 m), ''brand'' \<mapsto> AvS (mr_Brand m),
     ''expiry_month'' \<mapsto> av_int (mr_ExpiryMonth m), ''expiry_year'' \<mapsto> av_int (mr_ExpiryYear m),
     ''is_default'' \<mapsto> AvBOOL (mr_IsDefault m)]"

definition unmarshal_payment :: "item \<Rightarrow> payment_record option" where
  "unmarshal_payment it = do {
     pk \<leftarrow> field av_to_str [] ''PK'' it;
     sk \<leftarrow> field av_to_str [] ''SK'' it;
     payment_id \<leftarrow> field av_to_str [] ''payment_id'' it;
     provider \<leftarrow> field av_to_str [] ''provider'' it;
     last4 \<leftarrow> field av_to_str [] ''last4'' it;
     brand \<leftarrow> field av_to_str [] ''brand'' it;
     expiry_month \<leftarrow> field av_to_int 0 ''expiry_month'' it;
     expiry_year \<leftarrow> field av_to_int 0 ''expiry_year'' it;
     is_default \<leftarrow> field av_to_bool False ''is_default'' it;
     Some \<lparr>mr_PK = pk, mr_SK = sk, mr_PaymentID = payment_id, mr_Provider = provider,
       mr_Last4 = last4, mr_Brand = brand, mr_ExpiryMonth = expiry_month,
       mr_ExpiryYear = expiry_year, mr_IsDefault = is_default\<rparr> }"

definition payment_toModel :: "payment_record \<Rightarrow> payment_method" where
  "payment_toModel m = \<lparr>pm_Brand = mr_Brand m, pm_ExpiryMonth = mr_ExpiryMonth m,
     pm_ExpiryYear = mr_ExpiryYear m, pm_IsDefault = mr_IsDefault m, pm_Last4 = mr_Last4 m,
     pm_PaymentId = mr_PaymentID m, pm_Provider = mr_Provider m\<rparr>"

definition paymentRecordFrom :: "string \<Rightarrow> string \<Rightarrow> payment_method \<Rightarrow> payment_record" where
  "paymentRecordFrom pk sk m = \<lparr>mr_PK = pk, mr_SK = sk, mr_PaymentID = pm_PaymentId m,
     mr_Provider = pm_Provider m, mr_Last4 = pm_Last4 m, mr_Brand = pm_Brand m,
     mr_ExpiryMonth = pm_ExpiryMonth m, mr_ExpiryYear = pm_ExpiryYear m,
     mr_IsDefault = pm_IsDefault m\<rparr>"

section \<open>Operations\<close>

definition GetPayment :: "'s repo \<Rightarrow> string \<Rightarrow> string \<Rightarrow> 's \<Rightarrow> (error + payment_method) \<times> 's" where
  "GetPayment r accountID paymentID s =
     (case BuildKey (client r) ''PK'' (createPK accountID) ''SK'' (paySK paymentID) of
        Inl e \<Rightarrow> (Inl e, s)
      | Inr key \<Rightarrow> (case GetItemAs r unmarshal_payment key s of
          (Inl e, s') \<Rightarrow> (Inl e, s')
        | (Inr m, s') \<Rightarrow> (Inr (payment_toModel m), s')))"

text \<open>An empty identifier means a new payment method; the method, with its identifier set, is
  returned as the caller's pointer shows it.\<close>

definition UpsertPayment ::
  "'s repo \<Rightarrow> string \<Rightarrow> string \<Rightarrow> payment_method \<Rightarrow> 's \<Rightarrow> (error option \<times> payment_method) \<times> 's" where
  "UpsertPayment r fresh accountID method s =
     (let isCreate = (pm_PaymentId method = []);
          method' = (if isCreate then method\<lparr>pm_PaymentId := ''pay_'' @ fresh\<rparr> else method);
          rc = paymentRecordFrom (createPK accountID) (paySK (pm_PaymentId method')) method';
          condition = (if isCreate then ''attribute_not_exists(SK)'' else ''attribute_exists(SK)'')
      in case WriteItem (client r) (tab r) (marshal_payment rc) (Some condition) s of
           (None, s') \<Rightarrow> ((None, method'), s')
         | (Some e, s') \<Rightarrow>
             if e = ConditionalCheckFailed
             then ((Some (if isCreate then DbAlreadyExists else DbNotFound), method'), s')
             else ((Some e, method'), s'))"

definition ListPayments :: "'s repo \<Rightarrow> string \<Rightarrow> 's \<Rightarrow> (error + payment_method list) \<times> 's" where
  "ListPayments r accountID s =
     (case unmarshal_list unmarshal_payment
        (Query (client r) (prefix_query r (createPK accountID) ''PAY#'' None (Some 100)) s) of
        (Inl e, s') \<Rightarrow> (Inl e, s')
      | (Inr records, s') \<Rightarrow> (Inr (map payment_toModel records), s'))"

definition DeletePayment :: "'s repo \<Rightarrow> string \<Rightarrow> string \<Rightarrow> 's \<Rightarrow> error option \<times> 's" where
  "DeletePayment r accountID paymentID s =
     (case BuildKey (client r) ''PK'' (createPK accountID) ''SK'' (paySK paymentID) of
        Inl e \<Rightarrow> (Some e, s)
      | Inr key \<Rightarrow> DeleteItem (client r) (tab r) key s)"

definition SetPaymentDefault :: "'s repo \<Rightarrow> gtime \<Rightarrow> string \<Rightarrow> string \<Rightarrow> 's \<Rightarrow> error option \<times> 's" where
  "SetPaymentDefault r now accountID paymentID s =
     demoteAndPromoteDefault r now (createPK accountID) ''PAY#'' (paySK paymentID) s"

section \<open>The abstract view of a payment method\<close>

definition payment_key :: "string \<Rightarrow> string \<Rightarrow> key" where
  "payment_key i pid = (createPK i, paySK pid)"

definition payment_at :: "table \<Rightarrow> string \<Rightarrow> string \<Rightarrow> payment_method option" where
  "payment_at tb i pid =
     Option.bind (tb (payment_key i pid)) (\<lambda>it. map_option payment_toModel (unmarshal_payment it))"

lemma payment_key_neutral [simp]: "neutral_key (payment_key i pid)"
  by (auto simp: neutral_key_def payment_key_def key_simps)

lemma marshal_payment_keys [simp]:
  "marshal_payment d ''PK'' = Some (AvS (mr_PK d))" "marshal_payment d ''SK'' = Some (AvS (mr_SK d))"
  "marshal_payment d ''GSI1SK'' = None" "marshal_payment d ''is_default'' = Some (AvBOOL (mr_IsDefault d))"
  by (simp_all add: marshal_payment_def)

lemma unmarshal_marshal_payment [decode_simps]: "unmarshal_payment (marshal_payment d) = Some d"
  by (simp add: unmarshal_payment_def marshal_payment_def av_to_int_av_int field_def[of _ _ _ Map.empty])

lemma payment_toModel_from [simp]: "payment_toModel (paymentRecordFrom pk sk a) = a"
  by (simp add: payment_toModel_def paymentRecordFrom_def)

text \<open>The method as stored: with the new identifier when it had none.\<close>

definition with_payment_id :: "string \<Rightarrow> payment_method \<Rightarrow> payment_method" where
  "with_payment_id fresh m = (if pm_PaymentId m = [] then m\<lparr>pm_PaymentId := ''pay_'' @ fresh\<rparr> else m)"

lemma UpsertPayment_alt:
  "UpsertPayment r fresh i m s =
     (let m' = with_payment_id fresh m;
          it = marshal_payment (paymentRecordFrom (createPK i) (paySK (pm_PaymentId m')) m')
      in case WriteItem (client r) (tab r) it
           (Some (if pm_PaymentId m = [] then ''attribute_not_exists(SK)'' else ''attribute_exists(SK)'')) s of
           (None, s') \<Rightarrow> ((None, m'), s')
         | (Some e, s') \<Rightarrow>
             if e = ConditionalCheckFailed
             then ((Some (if pm_PaymentId m = [] then DbAlreadyExists else DbNotFound), m'), s')
             else ((Some e, m'), s'))"
  by (simp add: UpsertPayment_def with_payment_id_def Let_def)

context dynamo
begin

lemma UpsertPayment_spec:
  assumes "UpsertPayment r fresh i m s = ((e, m'), s')"
  shows "m' = with_payment_id fresh m
    \<and> put_result (if pm_PaymentId m = [] then DbAlreadyExists else DbNotFound)
      ((tbl s (payment_key i (pm_PaymentId m')) = None) = (pm_PaymentId m = []))
      (payment_key i (pm_PaymentId m'))
      (Some (marshal_payment (paymentRecordFrom (createPK i) (paySK (pm_PaymentId m')) m')))
      (tbl s) e (tbl s')"
proof -
  define b where "b = with_payment_id fresh m"
  let ?new = "pm_PaymentId m = []"
  let ?it = "marshal_payment (paymentRecordFrom (createPK i) (paySK (pm_PaymentId b)) b)"
  let ?kk = "payment_key i (pm_PaymentId b)"
  let ?c = "if ?new then ''attribute_not_exists(SK)'' else ''attribute_exists(SK)''"
  obtain f s1 where w: "WriteItem (client r) (tab r) ?it (Some ?c) s = (f, s1)" by fastforce
  have ws: "write_spec ((tbl s ?kk = None) = ?new) ?kk (Some ?it) (tbl s) f (tbl s1)"
    using put_spec [OF w, of "Some (if ?new then absent else present)" "createPK i" "paySK (pm_PaymentId b)"]
    by (cases ?new) (simp_all add: render_absent render_present payment_key_def paymentRecordFrom_def)
  have run: "(case f of None \<Rightarrow> ((None, b), s1) | Some x \<Rightarrow>
      if x = ConditionalCheckFailed then ((Some (if ?new then DbAlreadyExists else DbNotFound), b), s1)
      else ((Some x, b), s1)) = ((e, m'), s')"
    using assms w unfolding UpsertPayment_alt Let_def b_def [symmetric] by simp
  then have "m' = b" "s' = s1" by (auto split: option.splits if_splits)
  moreover have "put_result (if ?new then DbAlreadyExists else DbNotFound) ((tbl s ?kk = None) = ?new) ?kk
      (Some ?it) (tbl s) e (tbl s1)"
    by (rule put_result_write [OF ws]) (use run in \<open>auto split: option.splits if_splits\<close>)
  ultimately show ?thesis by (simp add: b_def)
qed

lemma GetPayment_spec:
  assumes "GetPayment r i pid s = (x, s')"
  shows "tbl s' = tbl s \<and> (case x of
      Inr a \<Rightarrow> payment_at (tbl s) i pid = Some a
    | Inl e \<Rightarrow> e = DbNotFound \<and> tbl s (payment_key i pid) = None \<or> transport e \<or> e = unmarshal_error)"
proof (cases rule: build_key_cases [where p = "createPK i" and k = "paySK pid"])
  case key
  obtain y s1 where g: "GetItem (client r) (tab r) (mk_key (createPK i) (paySK pid)) s = (y, s1)" by fastforce
  from get_item [OF g] g key assms show ?thesis
    by (auto simp: GetPayment_def GetItemAs_def payment_key_def payment_at_def
        split: sum.splits option.splits)
next
  case (failed m)
  with assms show ?thesis by (auto simp: GetPayment_def)
qed

lemma DeletePayment_spec:
  "DeletePayment r i pid s = (e, s') \<Longrightarrow>
    tbl s' = (tbl s)(payment_key i pid := None) \<and> (\<forall>x. e = Some x \<longrightarrow> transport x)
    \<or> tbl s' = tbl s \<and> (\<exists>x. e = Some x \<and> transport x)"
  unfolding DeletePayment_def payment_key_def by (rule delete_spec)

end

section \<open>Properties\<close>

definition sample_payment :: payment_method where
  "sample_payment = \<lparr>pm_Brand = ''visa'', pm_ExpiryMonth = 12, pm_ExpiryYear = 2030, pm_IsDefault = True,
     pm_Last4 = ''4242'', pm_PaymentId = [], pm_Provider = ''stripe''\<rparr>"

definition payment_mem :: mem where
  "payment_mem = snd (UpsertPayment mem_repo ''k1'' ''a1'' sample_payment sample_mem)"

lemma payment_mem_run: "UpsertPayment mem_repo ''k1'' ''a1'' sample_payment sample_mem
    = ((None, sample_payment\<lparr>pm_PaymentId := ''pay_k1''\<rparr>), payment_mem)"
  unfolding payment_mem_def prod_eq_iff fst_conv snd_conv by (intro conjI refl) code_simp+

text \<open>UpsertPayment: Without an identifier the operation creates, under the new one, only where
  no item is; with an identifier it replaces, only where an item is: so it never overwrites by
  accident and never resurrects a deleted method. On success a read gives back the whole method, and
  no other item changes. \<open>ErrAlreadyExists\<close> and \<open>ErrNotFound\<close> tell the two refusals apart, and then
  nothing changes.\<close>

theorem UpsertPayment_correct:
  assumes "dynamo r tbl ssl fits" and "UpsertPayment r fresh i m s = ((e, m'), s')"
  shows "m' = with_payment_id fresh m
    \<and> (\<forall>k. k \<noteq> payment_key i (pm_PaymentId m') \<longrightarrow> tbl s' k = tbl s k)
    \<and> (case e of
        None \<Rightarrow> payment_at (tbl s') i (pm_PaymentId m') = Some m'
          \<and> (tbl s (payment_key i (pm_PaymentId m')) = None \<longleftrightarrow> pm_PaymentId m = [])
      | Some x \<Rightarrow> transport x
          \<or> tbl s' = tbl s \<and> x = DbAlreadyExists \<and> pm_PaymentId m = [] \<and> tbl s (payment_key i (pm_PaymentId m')) \<noteq> None
          \<or> tbl s' = tbl s \<and> x = DbNotFound \<and> pm_PaymentId m \<noteq> [] \<and> tbl s (payment_key i (pm_PaymentId m')) = None)"
  using dynamo.UpsertPayment_spec [OF assms]
  by (cases e) (auto simp: put_result_def payment_at_def unmarshal_marshal_payment split: if_splits)

lemma UpsertPayment_correct_witness:
  "UpsertPayment mem_repo ''k1'' ''a1'' sample_payment sample_mem
      = ((None, sample_payment\<lparr>pm_PaymentId := ''pay_k1''\<rparr>), payment_mem)
    \<and> payment_at (mem_tbl payment_mem) ''a1'' ''pay_k1'' = Some (sample_payment\<lparr>pm_PaymentId := ''pay_k1''\<rparr>)"
  using UpsertPayment_correct [OF mem.dynamo_axioms payment_mem_run] payment_mem_run by simp

text \<open>SetPaymentDefault: As for addresses: on success the target is the only payment method of the
  account flagged as default, and nothing but the flags and their change times is different.\<close>

theorem SetPaymentDefault_correct:
  assumes "dynamo r tbl ssl fits" and "SetPaymentDefault r now i pid s = (e, s')"
    and "G = keys_of (createPK i) ''PAY#''" and "group_fits fits (tbl s) G"
    and "card (flagged (tbl s) G) < 100"
  shows "(\<forall>k. k \<notin> G \<longrightarrow> tbl s' k = tbl s k)
    \<and> (\<forall>k it. tbl s k = Some it \<longrightarrow> (\<exists>it'. tbl s' k = Some it'
        \<and> (\<forall>a. a \<noteq> ''is_default'' \<and> a \<noteq> ''updated_at'' \<longrightarrow> it' a = it a)))
    \<and> (case e of
        None \<Rightarrow> flagged (tbl s') G = {payment_key i pid}
      | Some x \<Rightarrow> (tbl s' = tbl s \<or> flagged (tbl s') G = {payment_key i pid})
          \<and> (x = DbNotFound \<longrightarrow> tbl s (payment_key i pid) = None))"
  by (rule dynamo.default_moved [OF assms(1) assms(2) [unfolded SetPaymentDefault_def] assms(3) _ assms(4,5),
      folded payment_key_def])
    (simp add: assms(3) keys_of_def paySK_def payment_key_def has_prefix_def)

lemma payment_flagged: "flagged (mem_tbl payment_mem) (keys_of (createPK ''a1'') ''PAY#'') = {payment_key ''a1'' ''pay_k1''}"
proof -
  have "payment_key ''a1'' ''pay_k1'' \<in> keys_of (createPK ''a1'') ''PAY#''"
    by (simp add: keys_of_def payment_key_def paySK_def has_prefix_def)
  with mem.UpsertPayment_spec [OF payment_mem_run] sample_mem_flagged show ?thesis
    by (simp add: put_result_def flagged_upd paymentRecordFrom_def sample_payment_def split: if_splits)
qed

lemma SetPaymentDefault_correct_witness:
  "\<exists>s'. SetPaymentDefault mem_repo sample_time ''a1'' ''pay_k1'' payment_mem = (None, s')
    \<and> flagged (mem_tbl s') (keys_of (createPK ''a1'') ''PAY#'') = {payment_key ''a1'' ''pay_k1''}"
proof -
  let ?G = "keys_of (createPK ''a1'') ''PAY#''"
  have "card (flagged (mem_tbl payment_mem) ?G) < 100" unfolding payment_flagged by simp
  moreover have "group_fits (\<lambda>_. True) (mem_tbl payment_mem) ?G" by (simp add: group_fits_def)
  moreover have "fst (SetPaymentDefault mem_repo sample_time ''a1'' ''pay_k1'' payment_mem) = None" by code_simp
  then obtain s' where run: "SetPaymentDefault mem_repo sample_time ''a1'' ''pay_k1'' payment_mem = (None, s')"
    by (metis prod.collapse)
  ultimately show ?thesis using SetPaymentDefault_correct [OF mem.dynamo_axioms run refl] run by simp
qed

end
