(* ===== verification/Prefs_Db.thy ===== *)
theory Prefs_Db
  imports Defaults_Db
begin

text \<open>\<open>internal/db/preferences.go\<close>: the preferences item of an account.\<close>

record prefs_record =
  fr_PK :: string
  fr_SK :: string
  fr_Language :: string
  fr_Timezone :: string
  fr_Communication :: "(string \<times> bool) list"

definition unmarshal_prefs :: "item \<Rightarrow> prefs_record option" where
  "unmarshal_prefs it = do {
     pk \<leftarrow> field av_to_str [] ''PK'' it;
     sk \<leftarrow> field av_to_str [] ''SK'' it;
     language \<leftarrow> field av_to_str [] ''language'' it;
     timezone \<leftarrow> field av_to_str [] ''timezone'' it;
     communication \<leftarrow> field av_to_map [] ''communication'' it;
     Some \<lparr>fr_PK = pk, fr_SK = sk, fr_Language = language, fr_Timezone = timezone,
       fr_Communication = communication\<rparr> }"

definition prefs_toModel :: "prefs_record \<Rightarrow> preferences" where
  "prefs_toModel p = \<lparr>pr_Communication = optMap (fr_Communication p),
     pr_Language = optStr (fr_Language p), pr_Timezone = optStr (fr_Timezone p)\<rparr>"

definition GetAccountPreferences :: "'s repo \<Rightarrow> string \<Rightarrow> 's \<Rightarrow> (error + preferences) \<times> 's" where
  "GetAccountPreferences r accountID s =
     (case BuildKey (client r) ''PK'' (createPK accountID) ''SK'' prefsSK of
        Inl e \<Rightarrow> (Inl e, s)
      | Inr key \<Rightarrow> (case GetItemAs r unmarshal_prefs key s of
          (Inl e, s') \<Rightarrow> (Inl e, s')
        | (Inr p, s') \<Rightarrow> (Inr (prefs_toModel p), s')))"

definition prefs_exprs :: "preferences \<Rightarrow> expr_build" where
  "prefs_exprs req =
     set_field ''#comm'' '':comm'' ''communication'' av_bools (pr_Communication req)
    (set_field ''#tz'' '':tz'' ''timezone'' AvS (pr_Timezone req)
    (set_field ''#lang'' '':lang'' ''language'' AvS (pr_Language req) no_exprs))"

definition UpdateAccountPreferences :: "'s repo \<Rightarrow> string \<Rightarrow> preferences \<Rightarrow> 's \<Rightarrow> error option \<times> 's" where
  "UpdateAccountPreferences r accountID req s =
     (case BuildKey (client r) ''PK'' (createPK accountID) ''SK'' prefsSK of
        Inl e \<Rightarrow> (Some e, s)
      | Inr key \<Rightarrow>
          (let b = prefs_exprs req
           in if length (setClauses b) = 0 then (None, s)
              else case UpdateItem (client r) (tab r) key (set_expr b) (exprValues b) (exprNames b) None s of
                (Inr _, s') \<Rightarrow> (None, s')
              | (Inl e, s') \<Rightarrow> (Some e, s')))"

section \<open>The abstract view of the preferences\<close>

definition prefs_key :: "string \<Rightarrow> key" where
  "prefs_key i = (createPK i, prefsSK)"

definition prefs_at :: "table \<Rightarrow> string \<Rightarrow> preferences option" where
  "prefs_at tb i = Option.bind (tb (prefs_key i)) (\<lambda>it. map_option prefs_toModel (unmarshal_prefs it))"

lemma prefs_key_neutral [simp]: "neutral_key (prefs_key i)"
  by (auto simp: neutral_key_def prefs_key_def key_simps)

definition prefs_clauses :: "preferences \<Rightarrow> clause list" where
  "prefs_clauses u = opt_clause ''#lang'' '':lang'' ''language'' AvS (pr_Language u)
     @ opt_clause ''#tz'' '':tz'' ''timezone'' AvS (pr_Timezone u)
     @ opt_clause ''#comm'' '':comm'' ''communication'' av_bools (pr_Communication u)"

lemma prefs_exprs_build: "prefs_exprs u = build (prefs_clauses u)"
  by (simp add: prefs_exprs_def prefs_clauses_def no_exprs_build del: build_Nil)

lemma good_prefs_clauses: "prefs_clauses u \<noteq> [] \<Longrightarrow> good_clauses (prefs_clauses u)"
  by (cases "pr_Language u"; cases "pr_Timezone u"; cases "pr_Communication u")
    (simp_all add: good_clauses_def prefs_clauses_def clause_defs token_def)

text \<open>The update on the model: the given parts replace the stored ones; what reads back as absent is
  the empty string or the empty map.\<close>

definition updated_prefs :: "preferences \<Rightarrow> preferences \<Rightarrow> preferences" where
  "updated_prefs u p = \<lparr>
     pr_Communication = (case pr_Communication u of None \<Rightarrow> pr_Communication p | Some m \<Rightarrow> optMap m),
     pr_Language = (case pr_Language u of None \<Rightarrow> pr_Language p | Some x \<Rightarrow> optStr x),
     pr_Timezone = (case pr_Timezone u of None \<Rightarrow> pr_Timezone p | Some x \<Rightarrow> optStr x)\<rparr>"

definition no_prefs :: preferences where
  "no_prefs = \<lparr>pr_Communication = None, pr_Language = None, pr_Timezone = None\<rparr>"

lemma unmarshal_prefs_iff:
  "unmarshal_prefs it = Some d \<longleftrightarrow> field av_to_str [] ''PK'' it = Some (fr_PK d)
   \<and> field av_to_str [] ''SK'' it = Some (fr_SK d)
   \<and> field av_to_str [] ''language'' it = Some (fr_Language d)
   \<and> field av_to_str [] ''timezone'' it = Some (fr_Timezone d)
   \<and> field av_to_map [] ''communication'' it = Some (fr_Communication d)"
  by (cases d) (auto simp: unmarshal_prefs_def bind_eq_Some_conv)

lemma unmarshal_prefs_updated:
  assumes "unmarshal_prefs it = Some d"
  shows "unmarshal_prefs (assign (prefs_clauses u) it) = Some (d\<lparr>
    fr_Language := opt_or (fr_Language d) (pr_Language u),
    fr_Timezone := opt_or (fr_Timezone d) (pr_Timezone u),
    fr_Communication := opt_or (fr_Communication d) (pr_Communication u)\<rparr>)"
  using assms unfolding unmarshal_prefs_iff
  by (cases "pr_Language u"; cases "pr_Timezone u"; cases "pr_Communication u")
    (simp_all add: prefs_clauses_def av_to_map_av_bools)

lemma prefs_toModel_updated:
  "prefs_toModel (d\<lparr>fr_Language := opt_or (fr_Language d) (pr_Language u),
    fr_Timezone := opt_or (fr_Timezone d) (pr_Timezone u),
    fr_Communication := opt_or (fr_Communication d) (pr_Communication u)\<rparr>) = updated_prefs u (prefs_toModel d)"
  by (cases "pr_Language u"; cases "pr_Timezone u"; cases "pr_Communication u")
    (simp_all add: prefs_toModel_def updated_prefs_def)

context dynamo
begin

lemma GetAccountPreferences_spec:
  assumes "GetAccountPreferences r i s = (x, s')"
  shows "tbl s' = tbl s \<and> (case x of
      Inr a \<Rightarrow> prefs_at (tbl s) i = Some a
    | Inl e \<Rightarrow> e = DbNotFound \<and> tbl s (prefs_key i) = None \<or> transport e \<or> e = unmarshal_error)"
proof (cases rule: build_key_cases [where p = "createPK i" and k = prefsSK])
  case key
  obtain y s1 where g: "GetItem (client r) (tab r) (mk_key (createPK i) prefsSK) s = (y, s1)" by fastforce
  from get_item [OF g] g key assms show ?thesis
    by (auto simp: GetAccountPreferences_def GetItemAs_def prefs_key_def prefs_at_def
        split: sum.splits option.splits)
next
  case (failed m)
  with assms show ?thesis by (auto simp: GetAccountPreferences_def)
qed

lemma UpdateAccountPreferences_spec:
  assumes "UpdateAccountPreferences r i u s = (e, s')"
  shows "(prefs_clauses u = [] \<and> tbl s' = tbl s)
    \<or> (tbl s' = (tbl s)(prefs_key i \<mapsto> assign (prefs_clauses u) (old_or_new (prefs_key i) s))
        \<and> (\<forall>x. e = Some x \<longrightarrow> transport x))
    \<or> tbl s' = tbl s \<and> (\<exists>x. e = Some x \<and> transport x)"
proof (cases rule: build_key_cases [where p = "createPK i" and k = prefsSK])
  case key
  let ?b = "build (prefs_clauses u)"
  show ?thesis
  proof (cases "prefs_clauses u = []")
    case True
    with key assms show ?thesis by (simp add: UpdateAccountPreferences_def prefs_exprs_build no_exprs_def)
  next
    case False
    obtain x s1 where g: "UpdateItem (client r) (tab r) (mk_key (createPK i) prefsSK) (set_expr ?b)
        (exprValues ?b) (exprNames ?b) None s = (x, s1)" by fastforce
    from build_spec(1) [OF g _ _ good_prefs_clauses [OF False], of None]
    have "write_spec True (prefs_key i) (Some (assign (prefs_clauses u) (old_or_new (prefs_key i) s)))
        (tbl s) (err_of x) (tbl s1)"
      by (simp add: prefs_key_def eval_cond_def)
    with assms key g False show ?thesis
      by (auto simp: UpdateAccountPreferences_def prefs_exprs_build Let_def write_spec_def
          split: sum.splits)
  qed
next
  case (failed m)
  with assms show ?thesis by (auto simp: UpdateAccountPreferences_def)
qed

end

section \<open>Properties\<close>

lemma prefs_at_updated:
  assumes "tb (prefs_key i) = Some it" "prefs_at tb i = Some p"
  shows "prefs_at (tb(prefs_key i \<mapsto> assign (prefs_clauses u) it)) i = Some (updated_prefs u p)"
  using assms unmarshal_prefs_updated prefs_toModel_updated by (auto simp: prefs_at_def)

lemma prefs_at_created:
  "prefs_at (tb(prefs_key i \<mapsto> assign (prefs_clauses u) (mk_key (fst (prefs_key i)) (snd (prefs_key i))))) i
    = Some (updated_prefs u no_prefs)"
proof -
  let ?it = "mk_key (fst (prefs_key i)) (snd (prefs_key i))"
  let ?d = "\<lparr>fr_PK = createPK i, fr_SK = prefsSK, fr_Language = [], fr_Timezone = [], fr_Communication = []\<rparr>"
  have "unmarshal_prefs ?it = Some ?d"
    by (simp add: unmarshal_prefs_iff) (simp add: field_def mk_key_def prefs_key_def)
  moreover have "prefs_toModel ?d = no_prefs" by (simp add: prefs_toModel_def no_prefs_def optMap_def)
  ultimately have "prefs_at (tb(prefs_key i \<mapsto> ?it)) i = Some no_prefs" by (simp add: prefs_at_def)
  from prefs_at_updated [OF _ this, of ?it u] show ?thesis by simp
qed

lemma updated_prefs_none: "prefs_clauses u = [] \<Longrightarrow> updated_prefs u p = p"
  by (auto simp: prefs_clauses_def updated_prefs_def opt_clause_def split: option.splits)

lemma UpdateAccountPreferences_no_fields:
  assumes "dynamo r tbl ssl fits" and "prefs_clauses u = []" and "UpdateAccountPreferences r i u s = (e, s')"
  shows "\<forall>x. e = Some x \<longrightarrow> transport x"
  using assms(2,3) dynamo.build_key [OF assms(1), of "createPK i" prefsSK]
  by (auto simp: UpdateAccountPreferences_def prefs_exprs_build no_exprs_def)

text \<open>C37 (UpdateAccountPreferences). A preferences update merges: on success a read gives the old
  preferences with the given parts replaced, or, when the account had none, the given parts alone; no
  other item changes. It is an upsert without any condition, so it succeeds for an account that does
  not exist as well.\<close>

theorem UpdateAccountPreferences_correct:
  assumes "dynamo r tbl ssl fits" and "UpdateAccountPreferences r i u s = (e, s')"
    and "p = (case prefs_at (tbl s) i of None \<Rightarrow> no_prefs | Some p \<Rightarrow> p)"
    and "tbl s (prefs_key i) \<noteq> None \<longrightarrow> prefs_at (tbl s) i \<noteq> None"
  shows "(\<forall>k. k \<noteq> prefs_key i \<longrightarrow> tbl s' k = tbl s k)
    \<and> (case e of
        None \<Rightarrow> prefs_at (tbl s') i = Some (updated_prefs u p)
          \<or> prefs_clauses u = [] \<and> tbl s' = tbl s
      | Some x \<Rightarrow> transport x \<and> prefs_at (tbl s') i \<in> {prefs_at (tbl s) i, Some (updated_prefs u p)})"
proof -
  have new: "prefs_at ((tbl s)(prefs_key i \<mapsto> assign (prefs_clauses u) (dynamo.old_or_new tbl (prefs_key i) s))) i
      = Some (updated_prefs u p)"
  proof (cases "tbl s (prefs_key i)")
    case None
    then have "p = no_prefs" using assms(3) by (simp add: prefs_at_def)
    with None show ?thesis using prefs_at_created [of "tbl s" i u]
      by (simp add: dynamo.old_or_new_def [OF assms(1)])
  next
    case (Some it)
    with assms(3,4) have "prefs_at (tbl s) i = Some p" by auto
    from prefs_at_updated [where tb = "tbl s", OF Some this] Some show ?thesis
      by (simp add: dynamo.old_or_new_def [OF assms(1)])
  qed
  from dynamo.UpdateAccountPreferences_spec [OF assms(1,2)] show ?thesis
  proof (elim disjE)
    assume n: "prefs_clauses u = [] \<and> tbl s' = tbl s"
    with UpdateAccountPreferences_no_fields [OF assms(1) _ assms(2)] show ?thesis by (cases e) auto
  next
    assume "tbl s' = (tbl s)(prefs_key i \<mapsto> assign (prefs_clauses u) (dynamo.old_or_new tbl (prefs_key i) s))
      \<and> (\<forall>x. e = Some x \<longrightarrow> transport x)"
    with new show ?thesis by (cases e) simp_all
  next
    assume "tbl s' = tbl s \<and> (\<exists>x. e = Some x \<and> transport x)"
    then show ?thesis by auto
  qed
qed

definition sample_prefs :: preferences where
  "sample_prefs = \<lparr>pr_Communication = Some [(''email'', True)], pr_Language = Some ''en'', pr_Timezone = None\<rparr>"

lemma UpdateAccountPreferences_correct_witness:
  "\<exists>s'. UpdateAccountPreferences mem_repo ''nobody'' sample_prefs empty_mem = (None, s')
    \<and> prefs_at (mem_tbl s') ''nobody'' = Some sample_prefs"
proof -
  have e: "mem_tbl empty_mem = Map.empty" by (rule ext) (simp add: mem_tbl_def empty_mem_def)
  have "fst (UpdateAccountPreferences mem_repo ''nobody'' sample_prefs empty_mem) = None" by code_simp
  then obtain s' where run: "UpdateAccountPreferences mem_repo ''nobody'' sample_prefs empty_mem = (None, s')"
    by (metis prod.collapse)
  have p: "updated_prefs sample_prefs no_prefs = sample_prefs" "prefs_clauses sample_prefs \<noteq> []"
    by (simp_all add: updated_prefs_def sample_prefs_def no_prefs_def optMap_def prefs_clauses_def)
  have n: "no_prefs = (case prefs_at (mem_tbl empty_mem) ''nobody'' of None \<Rightarrow> no_prefs | Some p \<Rightarrow> p)"
    by (simp add: e prefs_at_def)
  from UpdateAccountPreferences_correct [OF mem.dynamo_axioms run n] run p e show ?thesis by simp
qed

end
