(* ===== verification/Consent_Db.thy ===== *)
theory Consent_Db
  imports Defaults_Db
begin

text \<open>\<open>internal/db/consent.go\<close>: the append-only consent log. Its sort keys end in a fixed-width
  timestamp, so that their lexical order is the order in time.\<close>

section \<open>Record\<close>

record consent_record =
  nr_PK :: string
  nr_SK :: string
  nr_Channel :: string
  nr_Action :: string
  nr_Source :: string
  nr_SourceRef :: string
  nr_IPAddress :: string
  nr_UserAgent :: string
  nr_RecordedAt :: gtime

definition marshal_consent :: "consent_record \<Rightarrow> item" where
  "marshal_consent c =
     omitempty (nr_UserAgent c = []) ''user_agent'' (AvS (nr_UserAgent c))
    (omitempty (nr_IPAddress c = []) ''ip_address'' (AvS (nr_IPAddress c))
    (omitempty (nr_SourceRef c = []) ''source_ref'' (AvS (nr_SourceRef c))
     [''PK'' \<mapsto> AvS (nr_PK c), ''SK'' \<mapsto> AvS (nr_SK c), ''channel'' \<mapsto> AvS (nr_Channel c),
      ''action'' \<mapsto> AvS (nr_Action c), ''source'' \<mapsto> AvS (nr_Source c),
      ''recorded_at'' \<mapsto> av_time (nr_RecordedAt c)]))"

definition unmarshal_consent :: "item \<Rightarrow> consent_record option" where
  "unmarshal_consent it = do {
     pk \<leftarrow> field av_to_str [] ''PK'' it;
     sk \<leftarrow> field av_to_str [] ''SK'' it;
     channel \<leftarrow> field av_to_str [] ''channel'' it;
     action \<leftarrow> field av_to_str [] ''action'' it;
     source \<leftarrow> field av_to_str [] ''source'' it;
     source_ref \<leftarrow> field av_to_str [] ''source_ref'' it;
     ip_address \<leftarrow> field av_to_str [] ''ip_address'' it;
     user_agent \<leftarrow> field av_to_str [] ''user_agent'' it;
     recorded_at \<leftarrow> field av_to_time zero_time ''recorded_at'' it;
     Some \<lparr>nr_PK = pk, nr_SK = sk, nr_Channel = channel, nr_Action = action, nr_Source = source,
       nr_SourceRef = source_ref, nr_IPAddress = ip_address, nr_UserAgent = user_agent,
       nr_RecordedAt = recorded_at\<rparr> }"

definition consent_toModel :: "consent_record \<Rightarrow> consent_log" where
  "consent_toModel c = \<lparr>cl_Action = nr_Action c, cl_Channel = nr_Channel c,
     cl_IpAddress = optStr (nr_IPAddress c), cl_RecordedAt = nr_RecordedAt c,
     cl_Source = nr_Source c, cl_SourceRef = optStr (nr_SourceRef c),
     cl_UserAgent = optStr (nr_UserAgent c)\<rparr>"

definition consentRecordFrom :: "string \<Rightarrow> string \<Rightarrow> consent_log \<Rightarrow> consent_record" where
  "consentRecordFrom pk sk c = \<lparr>nr_PK = pk, nr_SK = sk, nr_Channel = cl_Channel c,
     nr_Action = cl_Action c, nr_Source = cl_Source c, nr_SourceRef = deref [] (cl_SourceRef c),
     nr_IPAddress = deref [] (cl_IpAddress c), nr_UserAgent = deref [] (cl_UserAgent c),
     nr_RecordedAt = cl_RecordedAt c\<rparr>"

section \<open>Operations\<close>

text \<open>A nil pointer with no error is \<open>Inr None\<close>.\<close>

definition GetLatestConsent :: "'s repo \<Rightarrow> string \<Rightarrow> string \<Rightarrow> 's \<Rightarrow> (error + consent_log option) \<times> 's" where
  "GetLatestConsent r accountID channel s =
     (case unmarshal_list unmarshal_consent
        (Query (client r) (prefix_query r (createPK accountID) (''CONSENT#'' @ channel @ ''#'')
           (Some False) (Some 1)) s) of
        (Inl e, s') \<Rightarrow> (Inl e, s')
      | (Inr records, s') \<Rightarrow>
          if length records = 0 then (Inr None, s')
          else (Inr (Some (consent_toModel (records ! 0))), s'))"

text \<open>The entry's time is set in the caller's struct, which is therefore returned.\<close>

definition AppendConsentLog ::
  "'s repo \<Rightarrow> gtime \<Rightarrow> string \<Rightarrow> consent_log \<Rightarrow> 's \<Rightarrow> (error option \<times> consent_log) \<times> 's" where
  "AppendConsentLog r now accountID entry s =
     (let entry' = (if cl_RecordedAt entry = zero_time then entry\<lparr>cl_RecordedAt := now\<rparr> else entry);
          rc = consentRecordFrom (createPK accountID) (consentSK (cl_Channel entry') (cl_RecordedAt entry')) entry'
      in case WriteItem (client r) (tab r) (marshal_consent rc) (Some ''attribute_not_exists(SK)'') s of
           (None, s') \<Rightarrow> ((None, entry'), s')
         | (Some e, s') \<Rightarrow> ((Some e, entry'), s'))"

definition history_query :: "'s repo \<Rightarrow> string \<Rightarrow> query_input" where
  "history_query r accountID = \<lparr>TableName = tab r, IndexName = None,
     KeyConditionExpression = ''PK = :pk AND begins_with(SK, :prefix)'',
     ExpressionValues = ['':pk'' \<mapsto> AvS (createPK accountID), '':prefix'' \<mapsto> AvS ''CONSENT#''],
     ScanIndexForward = None, Limit = Some 1000\<rparr>"

definition ListConsentHistory :: "'s repo \<Rightarrow> string \<Rightarrow> 's \<Rightarrow> (error + consent_log list) \<times> 's" where
  "ListConsentHistory r accountID s =
     (case unmarshal_list unmarshal_consent (Query (client r) (history_query r accountID) s) of
        (Inl e, s') \<Rightarrow> (Inl e, s')
      | (Inr records, s') \<Rightarrow> (Inr (map consent_toModel records), s'))"

section \<open>The abstract view of the consent log\<close>

definition consent_key :: "string \<Rightarrow> string \<Rightarrow> gtime \<Rightarrow> key" where
  "consent_key i c t = (createPK i, consentSK c t)"

definition consent_at :: "table \<Rightarrow> string \<Rightarrow> string \<Rightarrow> gtime \<Rightarrow> consent_log option" where
  "consent_at tb i c t =
     Option.bind (tb (consent_key i c t)) (\<lambda>it. map_option consent_toModel (unmarshal_consent it))"

text \<open>Every sort key of the log is one that \<open>consentSK\<close> made from a channel name without \<open>#\<close> and a
  time. The channels of the contract have no such character.\<close>

definition consent_keys_ok :: "table \<Rightarrow> bool" where
  "consent_keys_ok tb \<longleftrightarrow> (\<forall>i sk. tb (createPK i, sk) \<noteq> None \<and> has_prefix ''CONSENT#'' sk \<longrightarrow>
     (\<exists>c t. sk = consentSK c t \<and> CHR ''#'' \<notin> set c \<and> valid_time t))"

definition norm_consent :: "consent_log \<Rightarrow> consent_log" where
  "norm_consent c = c\<lparr>cl_IpAddress := optStr (deref [] (cl_IpAddress c)),
     cl_SourceRef := optStr (deref [] (cl_SourceRef c)), cl_UserAgent := optStr (deref [] (cl_UserAgent c))\<rparr>"

text \<open>The entry as stored: with the time of the call when it had none.\<close>

definition stamped :: "gtime \<Rightarrow> consent_log \<Rightarrow> consent_log" where
  "stamped now e = (if cl_RecordedAt e = zero_time then e\<lparr>cl_RecordedAt := now\<rparr> else e)"

definition consent_item :: "string \<Rightarrow> consent_log \<Rightarrow> item" where
  "consent_item i e = marshal_consent (consentRecordFrom (createPK i) (consentSK (cl_Channel e) (cl_RecordedAt e)) e)"

lemma consent_key_neutral [simp]: "neutral_key (consent_key i c t)"
  by (auto simp: neutral_key_def consent_key_def key_simps)

lemma marshal_consent_keys [simp]:
  "marshal_consent d ''PK'' = Some (AvS (nr_PK d))" "marshal_consent d ''SK'' = Some (AvS (nr_SK d))"
  "marshal_consent d ''GSI1SK'' = None"
  by (simp_all add: marshal_consent_def omitempty_def)

lemma unmarshal_marshal_consent [decode_simps]:
  "valid_time (nr_RecordedAt d) \<Longrightarrow> unmarshal_consent (marshal_consent d) = Some d"
  by (simp add: unmarshal_consent_def marshal_consent_def omitempty_def field_def[of _ _ _ Map.empty]
      av_to_time_av_time)

lemma consent_toModel_from [simp]: "consent_toModel (consentRecordFrom pk sk e) = norm_consent e"
  by (simp add: consent_toModel_def consentRecordFrom_def norm_consent_def)

lemma hash_split: "a \<notin> set xs \<Longrightarrow> a \<notin> set xs' \<Longrightarrow> xs @ a # ys = xs' @ a # ys' \<longleftrightarrow> xs = xs' \<and> ys = ys'"
proof (induction xs arbitrary: xs')
  case Nil then show ?case by (cases xs') auto
next
  case (Cons x xs) then show ?case by (cases xs') auto
qed

lemma consentSK_prefix:
  assumes "CHR ''#'' \<notin> set c" "CHR ''#'' \<notin> set c'"
  shows "has_prefix (''CONSENT#'' @ c @ ''#'') (consentSK c' t) \<longleftrightarrow> c = c'"
proof
  assume "has_prefix (''CONSENT#'' @ c @ ''#'') (consentSK c' t)"
  then obtain r where "c' @ CHR ''#'' # fmt_fixed t = c @ CHR ''#'' # r"
    by (auto simp: has_prefix_iff consentSK_def)
  with assms show "c = c'" by (simp add: hash_split)
qed (simp add: consentSK_def has_prefix_iff)

lemma consentSK_less:
  "valid_time a \<Longrightarrow> valid_time b \<Longrightarrow> consentSK c a < consentSK c b \<longleftrightarrow> a < b"
  by (simp add: consentSK_def append_less_append fmt_fixed_less_iff)

lemma consentSK_inject:
  assumes "CHR ''#'' \<notin> set c" "CHR ''#'' \<notin> set c'" "valid_time a" "valid_time b"
  shows "consentSK c a = consentSK c' b \<longleftrightarrow> c = c' \<and> a = b"
  using assms by (auto simp: consentSK_def hash_split fmt_fixed_inject)

text \<open>The sort keys of one channel are in the order of the times.\<close>

lemma channel_keys:
  assumes ok: "consent_keys_ok tb" and c: "CHR ''#'' \<notin> set c"
    and k: "k \<in> keys_of (createPK i) (''CONSENT#'' @ c @ ''#'')" "tb k \<noteq> None"
  obtains t where "k = consent_key i c t" "valid_time t"
proof -
  obtain sk where sk: "k = (createPK i, sk)" "has_prefix (''CONSENT#'' @ c @ ''#'') sk"
    using k(1) by (cases k) (auto simp: keys_of_def)
  then have "has_prefix ''CONSENT#'' sk" by (auto simp: has_prefix_iff)
  with ok sk k(2) obtain c' t where t: "sk = consentSK c' t" "CHR ''#'' \<notin> set c'" "valid_time t"
    unfolding consent_keys_ok_def by blast
  with sk c have "c = c'" using consentSK_prefix by blast
  with t sk that show ?thesis by (simp add: consent_key_def)
qed

lemma consent_key_in:
  "consent_key i c t \<in> keys_of (createPK i) (''CONSENT#'' @ c @ ''#'')"
  "consent_key i c t \<in> keys_of (createPK i) ''CONSENT#''"
  by (auto simp: keys_of_def consent_key_def consentSK_def has_prefix_iff)

context dynamo
begin

lemma AppendConsentLog_spec:
  assumes "AppendConsentLog r now i entry s = ((e, entry'), s')"
  shows "entry' = stamped now entry
    \<and> put_result ConditionalCheckFailed (tbl s (consent_key i (cl_Channel entry') (cl_RecordedAt entry')) = None)
      (consent_key i (cl_Channel entry') (cl_RecordedAt entry')) (Some (consent_item i entry'))
      (tbl s) e (tbl s')"
proof -
  define b where "b = stamped now entry"
  let ?kk = "consent_key i (cl_Channel b) (cl_RecordedAt b)"
  obtain f s1 where w: "WriteItem (client r) (tab r) (consent_item i b) (Some ''attribute_not_exists(SK)'') s = (f, s1)"
    by fastforce
  have ws: "write_spec (tbl s ?kk = None) ?kk (Some (consent_item i b)) (tbl s) f (tbl s1)"
    using put_spec [OF w, of "Some absent" "createPK i" "consentSK (cl_Channel b) (cl_RecordedAt b)"]
    by (simp add: render_absent consent_key_def consent_item_def consentRecordFrom_def)
  have run: "(case f of None \<Rightarrow> ((None, b), s1) | Some x \<Rightarrow> ((Some x, b), s1)) = ((e, entry'), s')"
    using assms w unfolding AppendConsentLog_def Let_def stamped_def [symmetric] b_def [symmetric]
      consent_item_def by simp
  then have "entry' = b" "s' = s1" "e = f" by (auto split: option.splits)
  moreover have "put_result ConditionalCheckFailed (tbl s ?kk = None) ?kk (Some (consent_item i b)) (tbl s) f (tbl s1)"
    by (rule put_result_write [OF ws]) (auto split: option.splits)
  ultimately show ?thesis by (simp add: b_def)
qed

lemma GetLatestConsent_spec:
  assumes run: "GetLatestConsent r i c s = (x, s')"
    and ok: "consent_keys_ok (tbl s)" and c: "CHR ''#'' \<notin> set c"
    and fits: "group_fits fits (tbl s) (keys_of (createPK i) (''CONSENT#'' @ c @ ''#''))"
  shows "tbl s' = tbl s \<and> (case x of
      Inr (Some e) \<Rightarrow> (\<exists>t. consent_at (tbl s) i c t = Some e \<and> valid_time t
        \<and> (\<forall>t'. valid_time t' \<and> tbl s (consent_key i c t') \<noteq> None \<longrightarrow> t' \<le> t))
    | Inr None \<Rightarrow> (\<forall>t. tbl s (consent_key i c t) = None)
    | Inl e \<Rightarrow> transport e \<or> e = unmarshal_error)"
proof -
  let ?G = "keys_of (createPK i) (''CONSENT#'' @ c @ ''#'')"
  let ?q = "prefix_query r (createPK i) (''CONSENT#'' @ c @ ''#'') (Some False) (Some 1)"
  obtain y s1 where q: "unmarshal_list unmarshal_consent (Query (client r) ?q s) = (y, s1)" by fastforce
  note law = page_spec [OF q prefix_query_is]
  show ?thesis
  proof (cases y)
    case (Inl e)
    with law q run show ?thesis by (auto simp: GetLatestConsent_def)
  next
    case (Inr xs)
    with law obtain ks n where ks: "distinct ks" "set ks = ?G \<inter> dom (tbl s)" "ordered (Some False) ks"
      "n \<le> 1" "min 1 (length ks) \<le> n" "map (\<lambda>k. unmarshal_consent (the (tbl s k))) (take n ks) = map Some xs"
      and t: "tbl s1 = tbl s" using fits by auto
    show ?thesis
    proof (cases ks)
      case Nil
      with ks(6) have "xs = []" by simp
      with Inr q run have "x = Inr None" "s' = s1" by (simp_all add: GetLatestConsent_def)
      moreover have "tbl s (consent_key i c t') = None" for t'
        using ks(2) Nil consent_key_in(1) [of i c t'] by (auto simp: dom_def)
      ultimately show ?thesis using t by simp
    next
      case (Cons k ks')
      with ks(4,5) have "n = 1" by simp
      with ks(6) Cons obtain d where d: "xs = [d]" "unmarshal_consent (the (tbl s k)) = Some d"
        by (cases xs) auto
      with Inr q run have x: "x = Inr (Some (consent_toModel d))" "s' = s1"
        by (simp_all add: GetLatestConsent_def)
      from ks(2) Cons obtain it where it: "k \<in> ?G" "tbl s k = Some it" by auto
      then obtain u where u: "k = consent_key i c u" "valid_time u" using channel_keys [OF ok c] by blast
      have at: "consent_at (tbl s) i c u = Some (consent_toModel d)"
        using it d(2) u(1) by (simp add: consent_at_def)
      have "t' \<le> u" if "valid_time t'" "tbl s (consent_key i c t') \<noteq> None" for t'
      proof (rule ccontr)
        assume "\<not> t' \<le> u"
        then have "u < t'" by simp
        have "consent_key i c t' \<in> set ks"
          using that(2) consent_key_in(1) [of i c t'] ks(2) by auto
        with Cons u(1) \<open>u < t'\<close> have "consent_key i c t' \<in> set ks'"
          using consentSK_less [OF u(2) that(1), of c] by (auto simp: consent_key_def)
        with ks(3) Cons u(1) have "consentSK c t' < consentSK c u"
          by (auto simp: ordered_def consent_key_def)
        with consentSK_less [OF that(1) u(2), of c] \<open>u < t'\<close> show False by simp
      qed
      with at u(2) x t show ?thesis by auto
    qed
  qed
qed

end

context dynamo
begin

lemma ListConsentHistory_spec:
  assumes "ListConsentHistory r i s = (x, s')"
    and "group_fits fits (tbl s) (keys_of (createPK i) ''CONSENT#'')"
    and "card (keys_of (createPK i) ''CONSENT#'' \<inter> dom (tbl s)) \<le> 1000"
  shows "tbl s' = tbl s \<and> (case x of
      Inr xs \<Rightarrow> (\<exists>ks. distinct ks \<and> set ks = keys_of (createPK i) ''CONSENT#'' \<inter> dom (tbl s) \<and> ordered None ks
        \<and> map (\<lambda>k. map_option consent_toModel (unmarshal_consent (the (tbl s k)))) ks = map Some xs)
    | Inl e \<Rightarrow> transport e \<or> e = unmarshal_error)"
proof -
  have "is_prefix_query r (history_query r i) (createPK i) ''CONSENT#'' None (Some 1000)"
    unfolding is_prefix_query_def history_query_def
    by (rule exI [of _ "'':prefix''"]) (simp add: token_def)
  from listing_spec [OF assms(1) [unfolded ListConsentHistory_def] this assms(2,3)] show ?thesis .
qed

end

section \<open>Properties\<close>

definition sample_consent :: consent_log where
  "sample_consent = \<lparr>cl_Action = ''opt_out'', cl_Channel = ''email'', cl_IpAddress = Some ''10.0.0.1'',
     cl_RecordedAt = zero_time, cl_Source = ''unsubscribe_link'', cl_SourceRef = Some ''j1'', cl_UserAgent = None\<rparr>"

definition consent_mem :: mem where
  "consent_mem = snd (AppendConsentLog mem_repo sample_time ''a1'' sample_consent sample_mem)"

lemma consent_mem_run: "AppendConsentLog mem_repo sample_time ''a1'' sample_consent sample_mem
    = ((None, sample_consent\<lparr>cl_RecordedAt := sample_time\<rparr>), consent_mem)"
  unfolding consent_mem_def prod_eq_iff fst_conv snd_conv by (intro conjI refl) code_simp+

text \<open>C26 (AppendConsentLog). The consent log is append-only: whatever the outcome, no item of the table
  is changed or removed. On success one entry appears, at the instant it is recorded under, and reads
  back as given (empty strings as absent); a second entry for the same account, channel and instant
  is refused.\<close>

theorem AppendConsentLog_append_only:
  assumes "dynamo r tbl ssl fits" and "AppendConsentLog r now i entry s = ((e, entry'), s')"
    and "valid_time now" "valid_time (cl_RecordedAt entry)"
  shows "(\<forall>k it. tbl s k = Some it \<longrightarrow> tbl s' k = Some it)
    \<and> (\<forall>k. k \<noteq> consent_key i (cl_Channel entry') (cl_RecordedAt entry') \<longrightarrow> tbl s' k = tbl s k)
    \<and> entry' = stamped now entry
    \<and> (case e of
        None \<Rightarrow> tbl s (consent_key i (cl_Channel entry') (cl_RecordedAt entry')) = None
          \<and> consent_at (tbl s') i (cl_Channel entry') (cl_RecordedAt entry') = Some (norm_consent entry')
      | Some x \<Rightarrow> transport x \<or> x = ConditionalCheckFailed \<and> tbl s' = tbl s
          \<and> tbl s (consent_key i (cl_Channel entry') (cl_RecordedAt entry')) \<noteq> None)"
proof -
  have v: "valid_time (cl_RecordedAt entry')" if "entry' = stamped now entry"
    using that assms(3,4) by (simp add: stamped_def)
  have d: "map_option consent_toModel (unmarshal_consent (consent_item i entry')) = Some (norm_consent entry')"
    if "entry' = stamped now entry"
  proof -
    have "nr_RecordedAt (consentRecordFrom pk sk entry') = cl_RecordedAt entry'" for pk sk
      by (simp add: consentRecordFrom_def)
    with v [OF that] show ?thesis by (simp add: consent_item_def unmarshal_marshal_consent)
  qed
  from dynamo.AppendConsentLog_spec [OF assms(1,2)] d show ?thesis
    by (cases e) (auto simp: put_result_def consent_at_def)
qed

lemma AppendConsentLog_append_only_witness:
  "consent_at (mem_tbl consent_mem) ''a1'' ''email'' sample_time
    = Some (sample_consent\<lparr>cl_RecordedAt := sample_time\<rparr>)"
proof -
  have v: "valid_time sample_time" "valid_time (cl_RecordedAt sample_consent)" by code_simp+
  have "norm_consent (sample_consent\<lparr>cl_RecordedAt := sample_time\<rparr>) = sample_consent\<lparr>cl_RecordedAt := sample_time\<rparr>"
    by (simp add: norm_consent_def sample_consent_def)
  with AppendConsentLog_append_only [OF mem.dynamo_axioms consent_mem_run v] show ?thesis
    by (simp add: sample_consent_def)
qed

text \<open>C38 (GetLatestConsent). The latest consent of a channel is the chronologically latest one: sort
  keys hold a fixed-width time, so the first key in descending byte order is the newest entry. No
  entry means that the channel has none. (An entry of another channel is never taken: the keys of the
  log come from \<open>consentSK\<close>, with channel names that contain no separator.)\<close>

theorem GetLatestConsent_correct:
  assumes "dynamo r tbl ssl fits" and "GetLatestConsent r i c s = (x, s')"
    and "consent_keys_ok (tbl s)" and "CHR ''#'' \<notin> set c"
    and "group_fits fits (tbl s) (keys_of (createPK i) (''CONSENT#'' @ c @ ''#''))"
  shows "tbl s' = tbl s \<and> (case x of
      Inr (Some e) \<Rightarrow> (\<exists>t. consent_at (tbl s) i c t = Some e \<and> valid_time t
        \<and> (\<forall>t'. valid_time t' \<and> tbl s (consent_key i c t') \<noteq> None \<longrightarrow> t' \<le> t))
    | Inr None \<Rightarrow> (\<forall>t. tbl s (consent_key i c t) = None)
    | Inl e \<Rightarrow> transport e \<or> e = unmarshal_error)"
  by (rule dynamo.GetLatestConsent_spec [OF assms])

lemma consent_keys_ok_upd:
  assumes "consent_keys_ok tb" "CHR ''#'' \<notin> set c" "valid_time t"
  shows "consent_keys_ok (tb(consent_key i c t := x))"
  unfolding consent_keys_ok_def
proof (intro allI impI)
  fix j sk assume h: "(tb(consent_key i c t := x)) (createPK j, sk) \<noteq> None \<and> has_prefix ''CONSENT#'' sk"
  show "\<exists>c t. sk = consentSK c t \<and> CHR ''#'' \<notin> set c \<and> valid_time t"
  proof (cases "(createPK j, sk) = consent_key i c t")
    case True
    then show ?thesis using assms(2,3) by (auto simp: consent_key_def)
  next
    case False
    with h assms(1) show ?thesis unfolding consent_keys_ok_def by (metis fun_upd_other)
  qed
qed

lemma log_key:
  assumes "consent_keys_ok tb" "k \<in> keys_of (createPK i) ''CONSENT#''" "tb k \<noteq> None"
  obtains c t where "k = consent_key i c t" "CHR ''#'' \<notin> set c" "valid_time t"
proof -
  obtain sk where sk: "k = (createPK i, sk)" "has_prefix ''CONSENT#'' sk"
    using assms(2) by (cases k) (auto simp: keys_of_def)
  with assms(1,3) that show ?thesis unfolding consent_keys_ok_def consent_key_def by blast
qed

lemma sample_mem_no_log: "has_prefix ''CONSENT#'' sk \<Longrightarrow> mem_tbl sample_mem (createPK i, sk) = None"
proof -
  have "mem_tbl empty_mem = Map.empty" by (rule ext) (simp add: mem_tbl_def empty_mem_def)
  then have t: "mem_tbl sample_mem = created sample_time ''a1'' sample_request Map.empty"
    using mem.CreateAccount_spec [OF sample_mem_created] by simp
  show "has_prefix ''CONSENT#'' sk \<Longrightarrow> ?thesis"
    unfolding t created_def
    by (auto simp: profile_key_def settings_key_def reservation_key_def settingsSK_def has_prefix_def
        emailReservationSK_def key_simps)
qed

lemma consent_mem_keys_ok: "consent_keys_ok (mem_tbl sample_mem)" "consent_keys_ok (mem_tbl consent_mem)"
proof -
  show s: "consent_keys_ok (mem_tbl sample_mem)"
    using sample_mem_no_log by (auto simp: consent_keys_ok_def)
  have "valid_time sample_time" by code_simp
  then show "consent_keys_ok (mem_tbl consent_mem)"
    using s mem.AppendConsentLog_spec [OF consent_mem_run] consent_keys_ok_upd [of _ "''email''" sample_time]
    by (simp add: put_result_def sample_consent_def)
qed

lemma GetLatestConsent_correct_witness:
  "\<exists>s'. GetLatestConsent mem_repo ''a1'' ''email'' consent_mem
      = (Inr (Some (sample_consent\<lparr>cl_RecordedAt := sample_time\<rparr>)), s')
    \<and> (\<exists>t. consent_at (mem_tbl consent_mem) ''a1'' ''email'' t = Some (sample_consent\<lparr>cl_RecordedAt := sample_time\<rparr>))"
proof -
  have "fst (GetLatestConsent mem_repo ''a1'' ''email'' consent_mem)
      = Inr (Some (sample_consent\<lparr>cl_RecordedAt := sample_time\<rparr>))" by code_simp
  then obtain s' where run: "GetLatestConsent mem_repo ''a1'' ''email'' consent_mem
      = (Inr (Some (sample_consent\<lparr>cl_RecordedAt := sample_time\<rparr>)), s')" by (metis prod.collapse)
  from GetLatestConsent_correct [OF mem.dynamo_axioms run consent_mem_keys_ok(2)] run show ?thesis
    by (auto simp: group_fits_def)
qed



end
