(* ===== verification/Passkeys_Db.thy ===== *)
theory Passkeys_Db
  imports Defaults_Db
begin

text \<open>\<open>internal/db/passkeys.go\<close>: the passkey items of an account and the guard on the signature
  counter.\<close>

section \<open>Record\<close>

record passkey_record =
  kr_PK :: string
  kr_SK :: string
  kr_CredentialID :: string
  kr_PublicKey :: string
  kr_SignCount :: go_int
  kr_Transports :: "string list"
  kr_AAGUID :: string
  kr_BackupEligible :: bool
  kr_BackupState :: bool
  kr_CreatedAt :: gtime
  kr_LastUsedAt :: "gtime option"

definition marshal_passkey :: "passkey_record \<Rightarrow> item" where
  "marshal_passkey p =
     put_time ''last_used_at'' (kr_LastUsedAt p)
    (omitempty (kr_AAGUID p = []) ''aaguid'' (AvS (kr_AAGUID p))
    (omitempty (kr_Transports p = []) ''transports'' (av_strs (kr_Transports p))
     [''PK'' \<mapsto> AvS (kr_PK p), ''SK'' \<mapsto> AvS (kr_SK p), ''credential_id'' \<mapsto> AvS (kr_CredentialID p),
      ''public_key'' \<mapsto> AvS (kr_PublicKey p), ''sign_count'' \<mapsto> av_int (kr_SignCount p),
      ''backup_eligible'' \<mapsto> AvBOOL (kr_BackupEligible p),
      ''backup_state'' \<mapsto> AvBOOL (kr_BackupState p), ''created_at'' \<mapsto> av_time (kr_CreatedAt p)]))"

definition unmarshal_passkey :: "item \<Rightarrow> passkey_record option" where
  "unmarshal_passkey it = do {
     pk \<leftarrow> field av_to_str [] ''PK'' it;
     sk \<leftarrow> field av_to_str [] ''SK'' it;
     credential_id \<leftarrow> field av_to_str [] ''credential_id'' it;
     public_key \<leftarrow> field av_to_str [] ''public_key'' it;
     sign_count \<leftarrow> field av_to_int 0 ''sign_count'' it;
     transports \<leftarrow> field av_to_strs [] ''transports'' it;
     aaguid \<leftarrow> field av_to_str [] ''aaguid'' it;
     backup_eligible \<leftarrow> field av_to_bool False ''backup_eligible'' it;
     backup_state \<leftarrow> field av_to_bool False ''backup_state'' it;
     created_at \<leftarrow> field av_to_time zero_time ''created_at'' it;
     last_used_at \<leftarrow> field av_to_time_ptr None ''last_used_at'' it;
     Some \<lparr>kr_PK = pk, kr_SK = sk, kr_CredentialID = credential_id, kr_PublicKey = public_key,
       kr_SignCount = sign_count, kr_Transports = transports, kr_AAGUID = aaguid,
       kr_BackupEligible = backup_eligible, kr_BackupState = backup_state,
       kr_CreatedAt = created_at, kr_LastUsedAt = last_used_at\<rparr> }"

definition passkey_toModel :: "passkey_record \<Rightarrow> passkey_credential" where
  "passkey_toModel p = \<lparr>pk_Aaguid = optStr (kr_AAGUID p), pk_BackupEligible = kr_BackupEligible p,
     pk_BackupState = kr_BackupState p, pk_CreatedAt = kr_CreatedAt p,
     pk_CredentialId = kr_CredentialID p, pk_LastUsedAt = kr_LastUsedAt p,
     pk_PublicKey = kr_PublicKey p, pk_SignCount = kr_SignCount p,
     pk_Transports = ptrSlice (kr_Transports p)\<rparr>"

definition passkeyRecordFrom :: "string \<Rightarrow> string \<Rightarrow> passkey_credential \<Rightarrow> passkey_record" where
  "passkeyRecordFrom pk sk c = \<lparr>kr_PK = pk, kr_SK = sk, kr_CredentialID = pk_CredentialId c,
     kr_PublicKey = pk_PublicKey c, kr_SignCount = pk_SignCount c,
     kr_Transports = derefSlice (pk_Transports c), kr_AAGUID = deref [] (pk_Aaguid c),
     kr_BackupEligible = pk_BackupEligible c, kr_BackupState = pk_BackupState c,
     kr_CreatedAt = pk_CreatedAt c, kr_LastUsedAt = pk_LastUsedAt c\<rparr>"

section \<open>Operations\<close>

definition CreatePasskey ::
  "'s repo \<Rightarrow> gtime \<Rightarrow> string \<Rightarrow> passkey_credential \<Rightarrow> 's \<Rightarrow> (error option \<times> passkey_credential) \<times> 's" where
  "CreatePasskey r now accountID cred s =
     (if pk_CredentialId cred = [] then ((Some (GoError ''credential_id is required''), cred), s)
      else (let cred' = cred\<lparr>pk_CreatedAt := now, pk_LastUsedAt := None\<rparr>;
                rc = passkeyRecordFrom (createPK accountID) (passkeySK (pk_CredentialId cred')) cred'
            in case WriteItem (client r) (tab r) (marshal_passkey rc) (Some ''attribute_not_exists(SK)'') s of
                 (None, s') \<Rightarrow> ((None, cred'), s')
               | (Some e, s') \<Rightarrow>
                   if e = ConditionalCheckFailed then ((Some DbPasskeyAlreadyExists, cred'), s')
                   else ((Some e, cred'), s')))"

definition GetAccountPasskeys :: "'s repo \<Rightarrow> string \<Rightarrow> 's \<Rightarrow> (error + passkey_credential list) \<times> 's" where
  "GetAccountPasskeys r accountID s =
     (case unmarshal_list unmarshal_passkey
        (Query (client r) (prefix_query r (createPK accountID) ''PASSKEY#'' None (Some 100)) s) of
        (Inl e, s') \<Rightarrow> (Inl e, s')
      | (Inr records, s') \<Rightarrow> (Inr (map passkey_toModel records), s'))"

definition passkey_exprs :: "passkey_credential \<Rightarrow> expr_build" where
  "passkey_exprs update =
     set_field ''#lua'' '':lua'' ''last_used_at'' av_time (pk_LastUsedAt update)
    (add_set ''#bs'' '':bs'' ''backup_state'' (AvBOOL (pk_BackupState update))
    (add_set ''#sc'' '':new'' ''sign_count'' (AvN (sint (pk_SignCount update))) no_exprs))"

definition UpdatePasskey :: "'s repo \<Rightarrow> string \<Rightarrow> string \<Rightarrow> passkey_credential
    \<Rightarrow> 's \<Rightarrow> (error + passkey_credential) \<times> 's" where
  "UpdatePasskey r accountID credentialID update s =
     (case BuildKey (client r) ''PK'' (createPK accountID) ''SK'' (passkeySK credentialID) of
        Inl e \<Rightarrow> (Inl e, s)
      | Inr key \<Rightarrow>
          (let b = passkey_exprs update
           in case UpdateItemAs r unmarshal_passkey key (set_expr b) (exprValues b) (exprNames b)
                (Some ''attribute_exists(SK) AND #sc <= :new'') s of
                (Inr updated, s') \<Rightarrow> (Inr (passkey_toModel updated), s')
              | (Inl e, s') \<Rightarrow>
                  if e = ConditionalCheckFailed
                  then (case GetItemAs r unmarshal_passkey key s' of
                      (Inl _, s'') \<Rightarrow> (Inl DbNotFound, s'')
                    | (Inr _, s'') \<Rightarrow> (Inl DbPasskeySignCountRegression, s''))
                  else (Inl e, s')))"

definition DeletePasskey :: "'s repo \<Rightarrow> string \<Rightarrow> string \<Rightarrow> 's \<Rightarrow> error option \<times> 's" where
  "DeletePasskey r accountID credentialID s =
     (case BuildKey (client r) ''PK'' (createPK accountID) ''SK'' (passkeySK credentialID) of
        Inl e \<Rightarrow> (Some e, s)
      | Inr key \<Rightarrow> DeleteItem (client r) (tab r) key s)"

section \<open>The abstract view of a passkey\<close>

definition passkey_key :: "string \<Rightarrow> string \<Rightarrow> key" where
  "passkey_key i cid = (createPK i, passkeySK cid)"

definition passkey_at :: "table \<Rightarrow> string \<Rightarrow> string \<Rightarrow> passkey_credential option" where
  "passkey_at tb i cid =
     Option.bind (tb (passkey_key i cid)) (\<lambda>it. map_option passkey_toModel (unmarshal_passkey it))"

text \<open>The stored signature counter.\<close>

definition sign_count_at :: "table \<Rightarrow> string \<Rightarrow> string \<Rightarrow> int option" where
  "sign_count_at tb i cid = Option.bind (tb (passkey_key i cid))
     (\<lambda>it. case it ''sign_count'' of Some (AvN n) \<Rightarrow> Some n | _ \<Rightarrow> None)"

text \<open>The guard of the update: the stored counter is at most the new one.\<close>

definition count_ok :: "table \<Rightarrow> string \<Rightarrow> string \<Rightarrow> go_int \<Rightarrow> bool" where
  "count_ok tb i cid n \<longleftrightarrow> (case sign_count_at tb i cid of None \<Rightarrow> False | Some x \<Rightarrow> x \<le> sint n)"

definition norm_passkey :: "passkey_credential \<Rightarrow> passkey_credential" where
  "norm_passkey c = c\<lparr>pk_Aaguid := optStr (deref [] (pk_Aaguid c)),
     pk_Transports := ptrSlice (derefSlice (pk_Transports c))\<rparr>"

definition count_cond :: cond where
  "count_cond = [AttrExists ''SK'', NameLe ''#sc'' '':new'']"

definition passkey_clauses :: "passkey_credential \<Rightarrow> clause list" where
  "passkey_clauses u = [(''#sc'', '':new'', ''sign_count'', av_int (pk_SignCount u)),
       (''#bs'', '':bs'', ''backup_state'', AvBOOL (pk_BackupState u))]
     @ opt_clause ''#lua'' '':lua'' ''last_used_at'' av_time (pk_LastUsedAt u)"

text \<open>The update on the model: counter, backup state and, when given, the time of last use.\<close>

definition updated_passkey :: "passkey_credential \<Rightarrow> passkey_credential \<Rightarrow> passkey_credential" where
  "updated_passkey u c = c\<lparr>pk_SignCount := pk_SignCount u, pk_BackupState := pk_BackupState u,
     pk_LastUsedAt := (case pk_LastUsedAt u of None \<Rightarrow> pk_LastUsedAt c | Some t \<Rightarrow> Some t)\<rparr>"

lemma passkey_key_neutral [simp]: "neutral_key (passkey_key i cid)"
  by (auto simp: neutral_key_def passkey_key_def key_simps)

lemma marshal_passkey_keys [simp]:
  "marshal_passkey d ''PK'' = Some (AvS (kr_PK d))" "marshal_passkey d ''SK'' = Some (AvS (kr_SK d))"
  "marshal_passkey d ''GSI1SK'' = None" "marshal_passkey d ''sign_count'' = Some (av_int (kr_SignCount d))"
  by (auto simp add: marshal_passkey_def omitempty_def put_time_def split: option.splits)

lemma unmarshal_passkey_iff:
  "unmarshal_passkey it = Some d \<longleftrightarrow> field av_to_str [] ''PK'' it = Some (kr_PK d)
   \<and> field av_to_str [] ''SK'' it = Some (kr_SK d)
   \<and> field av_to_str [] ''credential_id'' it = Some (kr_CredentialID d)
   \<and> field av_to_str [] ''public_key'' it = Some (kr_PublicKey d)
   \<and> field av_to_int 0 ''sign_count'' it = Some (kr_SignCount d)
   \<and> field av_to_strs [] ''transports'' it = Some (kr_Transports d)
   \<and> field av_to_str [] ''aaguid'' it = Some (kr_AAGUID d)
   \<and> field av_to_bool False ''backup_eligible'' it = Some (kr_BackupEligible d)
   \<and> field av_to_bool False ''backup_state'' it = Some (kr_BackupState d)
   \<and> field av_to_time zero_time ''created_at'' it = Some (kr_CreatedAt d)
   \<and> field av_to_time_ptr None ''last_used_at'' it = Some (kr_LastUsedAt d)"
  by (cases d) (auto simp: unmarshal_passkey_def bind_eq_Some_conv)

lemma av_to_time_ptr_av_time: "valid_time t \<Longrightarrow> av_to_time_ptr (av_time t) = Some (Some t)"
  by (simp add: av_to_time_ptr_def av_to_time_av_time)

lemma unmarshal_marshal_passkey [decode_simps]:
  assumes "valid_time (kr_CreatedAt d)" "valid_time_opt (kr_LastUsedAt d)"
  shows "unmarshal_passkey (marshal_passkey d) = Some d"
  using assms unfolding unmarshal_passkey_iff marshal_passkey_def
  by (cases "kr_LastUsedAt d"; intro conjI; simp add: omitempty_def put_time_def field_def[of _ _ _ Map.empty] av_to_time_av_time
      av_to_int_av_int av_to_strs_av_strs av_to_time_ptr_av_time valid_time_opt_def split: option.split)

lemma passkey_toModel_from [simp]: "passkey_toModel (passkeyRecordFrom pk sk c) = norm_passkey c"
  by (simp add: passkey_toModel_def passkeyRecordFrom_def norm_passkey_def)

lemma passkey_exprs_build: "passkey_exprs u = build (passkey_clauses u)"
  by (simp add: passkey_exprs_def passkey_clauses_def no_exprs_build av_int_def del: build_Nil)

lemma good_passkey_clauses: "good_clauses (passkey_clauses u)"
  by (cases "pk_LastUsedAt u") (simp_all add: good_clauses_def passkey_clauses_def clause_defs token_def)

lemma unmarshal_passkey_updated:
  assumes "unmarshal_passkey it = Some d" and "valid_time_opt (pk_LastUsedAt u)"
  shows "unmarshal_passkey (assign (passkey_clauses u) it) = Some (d\<lparr>kr_SignCount := pk_SignCount u,
     kr_BackupState := pk_BackupState u,
     kr_LastUsedAt := (case pk_LastUsedAt u of None \<Rightarrow> kr_LastUsedAt d | Some t \<Rightarrow> Some t)\<rparr>)"
  using assms unfolding unmarshal_passkey_iff
  by (cases "pk_LastUsedAt u")
    (simp_all add: passkey_clauses_def av_to_int_av_int av_to_time_ptr_av_time valid_time_opt_def)

lemma passkey_toModel_updated:
  "passkey_toModel (d\<lparr>kr_SignCount := pk_SignCount u, kr_BackupState := pk_BackupState u,
     kr_LastUsedAt := (case pk_LastUsedAt u of None \<Rightarrow> kr_LastUsedAt d | Some t \<Rightarrow> Some t)\<rparr>)
   = updated_passkey u (passkey_toModel d)"
  by (simp add: passkey_toModel_def updated_passkey_def split: option.split)

lemma passkey_at_updated:
  assumes "tb (passkey_key i cid) = Some it" "passkey_at tb i cid = Some c" "valid_time_opt (pk_LastUsedAt u)"
  shows "map_option passkey_toModel (unmarshal_passkey (assign (passkey_clauses u) it)) = Some (updated_passkey u c)"
  using assms unmarshal_passkey_updated [OF _ assms(3)] passkey_toModel_updated
  by (auto simp: passkey_at_def)

lemma count_atoms:
  "cond_atoms (Some count_cond) = count_cond" "count_cond \<noteq> []" "list_all catom_ok count_cond"
  "concat (map catom_names count_cond) = [''#sc'']" "concat (map catom_vals count_cond) = ['':new'']"
  by (simp_all add: count_cond_def cond_atoms_def plain_def)

lemma render_count: "render_cond count_cond = ''attribute_exists(SK) AND #sc <= :new''"
  by (simp add: count_cond_def render_cond_def)

lemma eval_count:
  assumes "nm ''#sc'' = Some ''sign_count''" "vl '':new'' = Some (av_int n)"
    and "\<forall>it. tb (passkey_key i cid) = Some it \<longrightarrow> it ''SK'' \<noteq> None"
  shows "eval_cond nm vl (tb (passkey_key i cid)) (Some count_cond) \<longleftrightarrow> count_ok tb i cid n"
  using assms by (cases "tb (passkey_key i cid)")
    (auto simp: eval_cond_def count_cond_def count_ok_def sign_count_at_def av_int_def
      split: option.splits av.splits)

context dynamo
begin

lemma CreatePasskey_spec:
  assumes "CreatePasskey r now i c s = ((e, c'), s')" and "pk_CredentialId c \<noteq> []"
  shows "c' = c\<lparr>pk_CreatedAt := now, pk_LastUsedAt := None\<rparr>
    \<and> put_result DbPasskeyAlreadyExists (tbl s (passkey_key i (pk_CredentialId c)) = None)
      (passkey_key i (pk_CredentialId c))
      (Some (marshal_passkey (passkeyRecordFrom (createPK i) (passkeySK (pk_CredentialId c)) c')))
      (tbl s) e (tbl s')"
proof -
  define b where "b = c\<lparr>pk_CreatedAt := now, pk_LastUsedAt := None\<rparr>"
  have cid: "pk_CredentialId b = pk_CredentialId c" by (simp add: b_def)
  let ?it = "marshal_passkey (passkeyRecordFrom (createPK i) (passkeySK (pk_CredentialId c)) b)"
  let ?kk = "passkey_key i (pk_CredentialId c)"
  obtain f s1 where w: "WriteItem (client r) (tab r) ?it (Some ''attribute_not_exists(SK)'') s = (f, s1)"
    by fastforce
  have ws: "write_spec (tbl s ?kk = None) ?kk (Some ?it) (tbl s) f (tbl s1)"
    using put_spec [OF w, of "Some absent" "createPK i" "passkeySK (pk_CredentialId c)"]
    by (simp add: render_absent passkey_key_def passkeyRecordFrom_def)
  have run: "(case f of None \<Rightarrow> ((None, b), s1) | Some x \<Rightarrow>
      if x = ConditionalCheckFailed then ((Some DbPasskeyAlreadyExists, b), s1) else ((Some x, b), s1)) = ((e, c'), s')"
    using assms w unfolding CreatePasskey_def Let_def b_def [symmetric] cid by simp
  then have "c' = b" "s' = s1" by (auto split: option.splits if_splits)
  moreover have "put_result DbPasskeyAlreadyExists (tbl s ?kk = None) ?kk (Some ?it) (tbl s) e (tbl s1)"
    by (rule put_result_write [OF ws]) (use run in \<open>auto split: option.splits if_splits\<close>)
  ultimately show ?thesis by (simp add: b_def)
qed

lemma UpdatePasskey_spec:
  assumes "UpdatePasskey r i cid u s = (x, s')"
  shows "(\<exists>it. tbl s (passkey_key i cid) = Some it \<and> count_ok (tbl s) i cid (pk_SignCount u)
        \<and> tbl s' = (tbl s)(passkey_key i cid \<mapsto> assign (passkey_clauses u) it)
        \<and> (case x of Inl e \<Rightarrow> transport e \<or> e = unmarshal_error
           | Inr c \<Rightarrow> map_option passkey_toModel (unmarshal_passkey (assign (passkey_clauses u) it)) = Some c))
    \<or> tbl s' = tbl s \<and> (\<exists>e. x = Inl e \<and> (transport e
        \<or> \<not> count_ok (tbl s) i cid (pk_SignCount u)
          \<and> (e = DbNotFound \<or> e = DbPasskeySignCountRegression \<and> tbl s (passkey_key i cid) \<noteq> None)))"
proof (cases rule: build_key_cases [where p = "createPK i" and k = "passkeySK cid"])
  case key
  define qs where "qs = passkey_clauses u"
  let ?kk = "passkey_key i cid"
  have good: "good_clauses qs" unfolding qs_def by (rule good_passkey_clauses)
  have ne: "qs \<noteq> []" using good by (simp add: good_clauses_def)
  have q: "(''#sc'', '':new'', ''sign_count'', av_int (pk_SignCount u)) \<in> set qs"
    by (simp add: qs_def passkey_clauses_def)
  obtain y s1 where up: "UpdateItem (client r) (tab r) (mk_key (createPK i) (passkeySK cid)) (set_expr (build qs))
      (exprValues (build qs)) (exprNames (build qs)) (Some ''attribute_exists(SK) AND #sc <= :new'') s = (y, s1)"
    by fastforce
  have nm: "exprNames (build qs) ''#sc'' = Some ''sign_count''"
    "exprValues (build qs) '':new'' = Some (av_int (pk_SignCount u))"
    using build_lookup [OF q] good by (simp_all add: good_clauses_def clause_defs)
  have mem: "''#sc'' \<in> cl_n ` set qs" "'':new'' \<in> cl_v ` set qs"
    using q by (force simp: clause_defs)+
  have valid: "valid_upd (sets_only qs) (exprNames (build qs)) (exprValues (build qs)) (Some count_cond)"
    using valid_build [OF good, of "Some count_cond" Map.empty] mem by (simp add: count_atoms)
  have app: "apply_uexpr ssl (exprNames (build qs)) (exprValues (build qs)) (sets_only qs)
      (old_or_new (createPK i, passkeySK cid) s) = assign qs (old_or_new (createPK i, passkeySK cid) s)"
    using apply_build [OF good, of Map.empty] by simp
  have sk: "\<forall>it. tbl s ?kk = Some it \<longrightarrow> it ''SK'' \<noteq> None" using tbl_key by blast
  note us = upd_spec [OF up [unfolded set_expr_build [OF ne]] _ valid app, unfolded option.map render_count]
  have ws: "write_spec (count_ok (tbl s) i cid (pk_SignCount u)) ?kk
      (Some (assign qs (old_or_new ?kk s))) (tbl s) (err_of y) (tbl s1)"
    using us(1) eval_count [where nm = "exprNames (build qs)" and vl = "exprValues (build qs)" and tb = "tbl s", OF nm sk] by (simp add: passkey_key_def)
  have run: "(case y of Inl e \<Rightarrow> (if e = ConditionalCheckFailed
        then (case GetItemAs r unmarshal_passkey (mk_key (createPK i) (passkeySK cid)) s1 of
            (Inl _, s'') \<Rightarrow> (Inl DbNotFound, s'') | (Inr _, s'') \<Rightarrow> (Inl DbPasskeySignCountRegression, s''))
        else (Inl e, s1))
      | Inr it \<Rightarrow> (case unmarshal_passkey it of None \<Rightarrow> (Inl unmarshal_error, s1)
          | Some d \<Rightarrow> (Inr (passkey_toModel d), s1))) = (x, s')"
    using assms key up by (simp add: UpdatePasskey_def passkey_exprs_build UpdateItemAs_def Let_def
        flip: qs_def split: sum.splits option.splits if_splits)
  have present: "\<exists>it. tbl s ?kk = Some it \<and> old_or_new ?kk s = it" if "count_ok (tbl s) i cid (pk_SignCount u)"
    using that by (cases "tbl s ?kk") (auto simp: count_ok_def sign_count_at_def old_or_new_def)
  show ?thesis
  proof (cases y)
    case (Inr it)
    with ws have ok: "count_ok (tbl s) i cid (pk_SignCount u)"
      and t: "tbl s1 = (tbl s)(?kk \<mapsto> assign qs (old_or_new ?kk s))" by (simp_all add: write_spec_def)
    from us(2) [OF refl Inr] have "it = assign qs (old_or_new ?kk s)" by (simp add: passkey_key_def)
    with run Inr t present [OF ok] ok show ?thesis
      unfolding qs_def by (auto split: option.splits)
  next
    case (Inl e)
    show ?thesis
    proof (cases "e = ConditionalCheckFailed")
      case True
      with ws Inl have no: "\<not> count_ok (tbl s) i cid (pk_SignCount u)" "tbl s1 = tbl s"
        by (auto simp: write_spec_def)
      obtain g s2 where g: "GetItem (client r) (tab r) (mk_key (createPK i) (passkeySK cid)) s1 = (g, s2)"
        by fastforce
      from get_item [OF g] g run Inl True no show ?thesis
        by (auto simp: GetItemAs_def passkey_key_def split: sum.splits option.splits)
    next
      case False
      with ws Inl run present show ?thesis
        unfolding qs_def by (auto simp: write_spec_def)
    qed
  qed
next
  case (failed m)
  with assms show ?thesis by (auto simp: UpdatePasskey_def)
qed

lemma DeletePasskey_spec:
  "DeletePasskey r i cid s = (e, s') \<Longrightarrow>
    tbl s' = (tbl s)(passkey_key i cid := None) \<and> (\<forall>x. e = Some x \<longrightarrow> transport x)
    \<or> tbl s' = tbl s \<and> (\<exists>x. e = Some x \<and> transport x)"
  unfolding DeletePasskey_def passkey_key_def by (rule delete_spec)

end

section \<open>Properties\<close>

definition sample_passkey :: passkey_credential where
  "sample_passkey = \<lparr>pk_Aaguid = None, pk_BackupEligible = True, pk_BackupState = False, pk_CreatedAt = zero_time,
     pk_CredentialId = ''c1'', pk_LastUsedAt = None, pk_PublicKey = ''key'', pk_SignCount = 5, pk_Transports = None\<rparr>"

definition passkey_mem :: mem where
  "passkey_mem = snd (CreatePasskey mem_repo sample_time ''a1'' sample_passkey sample_mem)"

lemma passkey_mem_run: "CreatePasskey mem_repo sample_time ''a1'' sample_passkey sample_mem
    = ((None, sample_passkey\<lparr>pk_CreatedAt := sample_time\<rparr>), passkey_mem)"
  unfolding passkey_mem_def prod_eq_iff fst_conv snd_conv by (intro conjI refl) code_simp+

text \<open>C40 (CreatePasskey). Registering a passkey never replaces one: an empty credential identifier is
  refused, a taken one is refused with \<open>ErrPasskeyAlreadyExists\<close>, both with nothing changed; on success a
  read gives the credential with the server's creation time and no last use, whatever the caller sent
  for these.\<close>

theorem CreatePasskey_correct:
  assumes "dynamo r tbl ssl fits" and "CreatePasskey r now i c s = ((e, c'), s')" and "valid_time now"
  shows "(\<forall>k. k \<noteq> passkey_key i (pk_CredentialId c) \<longrightarrow> tbl s' k = tbl s k)
    \<and> (\<forall>k it. tbl s k = Some it \<longrightarrow> tbl s' k = Some it)
    \<and> (case e of
        None \<Rightarrow> pk_CredentialId c \<noteq> [] \<and> c' = c\<lparr>pk_CreatedAt := now, pk_LastUsedAt := None\<rparr>
          \<and> tbl s (passkey_key i (pk_CredentialId c)) = None
          \<and> passkey_at (tbl s') i (pk_CredentialId c) = Some (norm_passkey c')
      | Some x \<Rightarrow> transport x
          \<or> tbl s' = tbl s \<and> (x = DbPasskeyAlreadyExists \<and> tbl s (passkey_key i (pk_CredentialId c)) \<noteq> None
              \<or> pk_CredentialId c = []))"
proof (cases "pk_CredentialId c = []")
  case True
  with assms(2) have "e = Some (GoError ''credential_id is required'')" "s' = s" by (auto simp: CreatePasskey_def)
  with True show ?thesis by simp
next
  case False
  have d: "map_option passkey_toModel (unmarshal_passkey (marshal_passkey (passkeyRecordFrom pk sk c'))) = Some (norm_passkey c')"
    if "c' = c\<lparr>pk_CreatedAt := now, pk_LastUsedAt := None\<rparr>" for pk sk
  proof -
    have "kr_CreatedAt (passkeyRecordFrom pk sk c') = now" "kr_LastUsedAt (passkeyRecordFrom pk sk c') = None"
      using that by (simp_all add: passkeyRecordFrom_def)
    then show ?thesis using assms(3) by (simp add: unmarshal_marshal_passkey valid_time_opt_def)
  qed
  from dynamo.CreatePasskey_spec [OF assms(1,2) False] d False show ?thesis
    by (cases e) (auto simp: put_result_def passkey_at_def)
qed

lemma CreatePasskey_correct_witness:
  "passkey_at (mem_tbl passkey_mem) ''a1'' ''c1'' = Some (sample_passkey\<lparr>pk_CreatedAt := sample_time\<rparr>)"
proof -
  have v: "valid_time sample_time" by code_simp
  have "norm_passkey (sample_passkey\<lparr>pk_CreatedAt := sample_time\<rparr>) = sample_passkey\<lparr>pk_CreatedAt := sample_time\<rparr>"
    by (simp add: norm_passkey_def sample_passkey_def)
  with CreatePasskey_correct [OF mem.dynamo_axioms passkey_mem_run v] show ?thesis
    by (simp add: sample_passkey_def)
qed

lemma sign_count_updated:
  "sign_count_at (tb(passkey_key i cid \<mapsto> assign (passkey_clauses u) it)) i cid = Some (sint (pk_SignCount u))"
  by (cases "pk_LastUsedAt u") (simp_all add: sign_count_at_def passkey_clauses_def av_int_def)

text \<open>C27 (UpdatePasskey). The signature counter of a passkey never goes back, whatever the request and
  the faults; only the one item changes. On success a read gives the credential with the new counter
  and backup state, and the last use if given; the same is returned. A regression is reported
  only when the stored counter is greater than the new one (or missing), and then nothing changes.\<close>

theorem UpdatePasskey_monotone:
  assumes "dynamo r tbl ssl fits" and "UpdatePasskey r i cid u s = (x, s')"
    and "sign_count_at (tbl s) i cid = Some n" and "valid_time_opt (pk_LastUsedAt u)"
  shows "(\<forall>k. k \<noteq> passkey_key i cid \<longrightarrow> tbl s' k = tbl s k)
    \<and> (\<exists>m. sign_count_at (tbl s') i cid = Some m \<and> n \<le> m)
    \<and> (case x of
        Inr c \<Rightarrow> sign_count_at (tbl s') i cid = Some (sint (pk_SignCount u))
          \<and> passkey_at (tbl s') i cid = Some c
          \<and> (\<forall>c0. passkey_at (tbl s) i cid = Some c0 \<longrightarrow> c = updated_passkey u c0)
      | Inl e \<Rightarrow> transport e \<or> e = unmarshal_error
          \<or> tbl s' = tbl s \<and> sint (pk_SignCount u) < n \<and> e \<in> {DbNotFound, DbPasskeySignCountRegression})"
  using dynamo.UpdatePasskey_spec [OF assms(1,2)]
proof (elim disjE exE conjE)
  fix it assume it: "tbl s (passkey_key i cid) = Some it" and ok: "count_ok (tbl s) i cid (pk_SignCount u)"
    and t: "tbl s' = (tbl s)(passkey_key i cid \<mapsto> assign (passkey_clauses u) it)"
    and x: "case x of Inl e \<Rightarrow> transport e \<or> e = unmarshal_error
      | Inr c \<Rightarrow> map_option passkey_toModel (unmarshal_passkey (assign (passkey_clauses u) it)) = Some c"
  have c: "sign_count_at (tbl s') i cid = Some (sint (pk_SignCount u))" unfolding t by (rule sign_count_updated)
  have "n \<le> sint (pk_SignCount u)" using ok assms(3) by (simp add: count_ok_def)
  moreover have "c = updated_passkey u c0" if "x = Inr c" "passkey_at (tbl s) i cid = Some c0" for c c0
    using x that passkey_at_updated [where tb = "tbl s", OF it that(2) assms(4)] by simp
  moreover have "passkey_at (tbl s') i cid = Some c" if "x = Inr c" for c
    using x that by (simp add: t passkey_at_def)
  ultimately show ?thesis using c x t by (cases x) auto
next
  fix e assume "tbl s' = tbl s" "x = Inl e" "transport e"
  with assms(3) show ?thesis by simp
next
  fix e assume "tbl s' = tbl s" "x = Inl e" "\<not> count_ok (tbl s) i cid (pk_SignCount u)" "e = DbNotFound"
  with assms(3) show ?thesis by (simp add: count_ok_def)
next
  fix e assume "tbl s' = tbl s" "x = Inl e" "\<not> count_ok (tbl s) i cid (pk_SignCount u)"
    "e = DbPasskeySignCountRegression"
  with assms(3) show ?thesis by (simp add: count_ok_def)
qed

definition used_passkey :: passkey_credential where
  "used_passkey = sample_passkey\<lparr>pk_SignCount := 9, pk_LastUsedAt := Some sample_time\<rparr>"

definition stale_passkey :: passkey_credential where
  "stale_passkey = sample_passkey\<lparr>pk_SignCount := 4\<rparr>"

lemma passkey_mem_count: "sign_count_at (mem_tbl passkey_mem) ''a1'' ''c1'' = Some 5"
  using mem.CreatePasskey_spec [OF passkey_mem_run]
  by (simp add: put_result_def sign_count_at_def passkeyRecordFrom_def sample_passkey_def av_int_def)

lemma UpdatePasskey_monotone_witness:
  "(\<exists>c s'. UpdatePasskey mem_repo ''a1'' ''c1'' used_passkey passkey_mem = (Inr c, s')
      \<and> sign_count_at (mem_tbl s') ''a1'' ''c1'' = Some 9)
    \<and> (\<exists>s'. UpdatePasskey mem_repo ''a1'' ''c1'' stale_passkey passkey_mem
        = (Inl DbPasskeySignCountRegression, s') \<and> sign_count_at (mem_tbl s') ''a1'' ''c1'' = Some 5)"
proof
  have v: "valid_time_opt (pk_LastUsedAt used_passkey)" "valid_time_opt (pk_LastUsedAt stale_passkey)"
    by code_simp+
  have "\<not> isl (fst (UpdatePasskey mem_repo ''a1'' ''c1'' used_passkey passkey_mem))" by code_simp
  then obtain c s' where run: "UpdatePasskey mem_repo ''a1'' ''c1'' used_passkey passkey_mem = (Inr c, s')"
    by (metis prod.collapse sum.collapse(2))
  from UpdatePasskey_monotone [OF mem.dynamo_axioms run passkey_mem_count v(1)] run
  show "\<exists>c s'. UpdatePasskey mem_repo ''a1'' ''c1'' used_passkey passkey_mem = (Inr c, s')
      \<and> sign_count_at (mem_tbl s') ''a1'' ''c1'' = Some 9"
    by (auto simp: used_passkey_def)
  have "fst (UpdatePasskey mem_repo ''a1'' ''c1'' stale_passkey passkey_mem) = Inl DbPasskeySignCountRegression"
    by code_simp
  then obtain s2 where run2: "UpdatePasskey mem_repo ''a1'' ''c1'' stale_passkey passkey_mem
      = (Inl DbPasskeySignCountRegression, s2)" by (metis prod.collapse)
  from UpdatePasskey_monotone [OF mem.dynamo_axioms run2 passkey_mem_count v(2)] run2 passkey_mem_count
  show "\<exists>s'. UpdatePasskey mem_repo ''a1'' ''c1'' stale_passkey passkey_mem
      = (Inl DbPasskeySignCountRegression, s') \<and> sign_count_at (mem_tbl s') ''a1'' ''c1'' = Some 5"
    by (auto simp: unmarshal_error_def)
qed

end
