(* ===== verification/Repo_System.thy ===== *)
theory Repo_System
  imports Address_Db Payments_Db Prefs_Db Consent_Db Passkeys_Db
begin

text \<open>
  The repository as one state machine. Its steps are the operations of \<open>internal/db\<close>, in any order, for
  any accounts, with any faults of the store. The invariant: email addresses and profiles are in
  one-to-one correspondence (\<open>registry_ok\<close>), and the sort keys of the consent log are well formed.
\<close>

section \<open>The invariant\<close>

definition store_ok :: "table \<Rightarrow> bool" where
  "store_ok tb \<longleftrightarrow> registry_ok tb \<and> consent_keys_ok tb"

lemma store_okI: "registry_ok tb \<Longrightarrow> consent_keys_ok tb \<Longrightarrow> store_ok tb"
  by (simp add: store_ok_def)

definition log_key :: "key \<Rightarrow> bool" where
  "log_key k \<longleftrightarrow> has_prefix ''CONSENT#'' (snd k)"

lemma not_log_key [simp]:
  "\<not> log_key (profile_key i)" "\<not> log_key (settings_key i)" "\<not> log_key (reservation_key e)"
  "\<not> log_key (address_key i a)" "\<not> log_key (payment_key i p)" "\<not> log_key (passkey_key i c)"
  "\<not> log_key (prefs_key i)"
  by (simp_all add: log_key_def profile_key_def settings_key_def reservation_key_def address_key_def
      payment_key_def passkey_key_def prefs_key_def settingsSK_def emailReservationSK_def addrSK_def paySK_def
      passkeySK_def prefsSK_def has_prefix_def)

lemma consent_keys_ok_mono:
  "consent_keys_ok tb \<Longrightarrow> \<forall>k. tb' k \<noteq> None \<longrightarrow> tb k \<noteq> None \<or> \<not> log_key k \<Longrightarrow> consent_keys_ok tb'"
  unfolding consent_keys_ok_def log_key_def by (metis snd_conv)

lemma consent_keys_ok_upd_other: "\<not> log_key k \<Longrightarrow> consent_keys_ok tb \<Longrightarrow> consent_keys_ok (tb(k := x))"
  by (erule consent_keys_ok_mono) simp

lemma consent_keys_ok_erase: "consent_keys_ok tb \<Longrightarrow> consent_keys_ok (erase D tb)"
  by (erule consent_keys_ok_mono) (simp add: erase_def)

lemma store_neutral:
  assumes "store_ok tb" "neutral_key k" "\<not> log_key k"
    and "\<forall>it. new = Some it \<longrightarrow> it ''GSI1SK'' \<noteq> Some (AvS ''PROFILE'')"
  shows "store_ok (tb(k := new))"
  using assms registry_neutral consent_keys_ok_upd_other by (simp add: store_ok_def)

lemma store_neutral_upd:
  assumes "store_ok tb" "neutral_key k" "\<not> log_key k" "tb k = Some it" "new ''GSI1SK'' = it ''GSI1SK''"
  shows "store_ok (tb(k \<mapsto> new))"
  using assms registry_neutral_upd consent_keys_ok_upd_other by (simp add: store_ok_def)

lemma store_put:
  assumes "put_result f ok k new tb e tb'" "store_ok tb" "neutral_key k" "\<not> log_key k"
    and "\<forall>it. new = Some it \<longrightarrow> it ''GSI1SK'' \<noteq> Some (AvS ''PROFILE'')"
  shows "store_ok tb'"
  using assms(1,2) store_neutral [OF assms(2-5)] by (auto simp: put_result_def)

lemma store_delete:
  assumes "tb' = tb(k := None) \<and> P \<or> tb' = tb \<and> Q" "store_ok tb" "neutral_key k" "\<not> log_key k"
  shows "store_ok tb'"
  using assms store_neutral [of tb k None] by auto

section \<open>Every operation keeps it\<close>

lemma clause_GSI:
  "assign (address_clauses u) it ''GSI1SK'' = it ''GSI1SK''"
  "assign (passkey_clauses v) it ''GSI1SK'' = it ''GSI1SK''"
  "assign (prefs_clauses w) it ''GSI1SK'' = it ''GSI1SK''"
  by (simp_all add: address_clauses_def passkey_clauses_def prefs_clauses_def opt_upd_other)

context dynamo
begin

lemma CreateAccount_store:
  assumes "CreateAccount r now i req s = (x, s')" "store_ok (tbl s)"
  shows "store_ok (tbl s')"
proof (rule store_okI)
  show "registry_ok (tbl s')" using assms CreateAccount_registry by (simp add: store_ok_def)
  show "consent_keys_ok (tbl s')"
    using assms CreateAccount_spec [OF assms(1)]
    by (auto simp: store_ok_def created_def consent_keys_ok_upd_other)
qed

lemma UpdateAccount_store:
  assumes "UpdateAccount r now i u s = (x, s')" "store_ok (tbl s)"
  shows "store_ok (tbl s')"
proof (rule store_okI)
  show "registry_ok (tbl s')" using assms UpdateAccount_registry by (simp add: store_ok_def)
  show "consent_keys_ok (tbl s')"
    using assms UpdateAccount_spec [OF assms(1)]
    by (auto simp: store_ok_def consent_keys_ok_upd_other)
qed

lemma UpdateAccountCredentials_store:
  assumes "UpdateAccountCredentials r now i u s = (x, s')" "store_ok (tbl s)"
  shows "store_ok (tbl s')"
proof (rule store_okI)
  show "registry_ok (tbl s')" using assms UpdateAccountCredentials_registry by (simp add: store_ok_def)
  show "consent_keys_ok (tbl s')"
    using assms UpdateAccountCredentials_spec [OF assms(1)]
    by (auto simp: store_ok_def consent_keys_ok_upd_other)
qed

lemma DeleteAccount_store:
  assumes "DeleteAccount r i s = (e, s')" "store_ok (tbl s)"
  shows "store_ok (tbl s')"
proof (rule store_okI)
  show "registry_ok (tbl s')" using assms DeleteAccount_registry by (simp add: store_ok_def)
  show "consent_keys_ok (tbl s')"
    using assms DeleteAccount_spec [OF assms(1)] consent_keys_ok_erase
    by (auto simp: store_ok_def erased_def consent_keys_ok_upd_other)
qed

lemma optimistic_store:
  assumes "optimistic i v f (tbl s) e tb'" "store_ok (tbl s)" "\<forall>it. f it ''GSI1SK'' = it ''GSI1SK''"
  shows "store_ok tb'"
  using assms store_neutral_upd [OF assms(2), of "settings_key i"] by (auto simp: optimistic_def)

lemma UpdateSettings_store:
  assumes "UpdateSettings r i st s = (e, s')" "store_ok (tbl s)"
  shows "store_ok (tbl s')"
proof (rule store_okI)
  show "registry_ok (tbl s')" using assms UpdateSettings_registry by (simp add: store_ok_def)
  show "consent_keys_ok (tbl s')"
    using assms UpdateSettings_spec [OF assms(1)]
    by (auto simp: store_ok_def write_spec_def consent_keys_ok_upd_other split: option.splits)
qed

lemma MutateSettingsTags_store:
  assumes "MutateSettingsTags r i req v s = (e, s')" "store_ok (tbl s)"
    and "distinct (derefSlice (ut_Add req))" "distinct (derefSlice (ut_Remove req))"
  shows "store_ok (tbl s')"
proof -
  consider "derefSlice (ut_Add req) = []" "derefSlice (ut_Remove req) = []"
    | "derefSlice (ut_Add req) \<noteq> []" "derefSlice (ut_Remove req) \<noteq> []"
    | "derefSlice (ut_Add req) = [] \<and> derefSlice (ut_Remove req) \<noteq> [] \<and> distinct (derefSlice (ut_Remove req))
       \<or> derefSlice (ut_Remove req) = [] \<and> derefSlice (ut_Add req) \<noteq> [] \<and> distinct (derefSlice (ut_Add req))"
    using assms(3,4) by blast
  then show ?thesis
  proof cases
    case 1
    with assms(1,2) show ?thesis by (auto simp: MutateSettingsTags_def)
  next
    case 2
    from MutateSettingsTags_both [OF assms(1) this] assms(2) show ?thesis by simp
  next
    case 3
    from optimistic_store [OF MutateSettingsTags_spec [OF assms(1) refl refl 3] assms(2)] show ?thesis
      by (simp add: retag_GSI)
  qed
qed

lemma demote_store:
  assumes "demoteAndPromoteDefault r now pk pre sk s = (e, s')" "(pk, sk) \<in> keys_of pk pre"
    and "group_fits fits (tbl s) (keys_of pk pre)" "card (flagged (tbl s) (keys_of pk pre)) < 100"
    and "store_ok (tbl s)"
  shows "store_ok (tbl s')"
proof -
  have few: "card (flagged (tbl s) (keys_of pk pre) - {(pk, sk)}) < 100"
    using assms(4) card_Diff1_le [of "flagged (tbl s) (keys_of pk pre)" "(pk, sk)"] by linarith
  have "store_ok (moved now (keys_of pk pre) (pk, sk) (tbl s))"
  proof (rule store_okI)
    show "registry_ok (moved now (keys_of pk pre) (pk, sk) (tbl s))"
      using assms(5) registry_same_identity moved_same_identity by (auto simp: store_ok_def)
    show "consent_keys_ok (moved now (keys_of pk pre) (pk, sk) (tbl s))"
      by (rule consent_keys_ok_mono [of "tbl s"])
        (use assms(5) in \<open>auto simp: store_ok_def moved_def split: option.splits\<close>)
  qed
  with demoteAndPromote_spec [OF assms(1) refl assms(2,3) few] assms(5) show ?thesis by auto
qed

lemma UpdateAddress_store:
  assumes "UpdateAddress r i aid u s = (e, s')" "store_ok (tbl s)"
  shows "store_ok (tbl s')"
  using UpdateAddress_spec [OF assms(1)]
proof (elim disjE exE conjE)
  fix new assume "put_result DbNotFound (tbl s (address_key i aid) \<noteq> None) (address_key i aid) new (tbl s) e (tbl s')"
    "\<forall>it. tbl s (address_key i aid) = Some it \<longrightarrow> new = Some (assign (address_clauses u) it)"
  with store_neutral_upd [OF assms(2), of "address_key i aid"] assms(2) show ?thesis
    by (auto simp: put_result_def clause_GSI)
qed (use assms in simp)

lemma UpdateAccountPreferences_store:
  assumes "UpdateAccountPreferences r i u s = (e, s')" "store_ok (tbl s)"
  shows "store_ok (tbl s')"
proof -
  have "store_ok ((tbl s)(prefs_key i \<mapsto> assign (prefs_clauses u) (old_or_new (prefs_key i) s)))"
  proof (cases "tbl s (prefs_key i)")
    case None
    then show ?thesis using assms(2)
      by (intro store_neutral) (simp_all add: clause_GSI old_or_new_def mk_key_def)
  next
    case (Some it)
    then show ?thesis using store_neutral_upd [OF assms(2) _ _ Some] by (simp add: old_or_new_def clause_GSI)
  qed
  with UpdateAccountPreferences_spec [OF assms(1)] assms(2) show ?thesis by auto
qed

lemma UpdatePasskey_store:
  assumes "UpdatePasskey r i cid u s = (x, s')" "store_ok (tbl s)"
  shows "store_ok (tbl s')"
  using UpdatePasskey_spec [OF assms(1)] store_neutral_upd [OF assms(2), of "passkey_key i cid"] assms(2)
  by (elim disjE exE conjE) (simp_all add: clause_GSI)

lemma CreatePasskey_store:
  assumes "CreatePasskey r now i c s = ((e, c'), s')" "store_ok (tbl s)"
  shows "store_ok (tbl s')"
proof (cases "pk_CredentialId c = []")
  case True
  with assms show ?thesis by (auto simp: CreatePasskey_def)
next
  case False
  with CreatePasskey_spec [OF assms(1) False] show ?thesis
    by (elim conjE) (erule store_put, simp_all add: assms(2))
qed

lemma AppendConsentLog_store:
  assumes "AppendConsentLog r now i entry s = ((e, entry'), s')" "store_ok (tbl s)"
    and "CHR ''#'' \<notin> set (cl_Channel entry)" "valid_time now" "valid_time (cl_RecordedAt entry)"
  shows "store_ok (tbl s')"
proof -
  from AppendConsentLog_spec [OF assms(1)]
  have e: "entry' = stamped now entry" and p: "put_result ConditionalCheckFailed
      (tbl s (consent_key i (cl_Channel entry') (cl_RecordedAt entry')) = None)
      (consent_key i (cl_Channel entry') (cl_RecordedAt entry')) (Some (consent_item i entry'))
      (tbl s) e (tbl s')" by blast+
  have c: "CHR ''#'' \<notin> set (cl_Channel entry')" "valid_time (cl_RecordedAt entry')"
    using assms(3-5) by (simp_all add: e stamped_def)
  have "registry_ok ((tbl s)(consent_key i (cl_Channel entry') (cl_RecordedAt entry') \<mapsto> consent_item i entry'))"
    by (rule registry_neutral) (use assms(2) in \<open>simp_all add: store_ok_def consent_item_def\<close>)
  moreover have "consent_keys_ok ((tbl s)(consent_key i (cl_Channel entry') (cl_RecordedAt entry')
      \<mapsto> consent_item i entry'))"
    by (rule consent_keys_ok_upd [OF _ c]) (use assms(2) in \<open>simp add: store_ok_def\<close>)
  ultimately show ?thesis using p assms(2) by (auto simp: put_result_def store_ok_def)
qed

end

section \<open>Runs of the repository\<close>

text \<open>One call of one operation, with any arguments, from state \<open>s\<close> to \<open>s'\<close>. The guards are the limits
  of the store (a group of items that fits in one page and one transaction, tag sets without
  duplicates) and what the callers guarantee (a channel name of the contract, real times).\<close>

inductive db_step :: "'s repo \<Rightarrow> ('s \<Rightarrow> table) \<Rightarrow> (item list \<Rightarrow> bool) \<Rightarrow> 's \<Rightarrow> 's \<Rightarrow> bool"
  for r :: "'s repo" and tbl :: "'s \<Rightarrow> table" and fits :: "item list \<Rightarrow> bool" where
  create_account: "CreateAccount r now i req s = (x1, s') \<Longrightarrow> db_step r tbl fits s s'"
| update_account: "UpdateAccount r now i u s = (x1, s') \<Longrightarrow> db_step r tbl fits s s'"
| update_credentials: "UpdateAccountCredentials r now i uc s = (x2, s') \<Longrightarrow> db_step r tbl fits s s'"
| delete_account: "DeleteAccount r i s = (x2, s') \<Longrightarrow> db_step r tbl fits s s'"
| get_account: "GetAccount r i s = (x1, s') \<Longrightarrow> db_step r tbl fits s s'"
| account_exists: "GetAccountExistsByEmail r email s = (x3, s') \<Longrightarrow> db_step r tbl fits s s'"
| get_credentials: "GetAccountCredentialsByEmail r email s = (x4, s') \<Longrightarrow> db_step r tbl fits s s'"
| get_settings: "GetSettings r i s = (x5, s') \<Longrightarrow> db_step r tbl fits s s'"
| update_settings: "UpdateSettings r i st s = (x2, s') \<Longrightarrow> db_step r tbl fits s s'"
| update_settings_partial: "UpdateSettingsPartial r now i us v s = (x2, s') \<Longrightarrow> db_step r tbl fits s s'"
| mutate_tags: "MutateSettingsTags r i tr v s = (x2, s') \<Longrightarrow>
    distinct (derefSlice (ut_Add tr)) \<Longrightarrow> distinct (derefSlice (ut_Remove tr)) \<Longrightarrow> db_step r tbl fits s s'"
| create_address: "CreateAddress r fresh i a s = ((x2, a'), s') \<Longrightarrow> db_step r tbl fits s s'"
| update_address: "UpdateAddress r i aid ua s = (x2, s') \<Longrightarrow> db_step r tbl fits s s'"
| delete_address: "DeleteAddress r i aid s = (x2, s') \<Longrightarrow> db_step r tbl fits s s'"
| default_address: "SetAddressDefault r now i aid s = (x2, s') \<Longrightarrow>
    group_fits fits (tbl s) (keys_of (createPK i) ''ADDR#'') \<Longrightarrow>
    card (flagged (tbl s) (keys_of (createPK i) ''ADDR#'')) < 100 \<Longrightarrow> db_step r tbl fits s s'"
| upsert_payment: "UpsertPayment r fresh i m s = ((x2, m'), s') \<Longrightarrow> db_step r tbl fits s s'"
| delete_payment: "DeletePayment r i pid s = (x2, s') \<Longrightarrow> db_step r tbl fits s s'"
| default_payment: "SetPaymentDefault r now i pid s = (x2, s') \<Longrightarrow>
    group_fits fits (tbl s) (keys_of (createPK i) ''PAY#'') \<Longrightarrow>
    card (flagged (tbl s) (keys_of (createPK i) ''PAY#'')) < 100 \<Longrightarrow> db_step r tbl fits s s'"
| update_preferences: "UpdateAccountPreferences r i p s = (x2, s') \<Longrightarrow> db_step r tbl fits s s'"
| append_consent: "AppendConsentLog r now i c s = ((x2, c'), s') \<Longrightarrow> CHR ''#'' \<notin> set (cl_Channel c) \<Longrightarrow>
    valid_time now \<Longrightarrow> valid_time (cl_RecordedAt c) \<Longrightarrow> db_step r tbl fits s s'"
| create_passkey: "CreatePasskey r now i k s = ((x2, k'), s') \<Longrightarrow> db_step r tbl fits s s'"
| update_passkey: "UpdatePasskey r i cid k s = (x6, s') \<Longrightarrow> db_step r tbl fits s s'"
| delete_passkey: "DeletePasskey r i cid s = (x2, s') \<Longrightarrow> db_step r tbl fits s s'"

lemma db_step_store:
  assumes step: "db_step r tbl fits s s'" and d: "dynamo r tbl ssl fits" and ok: "store_ok (tbl s)"
  shows "store_ok (tbl s')"
  using step
proof cases
  case (create_account now i req x1)
  then show ?thesis using dynamo.CreateAccount_store [OF d _ ok] by blast
next
  case (update_account now i u x1)
  then show ?thesis using dynamo.UpdateAccount_store [OF d _ ok] by blast
next
  case (update_credentials now i uc x2)
  then show ?thesis using dynamo.UpdateAccountCredentials_store [OF d _ ok] by blast
next
  case (delete_account i x2)
  then show ?thesis using dynamo.DeleteAccount_store [OF d _ ok] by blast
next
  case (get_account i x1)
  then show ?thesis using dynamo.GetAccount_spec [OF d] ok by metis
next
  case (account_exists email x3)
  then show ?thesis using dynamo.GetAccountExistsByEmail_spec [OF d] ok by (metis store_ok_def)
next
  case (get_credentials email x4)
  then show ?thesis using dynamo.credentials_spec [OF d] ok by (metis store_ok_def)
next
  case (get_settings i x5)
  then show ?thesis using dynamo.GetSettings_spec [OF d] ok by metis
next
  case (update_settings i st x2)
  then show ?thesis using dynamo.UpdateSettings_store [OF d _ ok] by blast
next
  case (update_settings_partial now i us v x2)
  then show ?thesis
    using dynamo.optimistic_store [OF d dynamo.UpdateSettingsPartial_spec [OF d] ok] settings_assign_GSI by blast
next
  case (mutate_tags i tr v x2)
  then show ?thesis using dynamo.MutateSettingsTags_store [OF d _ ok] by blast
next
  case (create_address fresh i a x2 a')
  from dynamo.CreateAddress_spec [OF d this] show ?thesis
    by (elim conjE) (erule store_put, simp_all add: ok)
next
  case (update_address i aid ua x2)
  then show ?thesis using dynamo.UpdateAddress_store [OF d _ ok] by blast
next
  case (delete_address i aid x2)
  from store_delete [OF dynamo.DeleteAddress_spec [OF d this] ok] show ?thesis by simp
next
  case (default_address now i aid x2)
  have "(createPK i, addrSK aid) \<in> keys_of (createPK i) ''ADDR#''"
    by (simp add: keys_of_def addrSK_def has_prefix_def)
  from dynamo.demote_store [OF d default_address(1) [unfolded SetAddressDefault_def] this default_address(2,3) ok]
  show ?thesis .
next
  case (upsert_payment fresh i m x2 m')
  from dynamo.UpsertPayment_spec [OF d this] show ?thesis
    by (elim conjE) (erule store_put, simp_all add: ok)
next
  case (delete_payment i pid x2)
  from store_delete [OF dynamo.DeletePayment_spec [OF d this] ok] show ?thesis by simp
next
  case (default_payment now i pid x2)
  have "(createPK i, paySK pid) \<in> keys_of (createPK i) ''PAY#''"
    by (simp add: keys_of_def paySK_def has_prefix_def)
  from dynamo.demote_store [OF d default_payment(1) [unfolded SetPaymentDefault_def] this default_payment(2,3) ok]
  show ?thesis .
next
  case (update_preferences i p x2)
  then show ?thesis using dynamo.UpdateAccountPreferences_store [OF d _ ok] by blast
next
  case (append_consent now i c x2 c')
  then show ?thesis using dynamo.AppendConsentLog_store [OF d _ ok] by blast
next
  case (create_passkey now i k x2 k')
  then show ?thesis using dynamo.CreatePasskey_store [OF d _ ok] by blast
next
  case (update_passkey i cid k x6)
  then show ?thesis using dynamo.UpdatePasskey_store [OF d _ ok] by blast
next
  case (delete_passkey i cid x2)
  from store_delete [OF dynamo.DeletePasskey_spec [OF d this] ok] show ?thesis by simp
qed

text \<open>Any number of steps from an empty table.\<close>

inductive reachable :: "'s repo \<Rightarrow> ('s \<Rightarrow> table) \<Rightarrow> (item list \<Rightarrow> bool) \<Rightarrow> 's \<Rightarrow> bool"
  for r :: "'s repo" and tbl :: "'s \<Rightarrow> table" and fits :: "item list \<Rightarrow> bool" where
  start: "tbl s = Map.empty \<Longrightarrow> reachable r tbl fits s"
| step: "reachable r tbl fits s \<Longrightarrow> db_step r tbl fits s s' \<Longrightarrow> reachable r tbl fits s'"

lemma store_ok_empty: "store_ok Map.empty"
  by (simp add: store_ok_def registry_empty consent_keys_ok_def)

lemma reachable_store: "reachable r tbl fits s \<Longrightarrow> dynamo r tbl ssl fits \<Longrightarrow> store_ok (tbl s)"
proof (induction rule: reachable.induct)
  case (start s)
  then show ?case by (simp add: store_ok_empty)
next
  case (step s s')
  show ?case by (rule db_step_store [OF step.hyps(2) step.prems step.IH [OF step.prems]])
qed

lemma sample_mem_reachable: "reachable mem_repo mem_tbl (\<lambda>_. True) sample_mem"
proof -
  have "mem_tbl empty_mem = Map.empty" by (rule ext) (simp add: mem_tbl_def empty_mem_def)
  then show ?thesis
    by (rule reachable.step [OF reachable.start create_account [OF sample_mem_created]])
qed

section \<open>Properties\<close>

text \<open>C8 (the repository as a whole). In every state that any sequence of repository operations can
  reach from an empty table, whatever the faults, an email address has at most one owner up to letter
  case, every owner holds the reservation of its address, and every reservation names an owner; so a
  sign-in lookup never finds two accounts.\<close>

theorem email_ownership_invariant:
  assumes "dynamo r tbl ssl fits" and "reachable r tbl fits s"
  shows "(\<forall>i j em em'. owns (tbl s) i em \<and> owns (tbl s) j em' \<and> to_lower em = to_lower em' \<longrightarrow> i = j)
    \<and> (\<forall>i em. owns (tbl s) i em \<longrightarrow> reserved (tbl s) em i)
    \<and> (\<forall>em. tbl s (reservation_key em) \<noteq> None \<longrightarrow> (\<exists>i. reserved (tbl s) em i \<and> owns (tbl s) i (to_lower em)))
    \<and> (\<forall>email. fst (GetAccountCredentialsByEmail r email s) \<noteq> Inl DbEmailAlreadyExists
        \<and> fst (GetAccountExistsByEmail r email s) \<noteq> Inl DbEmailAlreadyExists)"
proof -
  have ok: "registry_ok (tbl s)" using reachable_store [OF assms(2,1)] by (simp add: store_ok_def)
  have c: "fst (GetAccountCredentialsByEmail r email s) \<noteq> Inl DbEmailAlreadyExists" for email
    using dynamo.credentials_spec [OF assms(1) prod.collapse [symmetric] ok, of email]
    by (auto simp: unmarshal_error_def split: sum.splits)
  have e: "fst (GetAccountExistsByEmail r email s) \<noteq> Inl DbEmailAlreadyExists" for email
    using dynamo.GetAccountExistsByEmail_spec [OF assms(1) prod.collapse [symmetric] ok, of email]
    by (auto split: sum.splits)
  have res: "\<exists>i. reserved (tbl s) em i \<and> owns (tbl s) i (to_lower em)" if "tbl s (reservation_key em) \<noteq> None" for em
    using that reservationE [OF ok] unfolding reserved_def by blast
  show ?thesis
    using owns_unique [OF ok] owns_reserved [OF ok] res c e by blast
qed

lemma email_ownership_invariant_witness:
  "reachable mem_repo mem_tbl (\<lambda>_. True) sample_mem \<and> owns (mem_tbl sample_mem) ''a1'' ''ann@x.io''
    \<and> reserved (mem_tbl sample_mem) ''ann@x.io'' ''a1''"
proof -
  have l: "to_lower (ca_Email sample_request) = ''ann@x.io''" by code_simp
  have "owns (mem_tbl sample_mem) ''a1'' ''ann@x.io''"
    using mem.CreateAccount_spec [OF sample_mem_created] created_owns [of sample_time "''a1''" sample_request] l
    by auto
  with sample_mem_reachable email_ownership_invariant [OF mem.dynamo_axioms sample_mem_reachable] show ?thesis by blast
qed

end
