(* ===== verification/Directory.thy ===== *)
theory Directory
  imports Repo_System
begin

text \<open>
  What \<open>internal/db\<close> promises about identity, as an abstract machine: a directory from lower-case email
  addresses to accounts, whose only moves are the registration of a free address for an account that has none
  and the release of an address (\<open>dir_step\<close>). The relation \<open>dir_rel\<close> reads the directory off the profiles
  of the table; every operation of the repository is simulated by one move or none (\<open>db_step_directory\<close>).
\<close>

section \<open>The directory\<close>

type_synonym directory = "string \<rightharpoonup> string"

definition dir_rel :: "table \<Rightarrow> directory \<Rightarrow> bool" where
  "dir_rel tb D \<longleftrightarrow> (\<forall>em i. D em = Some i \<longleftrightarrow> owns tb i em)"

text \<open>One step of the directory: nothing, the registration of a free address for an account that has none, or the
  release of an address.\<close>

inductive dir_step :: "directory \<Rightarrow> directory \<Rightarrow> bool" where
  stay: "dir_step D D"
| register: "D em = None \<Longrightarrow> i \<notin> ran D \<Longrightarrow> dir_step D (D(em \<mapsto> i))"
| release: "D em = Some i \<Longrightarrow> dir_step D (D(em := None))"

section \<open>Simulation\<close>

text \<open>The operations that leave every profile's email alone.\<close>

definition same_owners :: "table \<Rightarrow> table \<Rightarrow> bool" where
  "same_owners tb tb' \<longleftrightarrow> (\<forall>a em. owns tb' a em \<longleftrightarrow> owns tb a em)"

lemma same_owners_refl [simp]: "same_owners tb tb"
  by (simp add: same_owners_def)

lemma same_owners_upd: "\<forall>a. k \<noteq> profile_key a \<Longrightarrow> same_owners tb (tb(k := x))"
  by (simp add: same_owners_def owns_upd)

lemma same_owners_put: "put_result f ok k new tb e tb' \<Longrightarrow> \<forall>a. k \<noteq> profile_key a \<Longrightarrow> same_owners tb tb'"
  by (auto simp: put_result_def same_owners_upd)

lemma same_owners_cases: "tb' = tb(k := x) \<and> p \<or> tb' = tb \<and> q \<Longrightarrow> \<forall>a. k \<noteq> profile_key a \<Longrightarrow> same_owners tb tb'"
  by (auto simp: same_owners_upd)

lemma same_owners_optimistic: "optimistic i v f tb e tb' \<Longrightarrow> same_owners tb tb'"
  by (auto simp: optimistic_def intro!: same_owners_upd)

lemma same_owners_write: "write_spec ok k new tb e tb' \<Longrightarrow> \<forall>a. k \<noteq> profile_key a \<Longrightarrow> same_owners tb tb'"
  by (auto simp: write_spec_def same_owners_upd split: option.splits)

lemma same_owners_profile:
  "tb (profile_key i) = Some it \<Longrightarrow> new ''email'' = it ''email'' \<Longrightarrow> same_owners tb (tb(profile_key i \<mapsto> new))"
  by (auto simp: same_owners_def owns_def)

lemma same_owners_moved: "same_owners tb (moved t G k tb)"
  by (auto simp: same_owners_def owns_def moved_def split: option.splits)

lemma same_owners_erase: "profile_key i \<notin> D \<Longrightarrow> D \<subseteq> part i \<Longrightarrow> same_owners tb (erase D tb)"
proof -
  assume "profile_key i \<notin> D" "D \<subseteq> part i"
  then have "profile_key a \<notin> D" for a by (auto simp: part_def profile_key_def)
  then show ?thesis by (simp add: same_owners_def owns_def erase_def)
qed

lemma not_profile [simp]:
  "address_key i x \<noteq> profile_key a" "payment_key i x \<noteq> profile_key a" "passkey_key i x \<noteq> profile_key a"
  "consent_key i c t \<noteq> profile_key a" "prefs_key i \<noteq> profile_key a"
  by (simp_all add: neutral_not_profile)

lemma clause_email:
  "assign (account_clauses t u) it ''email'' = it ''email''" "assign (credentials_clauses t c) it ''email'' = it ''email''"
  by (simp_all add: account_clauses_def credentials_clauses_def opt_upd_other)

context dynamo
begin

lemma demote_owners:
  assumes "demoteAndPromoteDefault r t pk pre sk s = (e, s')" "(pk, sk) \<in> keys_of pk pre"
    and "group_fits fits (tbl s) (keys_of pk pre)" "card (flagged (tbl s) (keys_of pk pre)) < 100"
  shows "same_owners (tbl s) (tbl s')"
proof -
  have few: "card (flagged (tbl s) (keys_of pk pre) - {(pk, sk)}) < 100"
    using assms(4) card_Diff1_le [of "flagged (tbl s) (keys_of pk pre)" "(pk, sk)"] by linarith
  from demoteAndPromote_spec [OF assms(1) refl assms(2,3) few] show ?thesis by (auto simp: same_owners_moved)
qed

lemma MutateSettingsTags_owners:
  assumes "MutateSettingsTags r i req v s = (e, s')"
    and "distinct (derefSlice (ut_Add req))" "distinct (derefSlice (ut_Remove req))"
  shows "same_owners (tbl s) (tbl s')"
proof -
  consider "derefSlice (ut_Add req) = []" "derefSlice (ut_Remove req) = []"
    | "derefSlice (ut_Add req) \<noteq> []" "derefSlice (ut_Remove req) \<noteq> []"
    | "derefSlice (ut_Add req) = [] \<and> derefSlice (ut_Remove req) \<noteq> [] \<and> distinct (derefSlice (ut_Remove req))
       \<or> derefSlice (ut_Remove req) = [] \<and> derefSlice (ut_Add req) \<noteq> [] \<and> distinct (derefSlice (ut_Add req))"
    using assms(2,3) by blast
  then show ?thesis
  proof cases
    case 1
    with assms(1) show ?thesis by (auto simp: MutateSettingsTags_def)
  next
    case 2
    from MutateSettingsTags_both [OF assms(1) this] show ?thesis by simp
  next
    case 3
    from same_owners_optimistic [OF MutateSettingsTags_spec [OF assms(1) refl refl 3]] show ?thesis .
  qed
qed

end

text \<open>Every operation but registration and erasure.\<close>

inductive identity_step :: "'s repo \<Rightarrow> 's \<Rightarrow> 's \<Rightarrow> bool" for r :: "'s repo" where
  "CreateAccount r t i req s = (x1, s') \<Longrightarrow> identity_step r s s'"
| "DeleteAccount r i s = (x2, s') \<Longrightarrow> identity_step r s s'"

lemma db_step_owners:
  assumes step: "db_step r tbl fits s s'" and d: "dynamo r tbl ssl fits" and ok: "store_ok (tbl s)"
  shows "same_owners (tbl s) (tbl s') \<or> identity_step r s s'"
  using step
proof cases
  case (create_account now i req x1)
  then show ?thesis by (simp add: identity_step.intros)
next
  case (delete_account i x2)
  then show ?thesis by (simp add: identity_step.intros)
next
  case (update_account now i u x1)
  from dynamo.UpdateAccount_spec [OF d this] show ?thesis
    by (auto intro!: same_owners_profile simp: clause_email)
next
  case (update_credentials now i uc x2)
  from dynamo.UpdateAccountCredentials_spec [OF d this] show ?thesis
    by (auto intro!: same_owners_profile simp: clause_email)
next
  case (get_account i x1)
  then show ?thesis using dynamo.GetAccount_spec [OF d] by (metis same_owners_refl)
next
  case (account_exists email x3)
  then show ?thesis using dynamo.GetAccountExistsByEmail_spec [OF d] ok by (metis store_ok_def same_owners_refl)
next
  case (get_credentials email x4)
  then show ?thesis using dynamo.credentials_spec [OF d] ok by (metis store_ok_def same_owners_refl)
next
  case (get_settings i x5)
  then show ?thesis using dynamo.GetSettings_spec [OF d] by (metis same_owners_refl)
next
  case (update_settings i st x2)
  from same_owners_write [OF dynamo.UpdateSettings_spec [OF d this]] show ?thesis by simp
next
  case (update_settings_partial now i us v x2)
  from same_owners_optimistic [OF dynamo.UpdateSettingsPartial_spec [OF d this]] show ?thesis by simp
next
  case (mutate_tags i tr v x2)
  from dynamo.MutateSettingsTags_owners [OF d mutate_tags(1-3)] show ?thesis by simp
next
  case (create_address fresh i a x2 a')
  from dynamo.CreateAddress_spec [OF d this] show ?thesis by (auto intro: same_owners_put)
next
  case (update_address i aid ua x2)
  from dynamo.UpdateAddress_spec [OF d this] show ?thesis by (auto intro: same_owners_put)
next
  case (delete_address i aid x2)
  from same_owners_cases [OF dynamo.DeleteAddress_spec [OF d this]] show ?thesis by simp
next
  case (default_address now i aid x2)
  have "(createPK i, addrSK aid) \<in> keys_of (createPK i) ''ADDR#''"
    by (simp add: keys_of_def addrSK_def has_prefix_def)
  from dynamo.demote_owners [OF d default_address(1) [unfolded SetAddressDefault_def] this default_address(2,3)]
  show ?thesis by simp
next
  case (upsert_payment fresh i m x2 m')
  from dynamo.UpsertPayment_spec [OF d this] show ?thesis by (auto intro: same_owners_put)
next
  case (delete_payment i pid x2)
  from same_owners_cases [OF dynamo.DeletePayment_spec [OF d this]] show ?thesis by simp
next
  case (default_payment now i pid x2)
  have "(createPK i, paySK pid) \<in> keys_of (createPK i) ''PAY#''"
    by (simp add: keys_of_def paySK_def has_prefix_def)
  from dynamo.demote_owners [OF d default_payment(1) [unfolded SetPaymentDefault_def] this default_payment(2,3)]
  show ?thesis by simp
next
  case (update_preferences i p x2)
  from dynamo.UpdateAccountPreferences_spec [OF d this] show ?thesis by (auto simp: same_owners_upd)
next
  case (append_consent now i c x2 c')
  from dynamo.AppendConsentLog_spec [OF d append_consent(1)] show ?thesis by (auto intro: same_owners_put)
next
  case (create_passkey now i k x2 k')
  show ?thesis
  proof (cases "pk_CredentialId k = []")
    case True
    with create_passkey show ?thesis by (auto simp: CreatePasskey_def)
  next
    case False
    from dynamo.CreatePasskey_spec [OF d create_passkey False] show ?thesis by (auto intro: same_owners_put)
  qed
next
  case (update_passkey i cid k x6)
  from dynamo.UpdatePasskey_spec [OF d this] show ?thesis by (auto simp: same_owners_upd)
next
  case (delete_passkey i cid x2)
  from same_owners_cases [OF dynamo.DeletePasskey_spec [OF d this]] show ?thesis by simp
qed

text \<open>Registration and erasure, read as steps of the directory.\<close>

lemma free_directory:
  assumes "free i em tb" "registry_ok tb" "dir_rel tb D"
  shows "D (to_lower em) = None" "i \<notin> ran D"
proof -
  have none: "\<not> owns tb a (to_lower em)" for a
    using owns_reserved [OF assms(2), of a "to_lower em"] assms(1) by (auto simp: free_def reserved_def)
  show "D (to_lower em) = None"
  proof (cases "D (to_lower em)")
    case (Some a)
    with assms(3) none show ?thesis by (simp add: dir_rel_def)
  qed
  have "\<not> owns tb i em'" for em' using assms(1) by (simp add: free_def owns_def)
  then show "i \<notin> ran D" using assms(3) by (auto simp: ran_def dir_rel_def)
qed

lemma owns_created:
  assumes "free i (ca_Email req) tb"
  shows "owns (created t i req tb) a em \<longleftrightarrow> a = i \<and> em = to_lower (ca_Email req) \<or> owns tb a em"
proof (cases "a = i")
  case True
  have no: "\<not> owns tb i em" using assms by (simp add: free_def owns_def)
  have "owns (created t i req tb) i em \<longleftrightarrow> em = to_lower (ca_Email req)"
    using created_owns [of t i req tb] by (auto simp: owns_def)
  with True no show ?thesis by simp
next
  case False
  then show ?thesis by (simp add: created_def owns_def)
qed

lemma created_directory:
  assumes "free i (ca_Email req) tb" "registry_ok tb" "dir_rel tb D"
  shows "dir_rel (created t i req tb) (D(to_lower (ca_Email req) \<mapsto> i))"
proof -
  have none: "\<not> owns tb a (to_lower (ca_Email req))" for a
    using free_directory(1) [OF assms] assms(3) by (metis dir_rel_def option.distinct(1))
  show ?thesis
    unfolding dir_rel_def
  proof (intro allI)
    fix em a
    show "(D(to_lower (ca_Email req) \<mapsto> i)) em = Some a \<longleftrightarrow> owns (created t i req tb) a em"
      using assms(3) none by (auto simp: owns_created [OF assms(1)] dir_rel_def)
  qed
qed

lemma owns_erased: "owns (erased i em tb) a em' \<longleftrightarrow> a \<noteq> i \<and> owns tb a em'"
proof -
  have "profile_key a \<in> insert (reservation_key em) (part i) \<longleftrightarrow> a = i"
    using key_inject(1) [of a i] by (auto simp: part_def profile_key_def [of i])
      (auto simp: profile_key_def)
  then show ?thesis by (auto simp: owns_def erased_def erase_def)
qed

lemma erased_directory:
  assumes "owns tb i em" "dir_rel tb D"
  shows "D em = Some i" "dir_rel (erased i em tb) (D(em := None))"
proof -
  show "D em = Some i" using assms by (simp add: dir_rel_def)
  have u: "em' = em" if "owns tb i em'" for em' using that assms(1) by (auto simp: owns_def)
  show "dir_rel (erased i em tb) (D(em := None))"
    unfolding dir_rel_def
  proof (intro allI)
    fix em' a
    have "D em' = Some a \<longleftrightarrow> owns tb a em'" "D em = Some i" using assms by (simp_all add: dir_rel_def)
    then show "(D(em := None)) em' = Some a \<longleftrightarrow> owns (erased i em tb) a em'"
      using u by (auto simp: owns_erased)
  qed
qed

lemma same_owners_directory:
  "same_owners tb tb' \<Longrightarrow> dir_rel tb D \<Longrightarrow> \<exists>D'. dir_step D D' \<and> dir_rel tb' D'"
  by (intro exI [of _ D]) (simp add: dir_step.stay same_owners_def dir_rel_def)

lemma identity_step_directory:
  assumes step: "identity_step r s s'" and d: "dynamo r tbl ssl fits"
    and ok: "registry_ok (tbl s)" and rel: "dir_rel (tbl s) D"
  shows "\<exists>D'. dir_step D D' \<and> dir_rel (tbl s') D'"
  using step
proof cases
  case (1 t i req x1)
  from dynamo.CreateAccount_spec [OF d this] show ?thesis
  proof (elim disjE conjE)
    assume f: "free i (ca_Email req) (tbl s)" and n: "tbl s' = created t i req (tbl s)"
    then show ?thesis
      using created_directory [OF f ok rel, of t] dir_step.register [OF free_directory [OF f ok rel]] by metis
  qed (use rel dir_step.stay in auto)
next
  case (2 i x2)
  from dynamo.DeleteAccount_spec [OF d this ok] show ?thesis
  proof
    assume "\<exists>em. owns (tbl s) i em \<and> em \<noteq> [] \<and> tbl s' = erased i em (tbl s) \<and> (\<forall>x. x2 = Some x \<longrightarrow> transport x)"
    then obtain em where "owns (tbl s) i em" "tbl s' = erased i em (tbl s)" by blast
    then show ?thesis using erased_directory [of "tbl s" i em D] rel dir_step.release by metis
  next
    assume "\<exists>x E. x2 = Some x \<and> finite E \<and> E \<subseteq> part i - {profile_key i} \<and> tbl s' = erase E (tbl s)
        \<and> (transport x \<or> E = {} \<and> (x = DbNotFound \<and> tbl s (profile_key i) = None
              \<or> x = DbUnreadableProfileEmail \<and> owns (tbl s) i []))"
    then obtain E where "E \<subseteq> part i - {profile_key i}" "tbl s' = erase E (tbl s)" by blast
    then have "same_owners (tbl s) (tbl s')" using same_owners_erase [of i E "tbl s"] by auto
    then show ?thesis using rel by (rule same_owners_directory)
  qed
qed

lemma db_step_directory:
  assumes "db_step r tbl fits s s'" "dynamo r tbl ssl fits" "store_ok (tbl s)" "dir_rel (tbl s) D"
  shows "\<exists>D'. dir_step D D' \<and> dir_rel (tbl s') D'"
  using db_step_owners [OF assms(1-3)]
proof
  assume "same_owners (tbl s) (tbl s')"
  then show ?thesis using assms(4) by (rule same_owners_directory)
next
  assume "identity_step r s s'"
  from identity_step_directory [OF this assms(2) _ assms(4)] assms(3) show ?thesis by (simp add: store_ok_def)
qed

lemma reachable_directory:
  assumes "reachable r tbl fits s" and d: "dynamo r tbl ssl fits"
  shows "\<exists>D. dir_step\<^sup>*\<^sup>* Map.empty D \<and> dir_rel (tbl s) D"
  using assms(1)
proof induction
  case (start s)
  then show ?case by (intro exI [of _ Map.empty]) (simp add: dir_rel_def owns_def)
next
  case (step s s')
  then show ?case using db_step_directory [OF step.hyps(2) d reachable_store [OF step.hyps(1) d]]
    by (meson rtranclp.rtrancl_into_rtrancl)
qed

section \<open>The refinement\<close>



end
