(* ===== verification/Ttl_Cache.thy ===== *)
theory Ttl_Cache
  imports Prelude "HOL-Library.AList"
begin

text \<open>
  \<open>internal/ttlcache/cache.go\<close>: the cache in front of profile and credential lookups. Its \<open>sync.Map\<close> is
  an association list with distinct keys. \<open>Range\<close> visits the entries in an unspecified order, which
  is a parameter: \<open>rng\<close> lists the keys in the order of one traversal. Instants are integers
  (nanoseconds of the monotonic clock), durations are integers.
\<close>

type_synonym instant = int

record 'v centry =
  e_value :: 'v
  e_expiresAt :: instant

record ('k, 'v) ttl_cache =
  c_m :: "('k \<times> 'v centry) list"
  c_maxEntries :: int

definition New :: "int \<Rightarrow> ('k, 'v) ttl_cache" where
  "New maxEntries = \<lparr>c_m = [], c_maxEntries = maxEntries\<rparr>"

definition load :: "('k, 'v) ttl_cache \<Rightarrow> 'k \<Rightarrow> 'v centry option" where
  "load c k = map_of (c_m c) k"

definition Delete :: "'k \<Rightarrow> ('k, 'v) ttl_cache \<Rightarrow> ('k, 'v) ttl_cache" where
  "Delete k c = c\<lparr>c_m := AList.delete k (c_m c)\<rparr>"

definition store :: "'k \<Rightarrow> 'v centry \<Rightarrow> ('k, 'v) ttl_cache \<Rightarrow> ('k, 'v) ttl_cache" where
  "store k e c = c\<lparr>c_m := AList.update k e (c_m c)\<rparr>"

definition keys :: "('k, 'v) ttl_cache \<Rightarrow> 'k list" where
  "keys c = map fst (c_m c)"

text \<open>\<open>time.Now().After(e.expiresAt)\<close>\<close>

definition expired :: "instant \<Rightarrow> 'v centry \<Rightarrow> bool" where
  "expired now e \<longleftrightarrow> e_expiresAt e < now"

definition Get :: "instant \<Rightarrow> 'k \<Rightarrow> ('k, 'v) ttl_cache \<Rightarrow> 'v option \<times> ('k, 'v) ttl_cache" where
  "Get now k c = (case load c k of
     None \<Rightarrow> (None, c)
   | Some e \<Rightarrow> if expired now e then (None, Delete k c) else (Some (e_value e), c))"

text \<open>The counting traversal of \<open>Set\<close> stops as soon as the limit is reached.\<close>

fun count_until :: "int \<Rightarrow> int \<Rightarrow> 'k list \<Rightarrow> int" where
  "count_until maxEntries sz [] = sz"
| "count_until maxEntries sz (k # ks) =
     (if sz + 1 < maxEntries then count_until maxEntries (sz + 1) ks else sz + 1)"

text \<open>The traversal of \<open>evictOne\<close>: it deletes the first expired entry it meets and then keeps
  nothing in \<open>firstKey\<close>; it looks at 32 entries at most.\<close>

fun evict_scan :: "instant \<Rightarrow> nat \<Rightarrow> 'k option \<Rightarrow> 'k list \<Rightarrow> ('k, 'v) ttl_cache \<Rightarrow> 'k option \<times> ('k, 'v) ttl_cache" where
  "evict_scan now n firstKey [] c = (firstKey, c)"
| "evict_scan now n firstKey (k # ks) c =
     (let firstKey' = (if n = 0 then Some k else firstKey); n' = n + 1
      in case load c k of
           Some e \<Rightarrow> if expired now e then (None, Delete k c)
                    else if n' < 32 then evict_scan now n' firstKey' ks c else (firstKey', c)
         | None \<Rightarrow> if n' < 32 then evict_scan now n' firstKey' ks c else (firstKey', c))"

definition evictOne :: "instant \<Rightarrow> 'k list \<Rightarrow> ('k, 'v) ttl_cache \<Rightarrow> ('k, 'v) ttl_cache" where
  "evictOne now rng c = (case evict_scan now 0 None rng c of
     (None, c') \<Rightarrow> c'
   | (Some k, c') \<Rightarrow> Delete k c')"

text \<open>\<open>rng\<close> and \<open>rng'\<close> are the orders of the two traversals.\<close>

definition Set_entry :: "instant \<Rightarrow> instant \<Rightarrow> 'k list \<Rightarrow> 'k list \<Rightarrow> 'k \<Rightarrow> 'v \<Rightarrow> int
    \<Rightarrow> ('k, 'v) ttl_cache \<Rightarrow> ('k, 'v) ttl_cache" where
  "Set_entry now now' rng rng' k v ttl c =
     (let c1 = (if c_maxEntries c > 0
                then (let sz = count_until (c_maxEntries c) 0 rng
                      in if sz \<ge> c_maxEntries c then evictOne now rng' c else c)
                else c)
      in store k \<lparr>e_value = v, e_expiresAt = now' + ttl\<rparr> c1)"

text \<open>One tick of the eviction loop.\<close>

fun evict_tick :: "instant \<Rightarrow> 'k list \<Rightarrow> ('k, 'v) ttl_cache \<Rightarrow> ('k, 'v) ttl_cache" where
  "evict_tick now [] c = c"
| "evict_tick now (k # ks) c =
     (case load c k of
        Some e \<Rightarrow> if expired now e then evict_tick now ks (Delete k c) else evict_tick now ks c
      | None \<Rightarrow> evict_tick now ks c)"

section \<open>Lemmas\<close>

text \<open>A well-formed cache has one entry per key and at most \<open>maxEntries\<close> of them; a traversal order lists
  the keys.\<close>

definition cache_ok :: "('k, 'v) ttl_cache \<Rightarrow> bool" where
  "cache_ok c \<longleftrightarrow> distinct (keys c) \<and> (0 < c_maxEntries c \<longrightarrow> int (length (c_m c)) \<le> c_maxEntries c)"

definition order_of :: "('k, 'v) ttl_cache \<Rightarrow> 'k list \<Rightarrow> bool" where
  "order_of c rng \<longleftrightarrow> distinct rng \<and> set rng = set (keys c)"

text \<open>What a reader sees at an instant.\<close>

definition live :: "instant \<Rightarrow> ('k, 'v) ttl_cache \<Rightarrow> 'k \<Rightarrow> 'v option" where
  "live now c k = (case load c k of None \<Rightarrow> None
     | Some e \<Rightarrow> if expired now e then None else Some (e_value e))"

lemma load_Delete [simp]: "load (Delete k c) k' = (if k' = k then None else load c k')"
  by (simp add: load_def Delete_def AList.delete_conv')

lemma load_store [simp]: "load (store k e c) k' = (if k' = k then Some e else load c k')"
  by (simp add: load_def store_def AList.update_conv')

lemma load_New [simp]: "load (New n) k = None"
  by (simp add: load_def New_def)

lemma max_simps [simp]: "c_maxEntries (Delete k c) = c_maxEntries c" "c_maxEntries (store k e c) = c_maxEntries c"
  by (simp_all add: Delete_def store_def)

lemma keys_Delete: fixes c :: "('k, 'v) ttl_cache"
  shows "keys (Delete k c) = filter (\<lambda>x. x \<noteq> k) (keys c)"
proof -
  have "map fst (filter (\<lambda>(k', _). k \<noteq> k') xs) = filter (\<lambda>x. x \<noteq> k) (map fst xs)" for xs :: "('k \<times> 'v centry) list"
    by (induction xs) auto
  then show ?thesis by (simp add: keys_def Delete_def AList.delete_eq)
qed

lemma keys_store: "set (keys (store k e c)) = insert k (set (keys c))"
  by (simp add: keys_def store_def AList.dom_update)

lemma load_keys: "load c k = None \<longleftrightarrow> k \<notin> set (keys c)"
  by (simp add: load_def keys_def map_of_eq_None_iff)

lemma length_keys: "length (keys c) = length (c_m c)"
  by (simp add: keys_def)

lemma distinct_keys [simp]:
  "distinct (keys c) \<Longrightarrow> distinct (keys (Delete k c))"
  "distinct (keys c) \<Longrightarrow> distinct (keys (store k e c))"
  by (simp_all add: keys_Delete) (simp add: keys_def store_def AList.distinct_update)

lemma size_store:
  assumes "distinct (keys c)"
  shows "length (keys (store k e c)) = (if load c k = None then Suc (length (keys c)) else length (keys c))"
proof -
  have "length (keys (store k e c)) = card (insert k (set (keys c)))"
    using assms by (metis distinct_card distinct_keys(2) keys_store)
  then show ?thesis using assms by (simp add: load_keys card_insert_if distinct_card)
qed

lemma size_Delete:
  assumes "distinct (keys c)"
  shows "length (keys (Delete k c)) = (if load c k = None then length (keys c) else length (keys c) - 1)"
proof -
  have "set (keys (Delete k c)) = set (keys c) - {k}" by (auto simp: keys_Delete)
  then have "length (keys (Delete k c)) = card (set (keys c) - {k})"
    using assms by (metis distinct_card distinct_keys(1))
  then show ?thesis using assms by (simp add: load_keys card_Diff_singleton_if distinct_card)
qed

lemma count_until_reaches:
  "sz < maxE \<Longrightarrow> count_until maxE sz ks = min maxE (sz + int (length ks))"
  by (induction ks arbitrary: sz) auto

text \<open>\<open>evictOne\<close> removes exactly one entry of a cache that is not empty: an expired one if it meets any,
  else the first one of the traversal.\<close>

lemma evict_scan_spec:
  assumes "evict_scan now n firstKey ks c = (f, c')" and "set ks \<subseteq> set (keys c)"
    and "n = 0 \<longleftrightarrow> firstKey = None"
  shows "(\<exists>k e. f = None \<and> k \<in> set ks \<and> load c k = Some e \<and> expired now e \<and> c' = Delete k c)
    \<or> c' = c \<and> f = (if n = 0 \<and> ks \<noteq> [] then Some (hd ks) else firstKey)
      \<and> (\<forall>k \<in> set (take (32 - n) ks). \<forall>e. load c k = Some e \<longrightarrow> \<not> expired now e)"
  using assms
proof (induction ks arbitrary: n firstKey)
  case (Cons k ks)
  let ?f = "if n = 0 then Some k else firstKey"
  from Cons.prems(2) obtain e where e: "load c k = Some e" by (cases "load c k") (auto simp: load_keys)
  show ?case
  proof (cases "expired now e")
    case True
    with Cons.prems(1) e show ?thesis by (auto simp: Let_def)
  next
    case False
    show ?thesis
    proof (cases "n + 1 < 32")
      case True
      with Cons.prems(1) e False have "evict_scan now (n + 1) ?f ks c = (f, c')" by (simp add: Let_def)
      from Cons.IH [OF this] Cons.prems(2,3) have "(\<exists>k e. f = None \<and> k \<in> set ks \<and> load c k = Some e
          \<and> expired now e \<and> c' = Delete k c)
        \<or> c' = c \<and> f = ?f \<and> (\<forall>k \<in> set (take (32 - (n + 1)) ks). \<forall>e. load c k = Some e \<longrightarrow> \<not> expired now e)"
        by auto
      moreover have "take (32 - n) (k # ks) = k # take (32 - (n + 1)) ks"
        using True by (simp add: take_Cons')
      ultimately show ?thesis using e False by auto
    next
      case ge: False
      with Cons.prems(1) e False have "f = ?f" "c' = c" by (simp_all add: Let_def)
      moreover have "set (take (32 - n) (k # ks)) \<subseteq> {k}" using ge by (auto simp: take_Cons')
      ultimately show ?thesis using e False by auto
    qed
  qed
qed simp

lemma evictOne_spec:
  assumes "order_of c rng" and "keys c \<noteq> []"
  shows "\<exists>k. k \<in> set (keys c) \<and> evictOne now rng c = Delete k c
    \<and> ((\<exists>k' \<in> set (take 32 rng). \<exists>e. load c k' = Some e \<and> expired now e)
        \<longrightarrow> (\<exists>e. load c k = Some e \<and> expired now e))"
proof -
  obtain f c' where s: "evict_scan now 0 None rng c = (f, c')" by fastforce
  have ne: "rng \<noteq> []" "set rng = set (keys c)" using assms by (auto simp: order_of_def)
  from evict_scan_spec [OF s] ne consider
      (stale) k e where "f = None" "k \<in> set rng" "load c k = Some e" "expired now e" "c' = Delete k c"
    | (first) "c' = c" "f = Some (hd rng)"
        "\<forall>k \<in> set (take 32 rng). \<forall>e. load c k = Some e \<longrightarrow> \<not> expired now e"
    by auto
  then show ?thesis
  proof cases
    case stale
    then show ?thesis using s ne by (auto simp: evictOne_def)
  next
    case first
    moreover have "hd rng \<in> set (keys c)" using ne by (metis list.set_sel(1))
    ultimately show ?thesis using s by (auto simp: evictOne_def)
  qed
qed

lemma cache_ok_New: "cache_ok (New n)"
  by (simp add: cache_ok_def New_def keys_def)

lemma cache_ok_Delete: "cache_ok c \<Longrightarrow> cache_ok (Delete k c)"
  using size_Delete [of c k] by (auto simp: cache_ok_def simp flip: length_keys split: if_splits)

lemma Set_size:
  assumes ok: "cache_ok c" and o: "order_of c rng" "order_of c rng'"
  obtains c1 where "Set_entry now now' rng rng' k v ttl c = store k \<lparr>e_value = v, e_expiresAt = now' + ttl\<rparr> c1"
    "distinct (keys c1)" "c_maxEntries c1 = c_maxEntries c"
    "c1 = c \<and> (0 < c_maxEntries c \<longrightarrow> int (length (keys c)) < c_maxEntries c)
      \<or> (\<exists>x \<in> set (keys c). c1 = Delete x c) \<and> int (length (keys c)) = c_maxEntries c"
proof (cases "0 < c_maxEntries c \<and> count_until (c_maxEntries c) 0 rng \<ge> c_maxEntries c")
  case True
  have "length rng = length (keys c)"
    using o(1) ok by (metis cache_ok_def distinct_card order_of_def)
  with True have full: "int (length (keys c)) = c_maxEntries c"
    using ok count_until_reaches [of 0 "c_maxEntries c" rng] by (auto simp: cache_ok_def length_keys)
  with True have "keys c \<noteq> []" by auto
  from evictOne_spec [OF o(2) this] obtain x where "x \<in> set (keys c)" "evictOne now rng' c = Delete x c" by blast
  with True full ok show ?thesis
    by (intro that [of "Delete x c"]) (auto simp: Set_entry_def Let_def cache_ok_def)
next
  case False
  have "length rng = length (keys c)"
    using o(1) ok by (metis cache_ok_def distinct_card order_of_def)
  with False ok show ?thesis
    by (intro that [of c]) (auto simp: Set_entry_def Let_def cache_ok_def count_until_reaches)
qed

section \<open>Properties\<close>


text \<open>C22 (Set). The cache never holds more than \<open>maxEntries\<close> entries, whatever the order in which the map is
  traversed. After storing a value, it is what a reader sees until its lifetime ends; every other
  entry is unchanged, except that at most one is gone, and only if the cache was full.\<close>

theorem Set_bounded:
  assumes "cache_ok c" and "order_of c rng" and "order_of c rng'"
    and "c' = Set_entry now now' rng rng' k v ttl c"
  shows "cache_ok c'
    \<and> (\<forall>t. live t c' k = (if now' + ttl < t then None else Some v))
    \<and> (\<exists>x. \<forall>k'. k' \<noteq> k \<and> k' \<noteq> x \<longrightarrow> load c' k' = load c k')
    \<and> (\<forall>k'. k' \<noteq> k \<longrightarrow> load c' k' = load c k'
        \<or> load c' k' = None \<and> int (length (keys c)) = c_maxEntries c)"
proof -
  from Set_size [OF assms(1-3), of now now' k v ttl] obtain c1 where
    c1: "c' = store k \<lparr>e_value = v, e_expiresAt = now' + ttl\<rparr> c1" "distinct (keys c1)"
      "c_maxEntries c1 = c_maxEntries c"
      "c1 = c \<and> (0 < c_maxEntries c \<longrightarrow> int (length (keys c)) < c_maxEntries c)
        \<or> (\<exists>x \<in> set (keys c). c1 = Delete x c) \<and> int (length (keys c)) = c_maxEntries c"
    unfolding assms(4) by metis
  have ne: "0 < length (keys c)" if "x \<in> set (keys c)" for x using that by auto
  have small: "int (length (keys c')) \<le> c_maxEntries c" if "0 < c_maxEntries c"
    using c1(4)
  proof
    assume "c1 = c \<and> (0 < c_maxEntries c \<longrightarrow> int (length (keys c)) < c_maxEntries c)"
    with that show ?thesis using size_store [OF c1(2), of k "\<lparr>e_value = v, e_expiresAt = now' + ttl\<rparr>"]
      by (auto simp: c1(1))
  next
    assume "(\<exists>x \<in> set (keys c). c1 = Delete x c) \<and> int (length (keys c)) = c_maxEntries c"
    then obtain x where x: "x \<in> set (keys c)" "c1 = Delete x c" "int (length (keys c)) = c_maxEntries c" by blast
    have "length (keys c1) = length (keys c) - 1"
      using x assms(1) size_Delete [of c x] by (auto simp: cache_ok_def load_keys)
    with x ne [OF x(1)] show ?thesis
      using size_store [OF c1(2), of k "\<lparr>e_value = v, e_expiresAt = now' + ttl\<rparr>"] by (auto simp: c1(1))
  qed
  have "cache_ok c'" using small c1(1-3) by (simp add: cache_ok_def flip: length_keys)
  moreover have "live t c' k = (if now' + ttl < t then None else Some v)" for t
    by (simp add: c1(1) live_def expired_def)
  moreover have "\<exists>x. \<forall>k'. k' \<noteq> k \<and> k' \<noteq> x \<longrightarrow> load c' k' = load c k'"
    using c1(1,4) by auto
  moreover have "\<forall>k'. k' \<noteq> k \<longrightarrow> load c' k' = load c k'
      \<or> load c' k' = None \<and> int (length (keys c)) = c_maxEntries c"
    using c1(1,4) by auto
  ultimately show ?thesis by blast
qed

definition sample_cache :: "(string, nat) ttl_cache" where
  "sample_cache = Set_entry 0 0 [''a''] [''a''] ''b'' 2 50 (Set_entry 0 0 [] [] ''a'' 1 10 (New 2))"

lemma Set_bounded_witness:
  "keys sample_cache = [''a'', ''b''] \<and> cache_ok sample_cache
    \<and> live 30 (Set_entry 20 20 [''b'', ''a''] [''b'', ''a''] ''c'' 3 50 sample_cache) ''c'' = Some 3
    \<and> keys (Set_entry 20 20 [''b'', ''a''] [''b'', ''a''] ''c'' 3 50 sample_cache) = [''b'', ''c'']"
proof -
  have k: "keys sample_cache = [''a'', ''b'']" by code_simp
  have m: "c_maxEntries sample_cache = 2" by code_simp
  have ok: "cache_ok sample_cache" by (simp add: cache_ok_def k m flip: length_keys)
  have o: "order_of sample_cache [''b'', ''a'']" by (auto simp: order_of_def k)
  have "keys (Set_entry 20 20 [''b'', ''a''] [''b'', ''a''] ''c'' 3 50 sample_cache) = [''b'', ''c'']" by code_simp
  with Set_bounded [OF ok o o refl, of 20 20 "''c''" 3 50] k ok show ?thesis by simp
qed

text \<open>evict: A sweep of the eviction loop removes exactly the expired entries: it terminates, and no
  reader sees a difference at that instant or later.\<close>

theorem evict_sweep:
  assumes "order_of c rng"
  shows "load (evict_tick now rng c) k = (case load c k of None \<Rightarrow> None
      | Some e \<Rightarrow> if expired now e then None else Some e)
    \<and> (\<forall>t \<ge> now. live t (evict_tick now rng c) k = live t c k)"
proof -
  have gen: "load (evict_tick now ks c) k = (case load c k of None \<Rightarrow> None
      | Some e \<Rightarrow> if expired now e \<and> k \<in> set ks then None else Some e)" for ks
  proof (induction ks arbitrary: c)
    case Nil
    then show ?case by (simp split: option.split)
  next
    case (Cons x ks)
    show ?case
    proof (cases "load c x")
      case None
      then show ?thesis by (cases "x = k") (auto simp: Cons.IH split: option.split)
    next
      case (Some e)
      then show ?thesis by (cases "x = k") (auto simp: Cons.IH split: option.split)
    qed
  qed
  have "k \<in> set rng" if "load c k = Some e" for e
    using assms that load_keys [of c k] by (auto simp: order_of_def)
  with gen [of rng] have l: "load (evict_tick now rng c) k = (case load c k of None \<Rightarrow> None
      | Some e \<Rightarrow> if expired now e then None else Some e)" by (auto split: option.split)
  then show ?thesis by (auto simp: live_def expired_def split: option.split)
qed

lemma evict_sweep_witness:
  "order_of sample_cache [''b'', ''a''] \<and> keys (evict_tick 20 [''b'', ''a''] sample_cache) = [''b'']
    \<and> live 30 (evict_tick 20 [''b'', ''a''] sample_cache) ''b'' = live 30 sample_cache ''b''"
proof -
  have "keys sample_cache = [''a'', ''b'']" by code_simp
  then have o: "order_of sample_cache [''b'', ''a'']" by (auto simp: order_of_def)
  have "keys (evict_tick 20 [''b'', ''a''] sample_cache) = [''b'']" by code_simp
  with o evict_sweep [OF o, of 20 "''b''"] show ?thesis by simp
qed

end
