(* ===== verification/Events.thy ===== *)
theory Events
  imports Errors
begin

text \<open>
  The domain events: the payloads of \<open>internal/models/events/events.go\<close> and the constructors of
  \<open>internal/clients/events.go\<close>. The event type itself and \<open>domain.New\<close>, which validates its input, belong
  to the SDK: an event is represented by the input it was built from, and \<open>domain.New\<close> is a parameter
  that accepts the input or returns an error. Times in payloads are the formatted strings of the code.
\<close>

section \<open>Payloads\<close>

record account_registered_payload =
  ev_AccountID :: string
  ev_Email :: string
  ev_Username :: string
  ev_FirstName :: string
  ev_LastName :: string
  ev_AuthMethods :: "string list"
  ev_CreatedAt :: string

record account_deleted_payload =
  ed_AccountID :: string

record account_profile_updated_payload =
  eu_AccountID :: string
  eu_ChangedFields :: "string list"
  eu_UpdatedAt :: string

record account_email_changed_payload =
  ee_AccountID :: string
  ee_OldEmail :: string
  ee_NewEmail :: string

record account_phone_changed_payload =
  ep_AccountID :: string
  ep_OldPhone :: string
  ep_NewPhone :: string

record account_consent_changed_payload =
  ec_AccountID :: string
  ec_Channel :: string
  ec_Action :: string
  ec_Source :: string
  ec_SourceRef :: string
  ec_RecordedAt :: string

record account_preferences_updated_payload =
  ef_AccountID :: string
  ef_Language :: string
  ef_Timezone :: string
  ef_Communication :: "(string \<times> bool) list"
  ef_UpdatedAt :: string

record account_status_changed_payload =
  es_AccountID :: string
  es_OldStatus :: string
  es_NewStatus :: string
  es_StatusReason :: string
  es_StatusChangedAt :: string

text \<open>A nil slice would be sent as \<open>null\<close>, so nil (\<open>None\<close>) and empty are kept apart here.\<close>

record account_tags_changed_payload =
  et_AccountID :: string
  et_Added :: "string list option"
  et_Removed :: "string list option"

record account_passkey_added_payload =
  ea_AccountID :: string
  ea_CredentialID :: string
  ea_AAGUID :: string
  ea_Transports :: "string list"
  ea_CreatedAt :: string

record account_passkey_removed_payload =
  er_AccountID :: string
  er_CredentialID :: string

datatype payload =
    RegisteredP account_registered_payload
  | DeletedP account_deleted_payload
  | ProfileUpdatedP account_profile_updated_payload
  | EmailChangedP account_email_changed_payload
  | PhoneChangedP account_phone_changed_payload
  | ConsentChangedP account_consent_changed_payload
  | PreferencesUpdatedP account_preferences_updated_payload
  | StatusChangedP account_status_changed_payload
  | TagsChangedP account_tags_changed_payload
  | PasskeyAddedP account_passkey_added_payload
  | PasskeyRemovedP account_passkey_removed_payload

section \<open>Constructors\<close>

definition EventTypeAccountRegistered :: string where "EventTypeAccountRegistered = ''account.registered''"
definition EventTypeAccountDeleted :: string where "EventTypeAccountDeleted = ''account.deleted''"
definition EventTypeAccountProfileUpdated :: string where
  "EventTypeAccountProfileUpdated = ''account.profile_updated''"
definition EventTypeAccountEmailChanged :: string where
  "EventTypeAccountEmailChanged = ''account.email_changed''"
definition EventTypeAccountPhoneChanged :: string where
  "EventTypeAccountPhoneChanged = ''account.phone_changed''"
definition EventTypeAccountConsentChanged :: string where
  "EventTypeAccountConsentChanged = ''account.consent_changed''"
definition EventTypeAccountPreferencesUpdated :: string where
  "EventTypeAccountPreferencesUpdated = ''account.preferences_updated''"
definition EventTypeAccountStatusChanged :: string where
  "EventTypeAccountStatusChanged = ''account.status_changed''"
definition EventTypeAccountTagsChanged :: string where
  "EventTypeAccountTagsChanged = ''account.tags_changed''"
definition EventTypeAccountPasskeyAdded :: string where
  "EventTypeAccountPasskeyAdded = ''account.passkey_added''"
definition EventTypeAccountPasskeyRemoved :: string where
  "EventTypeAccountPasskeyRemoved = ''account.passkey_removed''"

record event_input =
  ei_Type :: string
  ei_Source :: string
  ei_EntityID :: string
  ei_EntityType :: string
  ei_Version :: string
  ei_Payload :: payload

type_synonym domain_new = "event_input \<Rightarrow> error option"

definition newAccountEvent :: "domain_new \<Rightarrow> string \<Rightarrow> string \<Rightarrow> payload \<Rightarrow> error + event_input" where
  "newAccountEvent new eventType accountID p =
     (let inp = \<lparr>ei_Type = eventType, ei_Source = ''komodo-accounts-api'', ei_EntityID = accountID,
            ei_EntityType = ''account'', ei_Version = ''1'', ei_Payload = p\<rparr>
      in case new inp of Some e \<Rightarrow> Inl e | None \<Rightarrow> Inr inp)"

definition NewAccountRegisteredEvent ::
  "domain_new \<Rightarrow> string \<Rightarrow> account_registered_payload \<Rightarrow> error + event_input" where
  "NewAccountRegisteredEvent new accountID p =
     newAccountEvent new EventTypeAccountRegistered accountID (RegisteredP p)"

definition NewAccountDeletedEvent ::
  "domain_new \<Rightarrow> string \<Rightarrow> account_deleted_payload \<Rightarrow> error + event_input" where
  "NewAccountDeletedEvent new accountID p = newAccountEvent new EventTypeAccountDeleted accountID (DeletedP p)"

definition NewAccountProfileUpdatedEvent ::
  "domain_new \<Rightarrow> string \<Rightarrow> account_profile_updated_payload \<Rightarrow> error + event_input" where
  "NewAccountProfileUpdatedEvent new accountID p =
     newAccountEvent new EventTypeAccountProfileUpdated accountID (ProfileUpdatedP p)"

definition NewAccountEmailChangedEvent ::
  "domain_new \<Rightarrow> string \<Rightarrow> account_email_changed_payload \<Rightarrow> error + event_input" where
  "NewAccountEmailChangedEvent new accountID p =
     newAccountEvent new EventTypeAccountEmailChanged accountID (EmailChangedP p)"

definition NewAccountPhoneChangedEvent ::
  "domain_new \<Rightarrow> string \<Rightarrow> account_phone_changed_payload \<Rightarrow> error + event_input" where
  "NewAccountPhoneChangedEvent new accountID p =
     newAccountEvent new EventTypeAccountPhoneChanged accountID (PhoneChangedP p)"

definition NewAccountConsentChangedEvent ::
  "domain_new \<Rightarrow> string \<Rightarrow> account_consent_changed_payload \<Rightarrow> error + event_input" where
  "NewAccountConsentChangedEvent new accountID p =
     newAccountEvent new EventTypeAccountConsentChanged accountID (ConsentChangedP p)"

definition NewAccountPreferencesUpdatedEvent ::
  "domain_new \<Rightarrow> string \<Rightarrow> account_preferences_updated_payload \<Rightarrow> error + event_input" where
  "NewAccountPreferencesUpdatedEvent new accountID p =
     newAccountEvent new EventTypeAccountPreferencesUpdated accountID (PreferencesUpdatedP p)"

definition NewAccountStatusChangedEvent ::
  "domain_new \<Rightarrow> string \<Rightarrow> account_status_changed_payload \<Rightarrow> error + event_input" where
  "NewAccountStatusChangedEvent new accountID p =
     newAccountEvent new EventTypeAccountStatusChanged accountID (StatusChangedP p)"

definition NewAccountTagsChangedEvent ::
  "domain_new \<Rightarrow> string \<Rightarrow> account_tags_changed_payload \<Rightarrow> error + event_input" where
  "NewAccountTagsChangedEvent new accountID p =
     (let p1 = (if et_Added p = None then p\<lparr>et_Added := Some []\<rparr> else p);
          p2 = (if et_Removed p1 = None then p1\<lparr>et_Removed := Some []\<rparr> else p1)
      in newAccountEvent new EventTypeAccountTagsChanged accountID (TagsChangedP p2))"

definition NewAccountPasskeyAddedEvent ::
  "domain_new \<Rightarrow> string \<Rightarrow> account_passkey_added_payload \<Rightarrow> error + event_input" where
  "NewAccountPasskeyAddedEvent new accountID p =
     newAccountEvent new EventTypeAccountPasskeyAdded accountID (PasskeyAddedP p)"

definition NewAccountPasskeyRemovedEvent ::
  "domain_new \<Rightarrow> string \<Rightarrow> account_passkey_removed_payload \<Rightarrow> error + event_input" where
  "NewAccountPasskeyRemovedEvent new accountID p =
     newAccountEvent new EventTypeAccountPasskeyRemoved accountID (PasskeyRemovedP p)"

lemma newAccountEvent_fields:
  "newAccountEvent new t i p = Inr e \<Longrightarrow> ei_Type e = t \<and> ei_EntityID e = i \<and> ei_Payload e = p
    \<and> ei_Source e = ''komodo-accounts-api'' \<and> ei_EntityType e = ''account'' \<and> ei_Version e = ''1''"
  by (auto simp: newAccountEvent_def Let_def split: option.splits)

end
