(* ===== verification/Service.thy ===== *)
theory Service
  imports Repo_System Ttl_Cache Events
begin

text \<open>
  The state of \<open>internal/api\<close> (\<open>service.go\<close>) and its interfaces. \<open>repository\<close> is the Go interface of
  \<open>repo.go\<close>; \<open>db_repository\<close> is the implementation the program wires in. The locale \<open>repository\<close> states
  what the services rely on, and the interpretation at the end shows that \<open>internal/db\<close> provides it.
  Readings of the clock, random identifiers and map traversal orders come from an environment: the
  world counts how many have been taken.
\<close>

section \<open>The repository interface\<close>

text \<open>\<open>type repository interface\<close>. An operation whose implementation reads the clock or draws an
  identifier takes the instant or the identifier as an argument; one that changes the struct it is
  given also returns it.\<close>

record 'd repository =
  rp_GetAccount :: "string \<Rightarrow> 'd \<Rightarrow> (error + account) \<times> 'd"
  rp_CreateAccount :: "gtime \<Rightarrow> string \<Rightarrow> create_account_request \<Rightarrow> 'd \<Rightarrow> (error + account) \<times> 'd"
  rp_UpdateAccount :: "gtime \<Rightarrow> string \<Rightarrow> update_account_request \<Rightarrow> 'd \<Rightarrow> (error + account) \<times> 'd"
  rp_DeleteAccount :: "string \<Rightarrow> 'd \<Rightarrow> error option \<times> 'd"
  rp_GetAccountAddresses :: "string \<Rightarrow> 'd \<Rightarrow> (error + address list) \<times> 'd"
  rp_CreateAddress :: "string \<Rightarrow> string \<Rightarrow> address \<Rightarrow> 'd \<Rightarrow> (error option \<times> address) \<times> 'd"
  rp_UpdateAddress :: "string \<Rightarrow> string \<Rightarrow> update_address_request \<Rightarrow> 'd \<Rightarrow> error option \<times> 'd"
  rp_DeleteAddress :: "string \<Rightarrow> string \<Rightarrow> 'd \<Rightarrow> error option \<times> 'd"
  rp_SetAddressDefault :: "gtime \<Rightarrow> string \<Rightarrow> string \<Rightarrow> 'd \<Rightarrow> error option \<times> 'd"
  rp_ListPayments :: "string \<Rightarrow> 'd \<Rightarrow> (error + payment_method list) \<times> 'd"
  rp_UpsertPayment :: "string \<Rightarrow> string \<Rightarrow> payment_method \<Rightarrow> 'd \<Rightarrow> (error option \<times> payment_method) \<times> 'd"
  rp_DeletePayment :: "string \<Rightarrow> string \<Rightarrow> 'd \<Rightarrow> error option \<times> 'd"
  rp_SetPaymentDefault :: "gtime \<Rightarrow> string \<Rightarrow> string \<Rightarrow> 'd \<Rightarrow> error option \<times> 'd"
  rp_GetAccountPreferences :: "string \<Rightarrow> 'd \<Rightarrow> (error + preferences) \<times> 'd"
  rp_UpdateAccountPreferences :: "string \<Rightarrow> preferences \<Rightarrow> 'd \<Rightarrow> error option \<times> 'd"
  rp_GetAccountCredentialsByEmail :: "string \<Rightarrow> 'd \<Rightarrow> (error + credentials_response) \<times> 'd"
  rp_UpdateAccountCredentials :: "gtime \<Rightarrow> string \<Rightarrow> update_credentials_request \<Rightarrow> 'd \<Rightarrow> error option \<times> 'd"
  rp_GetAccountExistsByEmail :: "string \<Rightarrow> 'd \<Rightarrow> (error + account_exists_response) \<times> 'd"
  rp_GetAccountPasskeys :: "string \<Rightarrow> 'd \<Rightarrow> (error + passkey_credential list) \<times> 'd"
  rp_CreatePasskey :: "gtime \<Rightarrow> string \<Rightarrow> passkey_credential \<Rightarrow> 'd \<Rightarrow> (error option \<times> passkey_credential) \<times> 'd"
  rp_UpdatePasskey :: "string \<Rightarrow> string \<Rightarrow> passkey_credential \<Rightarrow> 'd \<Rightarrow> (error + passkey_credential) \<times> 'd"
  rp_DeletePasskey :: "string \<Rightarrow> string \<Rightarrow> 'd \<Rightarrow> error option \<times> 'd"
  rp_GetSettings :: "string \<Rightarrow> 'd \<Rightarrow> (error + account_settings) \<times> 'd"
  rp_UpdateSettings :: "string \<Rightarrow> account_settings \<Rightarrow> 'd \<Rightarrow> error option \<times> 'd"
  rp_UpdateSettingsPartial :: "gtime \<Rightarrow> string \<Rightarrow> update_settings_request \<Rightarrow> go_int \<Rightarrow> 'd \<Rightarrow> error option \<times> 'd"
  rp_MutateSettingsTags :: "string \<Rightarrow> update_settings_tags_request \<Rightarrow> go_int \<Rightarrow> 'd \<Rightarrow> error option \<times> 'd"
  rp_AppendConsentLog :: "gtime \<Rightarrow> string \<Rightarrow> consent_log \<Rightarrow> 'd \<Rightarrow> (error option \<times> consent_log) \<times> 'd"
  rp_ListConsentHistory :: "string \<Rightarrow> 'd \<Rightarrow> (error + consent_log list) \<times> 'd"
  rp_GetLatestConsent :: "string \<Rightarrow> string \<Rightarrow> 'd \<Rightarrow> (error + consent_log option) \<times> 'd"

text \<open>\<open>*db.Repo\<close> implements the interface.\<close>

definition db_repository :: "'d repo \<Rightarrow> 'd repository" where
  "db_repository r = \<lparr>rp_GetAccount = GetAccount r, rp_CreateAccount = CreateAccount r,
     rp_UpdateAccount = UpdateAccount r, rp_DeleteAccount = DeleteAccount r,
     rp_GetAccountAddresses = GetAccountAddresses r, rp_CreateAddress = CreateAddress r,
     rp_UpdateAddress = UpdateAddress r, rp_DeleteAddress = DeleteAddress r,
     rp_SetAddressDefault = SetAddressDefault r, rp_ListPayments = ListPayments r,
     rp_UpsertPayment = UpsertPayment r, rp_DeletePayment = DeletePayment r,
     rp_SetPaymentDefault = SetPaymentDefault r, rp_GetAccountPreferences = GetAccountPreferences r,
     rp_UpdateAccountPreferences = UpdateAccountPreferences r,
     rp_GetAccountCredentialsByEmail = GetAccountCredentialsByEmail r,
     rp_UpdateAccountCredentials = UpdateAccountCredentials r,
     rp_GetAccountExistsByEmail = GetAccountExistsByEmail r, rp_GetAccountPasskeys = GetAccountPasskeys r,
     rp_CreatePasskey = CreatePasskey r, rp_UpdatePasskey = UpdatePasskey r,
     rp_DeletePasskey = DeletePasskey r, rp_GetSettings = GetSettings r, rp_UpdateSettings = UpdateSettings r,
     rp_UpdateSettingsPartial = UpdateSettingsPartial r, rp_MutateSettingsTags = MutateSettingsTags r,
     rp_AppendConsentLog = AppendConsentLog r, rp_ListConsentHistory = ListConsentHistory r,
     rp_GetLatestConsent = GetLatestConsent r\<rparr>"

section \<open>The other clients and the environment\<close>

text \<open>The S3 client of the SDK, over a state of its own.\<close>

record 'o s3_api =
  s3_ListObjects :: "string \<Rightarrow> string \<Rightarrow> 'o \<Rightarrow> (error + string list) \<times> 'o"
  s3_DeleteObjects :: "string \<Rightarrow> string list \<Rightarrow> 'o \<Rightarrow> error option \<times> 'o"
  s3_DeleteObject :: "string \<Rightarrow> string \<Rightarrow> 'o \<Rightarrow> error option \<times> 'o"
  s3_PutObject :: "string \<Rightarrow> string \<Rightarrow> profile_export \<Rightarrow> string \<Rightarrow> 'o \<Rightarrow> error option \<times> 'o"
  s3_PresignGet :: "string \<Rightarrow> string \<Rightarrow> int \<Rightarrow> 'o \<Rightarrow> (error + string) \<times> 'o"
  s3_PresignPut :: "string \<Rightarrow> string \<Rightarrow> int \<Rightarrow> string \<Rightarrow> go_int \<Rightarrow> 'o \<Rightarrow> (error + string) \<times> 'o"

text \<open>The \<open>n\<close>-th reading of the clock, its calendar form in UTC, the \<open>n\<close>-th random identifier and the
  order of the \<open>n\<close>-th traversal of a map with the given keys.\<close>

record env =
  env_Now :: "nat \<Rightarrow> instant"
  env_UTC :: "instant \<Rightarrow> gtime"
  env_Ksuid :: "nat \<Rightarrow> string"
  env_Range :: "nat \<Rightarrow> string list \<Rightarrow> string list"

record ('d, 'o) world =
  w_db :: 'd
  w_objs :: 'o
  w_profiles :: "(string, account) ttl_cache"
  w_creds :: "(string, credentials_response) ttl_cache"
  w_ticks :: nat
  w_sent :: "event_input list"

record ('d, 'o) service =
  sv_repo :: "'d repository"
  sv_s3 :: "'o s3_api option"
  sv_exportBucket :: string
  sv_unsubscribeKey :: string
  sv_avatarBucket :: string
  sv_presignTTL :: int
  sv_unsubTokenTTL :: int
  sv_cacheTTL :: int
  sv_eventPublisher :: "(event_input \<Rightarrow> error option) option"
  sv_domainNew :: domain_new
  sv_env :: env

definition now :: "('d, 'o) service \<Rightarrow> ('d, 'o) world \<Rightarrow> instant \<times> ('d, 'o) world" where
  "now sv w = (env_Now (sv_env sv) (w_ticks w), w\<lparr>w_ticks := w_ticks w + 1\<rparr>)"

definition utc_now :: "('d, 'o) service \<Rightarrow> ('d, 'o) world \<Rightarrow> gtime \<times> ('d, 'o) world" where
  "utc_now sv w = (case now sv w of (t, w') \<Rightarrow> (env_UTC (sv_env sv) t, w'))"

definition new_ksuid :: "('d, 'o) service \<Rightarrow> ('d, 'o) world \<Rightarrow> string \<times> ('d, 'o) world" where
  "new_ksuid sv w = (env_Ksuid (sv_env sv) (w_ticks w), w\<lparr>w_ticks := w_ticks w + 1\<rparr>)"

text \<open>A call of the repository, or of S3.\<close>

definition call_db :: "('d \<Rightarrow> 'a \<times> 'd) \<Rightarrow> ('d, 'o) world \<Rightarrow> 'a \<times> ('d, 'o) world" where
  "call_db f w = (case f (w_db w) of (x, d) \<Rightarrow> (x, w\<lparr>w_db := d\<rparr>))"

definition call_s3 :: "('o \<Rightarrow> 'a \<times> 'o) \<Rightarrow> ('d, 'o) world \<Rightarrow> 'a \<times> ('d, 'o) world" where
  "call_s3 f w = (case f (w_objs w) of (x, b) \<Rightarrow> (x, w\<lparr>w_objs := b\<rparr>))"

section \<open>NewService\<close>

record ('d, 'o) service_extra_config =
  cfg_S3Client :: "'o s3_api option"
  cfg_ExportBucket :: string
  cfg_UnsubscribeKey :: string
  cfg_AvatarBucket :: string
  cfg_PresignTTL :: int
  cfg_UnsubTokenTTL :: int
  cfg_CacheTTL :: int
  cfg_CacheMaxSize :: int
  cfg_EventPublisher :: "(event_input \<Rightarrow> error option) option"

text \<open>Durations are in nanoseconds. The two caches of the new service are returned with it.\<close>

definition second :: int where "second = 1000000000"

definition NewService :: "domain_new \<Rightarrow> env \<Rightarrow> 'd repository \<Rightarrow> ('d, 'o) service_extra_config
    \<Rightarrow> ('d, 'o) service \<times> (string, account) ttl_cache \<times> (string, credentials_response) ttl_cache" where
  "NewService dnew en repo cfg =
     (let cacheTTL = (if cfg_CacheTTL cfg \<le> 0 then 60 * second else cfg_CacheTTL cfg);
          cacheMaxSize = (if cfg_CacheMaxSize cfg \<le> 0 then 100000 else cfg_CacheMaxSize cfg);
          presign = (if cfg_PresignTTL cfg \<le> 0 then 15 * 60 * second else cfg_PresignTTL cfg);
          unsubTTL = (if cfg_UnsubTokenTTL cfg \<le> 0 then 30 * 24 * 3600 * second else cfg_UnsubTokenTTL cfg)
      in (\<lparr>sv_repo = repo, sv_s3 = cfg_S3Client cfg, sv_exportBucket = cfg_ExportBucket cfg,
           sv_unsubscribeKey = cfg_UnsubscribeKey cfg, sv_avatarBucket = cfg_AvatarBucket cfg,
           sv_presignTTL = presign, sv_unsubTokenTTL = unsubTTL, sv_cacheTTL = cacheTTL,
           sv_eventPublisher = cfg_EventPublisher cfg, sv_domainNew = dnew, sv_env = en\<rparr>,
          New cacheMaxSize, New cacheMaxSize))"

definition isNotFound :: "error \<Rightarrow> bool" where
  "isNotFound e \<longleftrightarrow> e = DbNotFound"

section \<open>The caches of the service\<close>

definition profile_get :: "('d, 'o) service \<Rightarrow> string \<Rightarrow> ('d, 'o) world \<Rightarrow> account option \<times> ('d, 'o) world" where
  "profile_get sv k w = (case now sv w of (t, w1) \<Rightarrow>
     (case Get t k (w_profiles w1) of (x, c) \<Rightarrow> (x, w1\<lparr>w_profiles := c\<rparr>)))"

definition profile_set :: "('d, 'o) service \<Rightarrow> string \<Rightarrow> account \<Rightarrow> ('d, 'o) world \<Rightarrow> ('d, 'o) world" where
  "profile_set sv k v w = (case now sv w of (t, w1) \<Rightarrow> (case now sv w1 of (t', w2) \<Rightarrow>
     w2\<lparr>w_profiles := Set_entry t t' (env_Range (sv_env sv) (w_ticks w) (keys (w_profiles w)))
        (env_Range (sv_env sv) (w_ticks w1) (keys (w_profiles w))) k v (sv_cacheTTL sv) (w_profiles w)\<rparr>))"

definition profile_delete :: "string \<Rightarrow> ('d, 'o) world \<Rightarrow> ('d, 'o) world" where
  "profile_delete k w = w\<lparr>w_profiles := Delete k (w_profiles w)\<rparr>"

definition creds_get :: "('d, 'o) service \<Rightarrow> string \<Rightarrow> ('d, 'o) world
    \<Rightarrow> credentials_response option \<times> ('d, 'o) world" where
  "creds_get sv k w = (case now sv w of (t, w1) \<Rightarrow>
     (case Get t k (w_creds w1) of (x, c) \<Rightarrow> (x, w1\<lparr>w_creds := c\<rparr>)))"

definition creds_set :: "('d, 'o) service \<Rightarrow> string \<Rightarrow> credentials_response \<Rightarrow> ('d, 'o) world \<Rightarrow> ('d, 'o) world" where
  "creds_set sv k v w = (case now sv w of (t, w1) \<Rightarrow> (case now sv w1 of (t', w2) \<Rightarrow>
     w2\<lparr>w_creds := Set_entry t t' (env_Range (sv_env sv) (w_ticks w) (keys (w_creds w)))
        (env_Range (sv_env sv) (w_ticks w1) (keys (w_creds w))) k v (sv_cacheTTL sv) (w_creds w)\<rparr>))"

definition creds_delete :: "string \<Rightarrow> ('d, 'o) world \<Rightarrow> ('d, 'o) world" where
  "creds_delete k w = w\<lparr>w_creds := Delete k (w_creds w)\<rparr>"

section \<open>Publishing\<close>

text \<open>\<open>publishAccountEvent\<close>: an event that could not be built is only logged; the outcome of \<open>Publish\<close>, which
  runs under a timeout of its own, is only logged as well.\<close>

definition publishAccountEvent :: "('d, 'o) service \<Rightarrow> error + event_input \<Rightarrow> ('d, 'o) world \<Rightarrow> ('d, 'o) world" where
  "publishAccountEvent sv event w = (case event of
     Inl buildErr \<Rightarrow> w
   | Inr ev \<Rightarrow> (case sv_eventPublisher sv of None \<Rightarrow> w | Some publish \<Rightarrow> w\<lparr>w_sent := w_sent w @ [ev]\<rparr>))"

section \<open>Lemmas on the world\<close>

lemma evict_scan_shape: "evict_scan t n f ks c = (g, c') \<Longrightarrow> c' = c \<or> g = None \<and> (\<exists>k. c' = Delete k c)"
  by (induction ks arbitrary: n f) (auto simp: Let_def split: option.splits if_splits)

lemma evictOne_shape: "evictOne t rng c = c \<or> (\<exists>k. evictOne t rng c = Delete k c)"
proof -
  obtain g c' where s: "evict_scan t 0 None rng c = (g, c')" by fastforce
  from evict_scan_shape [OF s] s show ?thesis by (auto simp: evictOne_def split: option.splits)
qed

text \<open>Whatever the orders of traversal, storing an entry changes no other entry, it can only drop one.\<close>

lemma load_Set_entry:
  "load (Set_entry t t' rng rng' k v ttl c) k' = (if k' = k then Some \<lparr>e_value = v, e_expiresAt = t' + ttl\<rparr>
      else load (Set_entry t t' rng rng' k v ttl c) k')"
  "k' \<noteq> k \<Longrightarrow> load (Set_entry t t' rng rng' k v ttl c) k' \<in> {load c k', None}"
  using evictOne_shape [of t rng' c] by (auto simp: Set_entry_def Let_def split: if_splits)

lemma Get_live: "fst (Get t k c) = live t c k"
  by (simp add: Get_def live_def split: option.split)

lemma load_Get: "load (snd (Get t k c)) k' \<in> {load c k', None}"
  by (simp add: Get_def split: option.split)

text \<open>The parts of the world that the helpers leave alone.\<close>

lemma clock_fields:
  "now sv w = (t, w') \<Longrightarrow> w_db w' = w_db w \<and> w_objs w' = w_objs w \<and> w_profiles w' = w_profiles w
     \<and> w_creds w' = w_creds w \<and> w_sent w' = w_sent w"
  "utc_now sv w = (u, w') \<Longrightarrow> w_db w' = w_db w \<and> w_objs w' = w_objs w \<and> w_profiles w' = w_profiles w
     \<and> w_creds w' = w_creds w \<and> w_sent w' = w_sent w"
  by (auto simp: now_def utc_now_def)

lemma profile_set_fields [simp]:
  "w_db (profile_set sv k v w) = w_db w" "w_objs (profile_set sv k v w) = w_objs w"
  "w_creds (profile_set sv k v w) = w_creds w" "w_sent (profile_set sv k v w) = w_sent w"
  by (simp_all add: profile_set_def now_def)

lemma creds_set_fields [simp]:
  "w_db (creds_set sv k v w) = w_db w" "w_objs (creds_set sv k v w) = w_objs w"
  "w_profiles (creds_set sv k v w) = w_profiles w" "w_sent (creds_set sv k v w) = w_sent w"
  by (simp_all add: creds_set_def now_def)

lemma delete_fields [simp]:
  "w_db (profile_delete k w) = w_db w" "w_objs (profile_delete k w) = w_objs w"
  "w_creds (profile_delete k w) = w_creds w" "w_sent (profile_delete k w) = w_sent w"
  "w_db (creds_delete k w) = w_db w" "w_objs (creds_delete k w) = w_objs w"
  "w_profiles (creds_delete k w) = w_profiles w" "w_sent (creds_delete k w) = w_sent w"
  "w_profiles (profile_delete k w) = Delete k (w_profiles w)" "w_creds (creds_delete k w) = Delete k (w_creds w)"
  by (simp_all add: profile_delete_def creds_delete_def)

lemma publish_fields [simp]:
  "w_db (publishAccountEvent sv ev w) = w_db w" "w_objs (publishAccountEvent sv ev w) = w_objs w"
  "w_profiles (publishAccountEvent sv ev w) = w_profiles w" "w_creds (publishAccountEvent sv ev w) = w_creds w"
  by (simp_all add: publishAccountEvent_def split: sum.split option.split)

text \<open>The events a call of \<open>publishAccountEvent\<close> hands over.\<close>

definition published :: "('d, 'o) service \<Rightarrow> error + event_input \<Rightarrow> event_input list" where
  "published sv ev = (case ev of Inl _ \<Rightarrow> [] | Inr e \<Rightarrow> if sv_eventPublisher sv = None then [] else [e])"

lemma publish_sent [simp]: "w_sent (publishAccountEvent sv ev w) = w_sent w @ published sv ev"
  by (cases ev; cases "sv_eventPublisher sv") (simp_all add: publishAccountEvent_def published_def)

lemma call_db_eq: "call_db f w = (x, w') \<longleftrightarrow> (\<exists>d. f (w_db w) = (x, d) \<and> w' = w\<lparr>w_db := d\<rparr>)"
  by (auto simp: call_db_def split: prod.splits)

lemma call_s3_eq: "call_s3 f w = (x, w') \<longleftrightarrow> (\<exists>b. f (w_objs w) = (x, b) \<and> w' = w\<lparr>w_objs := b\<rparr>)"
  by (auto simp: call_s3_def split: prod.splits)

section \<open>Coherence of the caches\<close>

text \<open>Every cached profile is the stored one; every cached answer to a sign-in lookup is the answer the
  store would give.\<close>

definition profiles_ok :: "table \<Rightarrow> ('d, 'o) world \<Rightarrow> bool" where
  "profiles_ok tb w \<longleftrightarrow> (\<forall>i e. load (w_profiles w) i = Some e \<longrightarrow> account_at tb i = Some (e_value e))"

definition creds_at :: "table \<Rightarrow> string \<Rightarrow> credentials_response \<Rightarrow> bool" where
  "creds_at tb em c \<longleftrightarrow> (\<exists>i it p. owns tb i em \<and> tb (profile_key i) = Some it
     \<and> unmarshal_credentials it = Some p
     \<and> c = credentials_of i p (Option.bind (tb (settings_key i)) unmarshal_credentials))"

definition creds_ok :: "table \<Rightarrow> ('d, 'o) world \<Rightarrow> bool" where
  "creds_ok tb w \<longleftrightarrow> (\<forall>em e. load (w_creds w) em = Some e \<longrightarrow> creds_at tb em (e_value e))"

lemma profile_get_spec:
  assumes "profile_get sv k w = (x, w')"
  shows "w_db w' = w_db w" "w_objs w' = w_objs w" "w_creds w' = w_creds w" "w_sent w' = w_sent w"
    and "x = live (env_Now (sv_env sv) (w_ticks w)) (w_profiles w) k"
    and "load (w_profiles w') j \<in> {load (w_profiles w) j, None}"
  using assms load_Get [of "env_Now (sv_env sv) (w_ticks w)" k "w_profiles w" j]
  by (auto simp: Get_live [symmetric] profile_get_def now_def split: prod.splits)

lemma creds_get_spec:
  assumes "creds_get sv k w = (x, w')"
  shows "w_db w' = w_db w" "w_objs w' = w_objs w" "w_profiles w' = w_profiles w" "w_sent w' = w_sent w"
    and "x = live (env_Now (sv_env sv) (w_ticks w)) (w_creds w) k"
    and "load (w_creds w') j \<in> {load (w_creds w) j, None}"
  using assms load_Get [of "env_Now (sv_env sv) (w_ticks w)" k "w_creds w" j]
  by (auto simp: Get_live [symmetric] creds_get_def now_def split: prod.splits)

lemma live_load: "live t c k = Some v \<Longrightarrow> \<exists>e. load c k = Some e \<and> e_value e = v"
  by (auto simp: live_def split: option.splits if_splits)

lemma profiles_ok_mono:
  "profiles_ok tb w \<Longrightarrow> \<forall>j. load (w_profiles w') j \<in> {load (w_profiles w) j, None} \<Longrightarrow> profiles_ok tb w'"
  unfolding profiles_ok_def by (metis empty_iff insert_iff option.discI)

lemma creds_ok_mono:
  "creds_ok tb w \<Longrightarrow> \<forall>j. load (w_creds w') j \<in> {load (w_creds w) j, None} \<Longrightarrow> creds_ok tb w'"
  unfolding creds_ok_def by (metis empty_iff insert_iff option.discI)

lemma profiles_ok_set:
  assumes "profiles_ok tb w" "account_at tb k = Some v"
  shows "profiles_ok tb (profile_set sv k v w)"
  unfolding profiles_ok_def
proof (intro allI impI)
  fix i e assume l: "load (w_profiles (profile_set sv k v w)) i = Some e"
  obtain t t' rng rng' where p: "w_profiles (profile_set sv k v w)
      = Set_entry t t' rng rng' k v (sv_cacheTTL sv) (w_profiles w)"
    by (simp add: profile_set_def now_def)
  show "account_at tb i = Some (e_value e)"
  proof (cases "i = k")
    case True
    with l p load_Set_entry(1) [of t t' rng rng' k v "sv_cacheTTL sv" "w_profiles w" k] assms(2)
    show ?thesis by simp
  next
    case False
    from load_Set_entry(2) [OF False, of t t' rng rng' v "sv_cacheTTL sv" "w_profiles w"] l p assms(1)
    show ?thesis by (auto simp: profiles_ok_def)
  qed
qed

lemma creds_ok_set:
  assumes "creds_ok tb w" "creds_at tb k v"
  shows "creds_ok tb (creds_set sv k v w)"
  unfolding creds_ok_def
proof (intro allI impI)
  fix i e assume l: "load (w_creds (creds_set sv k v w)) i = Some e"
  obtain t t' rng rng' where p: "w_creds (creds_set sv k v w)
      = Set_entry t t' rng rng' k v (sv_cacheTTL sv) (w_creds w)"
    by (simp add: creds_set_def now_def)
  show "creds_at tb i (e_value e)"
  proof (cases "i = k")
    case True
    with l p load_Set_entry(1) [of t t' rng rng' k v "sv_cacheTTL sv" "w_creds w" k] assms(2)
    show ?thesis by simp
  next
    case False
    from load_Set_entry(2) [OF False, of t t' rng rng' v "sv_cacheTTL sv" "w_creds w"] l p assms(1)
    show ?thesis by (auto simp: creds_ok_def)
  qed
qed

end
