(* ===== verification/Account_Svc.thy ===== *)
theory Account_Svc
  imports Service
begin

text \<open>
  \<open>internal/api/account.go\<close>, the service half of \<open>credentials.go\<close>, and \<open>GetAvatarUploadURL\<close> of \<open>profile.go\<close>:
  profiles with their cache, registration, account closure and credentials.
\<close>

section \<open>Profiles\<close>

definition GetProfile :: "('d, 'o) service \<Rightarrow> string \<Rightarrow> ('d, 'o) world \<Rightarrow> (error + account) \<times> ('d, 'o) world" where
  "GetProfile sv accountID w = (case profile_get sv accountID w of
     (Some account, w1) \<Rightarrow> (Inr account, w1)
   | (None, w1) \<Rightarrow> (case call_db (rp_GetAccount (sv_repo sv) accountID) w1 of
       (Inl e, w2) \<Rightarrow> (Inl (if isNotFound e then ApiNotFound else e), w2)
     | (Inr account, w2) \<Rightarrow> (Inr account, profile_set sv accountID account w2)))"

text \<open>The service operation of \<open>POST /v1/me/profile\<close>. Two readings of the clock: the stored creation time
  and, afterwards, the time in the event.\<close>

definition CreateAccount_svc :: "('d, 'o) service \<Rightarrow> string \<Rightarrow> create_account_request \<Rightarrow> ('d, 'o) world
    \<Rightarrow> (error + account) \<times> ('d, 'o) world" where
  "CreateAccount_svc sv accountID req w =
     (if accountID = [] \<or> ca_Email req = [] \<or> ca_FirstName req = [] \<or> ca_LastName req = []
      then (Inl ApiInvalidInput, w)
      else case utc_now sv w of (t, w1) \<Rightarrow>
        (case call_db (rp_CreateAccount (sv_repo sv) t accountID req) w1 of
           (Inl e, w2) \<Rightarrow> (Inl (if e = DbEmailAlreadyExists then ApiEmailAlreadyExists
                               else if e = DbAlreadyExists then ApiAlreadyExists else e), w2)
         | (Inr acc, w2) \<Rightarrow> (case utc_now sv w2 of (t', w3) \<Rightarrow>
             (Inr acc, publishAccountEvent sv (NewAccountRegisteredEvent (sv_domainNew sv) (a_AccountId acc)
                \<lparr>ev_AccountID = a_AccountId acc, ev_Email = a_Email acc, ev_Username = a_Username acc,
                 ev_FirstName = a_FirstName acc, ev_LastName = a_LastName acc, ev_AuthMethods = [],
                 ev_CreatedAt = fmt_rfc3339 t'\<rparr>) w3))))"

definition updateProfileChangedFields :: "update_account_request \<Rightarrow> string list" where
  "updateProfileChangedFields req =
     (if ua_AvatarUrl req \<noteq> None then [''avatar_url''] else [])
     @ (if ua_FirstName req \<noteq> None then [''first_name''] else [])
     @ (if ua_LastName req \<noteq> None then [''last_name''] else [])
     @ (if ua_Phone req \<noteq> None then [''phone''] else [])"

text \<open>The phone number before the update: \<open>None\<close> stands for \<open>phoneDiffKnown = false\<close>.\<close>

definition prior_phone :: "('d, 'o) service \<Rightarrow> string \<Rightarrow> update_account_request \<Rightarrow> ('d, 'o) world
    \<Rightarrow> string option \<times> ('d, 'o) world" where
  "prior_phone sv accountID req w =
     (if ua_Phone req \<noteq> None
      then case GetProfile sv accountID w of
          (Inr before, w1) \<Rightarrow> (Some (deref [] (a_Phone before)), w1)
        | (Inl _, w1) \<Rightarrow> (None, w1)
      else (None, w))"

definition UpdateProfile :: "('d, 'o) service \<Rightarrow> string \<Rightarrow> update_account_request \<Rightarrow> ('d, 'o) world
    \<Rightarrow> (error + account) \<times> ('d, 'o) world" where
  "UpdateProfile sv accountID req w =
     (case prior_phone sv accountID req w of (oldPhone, w0) \<Rightarrow>
      (case utc_now sv w0 of (t, w1) \<Rightarrow>
       (case call_db (rp_UpdateAccount (sv_repo sv) t accountID req) w1 of
          (Inl e, w2) \<Rightarrow> (Inl (if isNotFound e then ApiNotFound else e), w2)
        | (Inr updated, w2) \<Rightarrow>
            (let w3 = profile_delete accountID w2;
                 changedFields = updateProfileChangedFields req;
                 w4 = (if length changedFields > 0
                       then case utc_now sv w3 of (t', w') \<Rightarrow>
                         publishAccountEvent sv (NewAccountProfileUpdatedEvent (sv_domainNew sv) accountID
                           \<lparr>eu_AccountID = accountID, eu_ChangedFields = changedFields,
                            eu_UpdatedAt = fmt_rfc3339 t'\<rparr>) w'
                       else w3);
                 w5 = (case (ua_Phone req, oldPhone) of
                         (Some p, Some old) \<Rightarrow>
                           if old \<noteq> p
                           then publishAccountEvent sv (NewAccountPhoneChangedEvent (sv_domainNew sv) accountID
                                  \<lparr>ep_AccountID = accountID, ep_OldPhone = old, ep_NewPhone = p\<rparr>) w4
                           else w4
                       | _ \<Rightarrow> w4)
             in (Inr updated, w5)))))"

section \<open>Closing an account\<close>

definition avatarKey :: "string \<Rightarrow> string" where
  "avatarKey accountID = ''avatars/'' @ accountID @ ''/avatar''"

definition deleteS3Exports :: "('d, 'o) service \<Rightarrow> string \<Rightarrow> ('d, 'o) world \<Rightarrow> error option \<times> ('d, 'o) world" where
  "deleteS3Exports sv accountID w = (case sv_s3 sv of
     None \<Rightarrow> (None, w)
   | Some s3 \<Rightarrow> (case call_s3 (s3_ListObjects s3 (sv_exportBucket sv) (''exports/'' @ accountID @ ''/'')) w of
       (Inl e, w1) \<Rightarrow> (Some e, w1)
     | (Inr ks, w1) \<Rightarrow>
         if length ks = 0 then (None, w1)
         else call_s3 (s3_DeleteObjects s3 (sv_exportBucket sv) ks) w1))"

definition deleteAvatarObject :: "('d, 'o) service \<Rightarrow> string \<Rightarrow> ('d, 'o) world \<Rightarrow> error option \<times> ('d, 'o) world" where
  "deleteAvatarObject sv accountID w = (case sv_s3 sv of
     None \<Rightarrow> (None, w)
   | Some s3 \<Rightarrow> call_s3 (s3_DeleteObject s3 (sv_avatarBucket sv) (avatarKey accountID)) w)"

definition DeleteProfile :: "('d, 'o) service \<Rightarrow> string \<Rightarrow> string \<Rightarrow> ('d, 'o) world
    \<Rightarrow> error option \<times> ('d, 'o) world" where
  "DeleteProfile sv accountID confirmEmail w =
     (let confirmation = trim_space confirmEmail in
      if confirmation = [] then (Some ApiInvalidInput, w)
      else case GetProfile sv accountID w of
        (Inl e, w1) \<Rightarrow> (Some e, w1)
      | (Inr profile, w1) \<Rightarrow>
          (let email = to_lower (trim_space (a_Email profile)) in
           if \<not> equal_fold confirmation email then (Some ApiInvalidInput, w1)
           else case deleteS3Exports sv accountID w1 of
             (Some e, w2) \<Rightarrow> (Some e, w2)
           | (None, w2) \<Rightarrow> (case deleteAvatarObject sv accountID w2 of
               (Some e, w3) \<Rightarrow> (Some e, w3)
             | (None, w3) \<Rightarrow> (case call_db (rp_DeleteAccount (sv_repo sv) accountID) w3 of
                 (Some e, w4) \<Rightarrow> (Some (if isNotFound e then ApiNotFound else e), w4)
               | (None, w4) \<Rightarrow>
                   (let w5 = profile_delete accountID w4;
                        w6 = (if email \<noteq> [] then creds_delete email w5 else w5)
                    in (None, publishAccountEvent sv (NewAccountDeletedEvent (sv_domainNew sv) accountID
                          \<lparr>ed_AccountID = accountID\<rparr>) w6))))))"

definition CheckAccountExists :: "('d, 'o) service \<Rightarrow> string \<Rightarrow> ('d, 'o) world
    \<Rightarrow> (error + account_exists_response) \<times> ('d, 'o) world" where
  "CheckAccountExists sv email w = call_db (rp_GetAccountExistsByEmail (sv_repo sv) email) w"

section \<open>Credentials\<close>

definition GetCredentials :: "('d, 'o) service \<Rightarrow> string \<Rightarrow> ('d, 'o) world
    \<Rightarrow> (error + credentials_response) \<times> ('d, 'o) world" where
  "GetCredentials sv email w =
     (let cacheKey = to_lower email in
      case creds_get sv cacheKey w of
        (Some creds, w1) \<Rightarrow> (Inr creds, w1)
      | (None, w1) \<Rightarrow> (case call_db (rp_GetAccountCredentialsByEmail (sv_repo sv) email) w1 of
          (Inl e, w2) \<Rightarrow> (Inl (if isNotFound e then ApiNotFound else e), w2)
        | (Inr creds, w2) \<Rightarrow> (Inr creds, creds_set sv cacheKey creds w2)))"

definition UpdateCredentials :: "('d, 'o) service \<Rightarrow> string \<Rightarrow> update_credentials_request \<Rightarrow> ('d, 'o) world
    \<Rightarrow> error option \<times> ('d, 'o) world" where
  "UpdateCredentials sv accountID req w =
     (if accountID = [] then (Some ApiInvalidInput, w)
      else if uc_PasswordHash req = None \<and> uc_AuthMethods req = None then (Some ApiInvalidInput, w)
      else case utc_now sv w of (t, w1) \<Rightarrow>
        (case call_db (rp_UpdateAccountCredentials (sv_repo sv) t accountID req) w1 of
           (Some e, w2) \<Rightarrow> (Some (if isNotFound e then ApiNotFound else e), w2)
         | (None, w2) \<Rightarrow> (case call_db (rp_GetAccount (sv_repo sv) accountID) w2 of
             (Inl _, w3) \<Rightarrow> (None, w3)
           | (Inr account, w3) \<Rightarrow> (None, creds_delete (to_lower (a_Email account)) w3))))"

section \<open>The avatar upload\<close>

definition maxAvatarBytes :: go_int where
  "maxAvatarBytes = 2 * 1024 * 1024"

definition validAvatarContentTypes :: "string \<Rightarrow> bool" where
  "validAvatarContentTypes t \<longleftrightarrow> t \<in> {''image/jpeg'', ''image/png'', ''image/webp''}"

definition GetAvatarUploadURL :: "('d, 'o) service \<Rightarrow> string \<Rightarrow> string \<Rightarrow> go_int \<Rightarrow> ('d, 'o) world
    \<Rightarrow> (error + string) \<times> ('d, 'o) world" where
  "GetAvatarUploadURL sv accountID contentType contentLength w = (case sv_s3 sv of
     None \<Rightarrow> (Inl (GoError ''avatar upload not configured''), w)
   | Some s3 \<Rightarrow>
       if \<not> validAvatarContentTypes contentType then (Inl ApiInvalidInput, w)
       else if contentLength \<le>s 0 \<or> maxAvatarBytes <s contentLength then (Inl ApiInvalidInput, w)
       else call_s3 (s3_PresignPut s3 (sv_avatarBucket sv) (avatarKey accountID) (sv_presignTTL sv)
              contentType contentLength) w)"

section \<open>What the service relies on\<close>

text \<open>The contract of the account operations of the repository, over the table \<open>tbl s\<close> that a state of the
  store stands for.\<close>

locale account_repository =
  fixes R :: "'d repository" and tbl :: "'d \<Rightarrow> table"
  assumes get_account: "rp_GetAccount R i s = (x, s') \<Longrightarrow> tbl s' = tbl s \<and> (case x of
        Inr a \<Rightarrow> account_at (tbl s) i = Some a
      | Inl e \<Rightarrow> e = DbNotFound \<and> tbl s (profile_key i) = None \<or> transport e \<or> e = unmarshal_error)"
    and create_account: "rp_CreateAccount R t i req s = (x, s') \<Longrightarrow>
      free i (ca_Email req) (tbl s) \<and> tbl s' = created t i req (tbl s)
        \<and> (case x of Inr a \<Rightarrow> a = account_toModel (profile_record t i req) | Inl e \<Rightarrow> transport e)
      \<or> tbl s' = tbl s \<and> (\<exists>e. x = Inl e \<and> (transport e
          \<or> e = DbEmailAlreadyExists \<and> tbl s (reservation_key (ca_Email req)) \<noteq> None
          \<or> e = DbAlreadyExists \<and> (tbl s (profile_key i) \<noteq> None \<or> tbl s (settings_key i) \<noteq> None)))"
    and update_account: "rp_UpdateAccount R t i u s = (x, s') \<Longrightarrow>
      (\<exists>it. tbl s (profile_key i) = Some it
        \<and> tbl s' = (tbl s)(profile_key i \<mapsto> assign (account_clauses t u) it)
        \<and> (case x of Inr a \<Rightarrow> account_at (tbl s') i = Some a | Inl e \<Rightarrow> transport e \<or> e = unmarshal_error))
      \<or> tbl s' = tbl s \<and> (\<exists>e. x = Inl e \<and> (transport e \<or> e = DbNotFound \<and> tbl s (profile_key i) = None))"
    and delete_account: "rp_DeleteAccount R i s = (r, s') \<Longrightarrow> registry_ok (tbl s) \<Longrightarrow>
      (\<exists>em. owns (tbl s) i em \<and> em \<noteq> [] \<and> tbl s' = erased i em (tbl s) \<and> (\<forall>y. r = Some y \<longrightarrow> transport y))
      \<or> (\<exists>y D. r = Some y \<and> finite D \<and> D \<subseteq> part i - {profile_key i} \<and> tbl s' = erase D (tbl s)
        \<and> (transport y \<or> D = {} \<and> (y = DbNotFound \<and> tbl s (profile_key i) = None
              \<or> y = DbUnreadableProfileEmail \<and> owns (tbl s) i [])))"
    and get_credentials: "rp_GetAccountCredentialsByEmail R email s = (c, s') \<Longrightarrow> registry_ok (tbl s) \<Longrightarrow>
      tbl s' = tbl s \<and> (case c of
        Inr c \<Rightarrow> creds_at (tbl s) (to_lower email) c
      | Inl e \<Rightarrow> e = DbNotFound \<and> (\<forall>i. \<not> owns (tbl s) i (to_lower email)) \<or> transport e \<or> e = unmarshal_error)"
    and update_credentials: "rp_UpdateAccountCredentials R t i uc s = (r, s') \<Longrightarrow>
      (\<exists>it. tbl s (profile_key i) = Some it
        \<and> tbl s' = (tbl s)(profile_key i \<mapsto> assign (credentials_clauses t uc) it)
        \<and> (case r of None \<Rightarrow> True | Some y \<Rightarrow> transport y))
      \<or> tbl s' = tbl s \<and> (\<exists>y. r = Some y \<and> (transport y \<or> y = DbNotFound \<and> tbl s (profile_key i) = None))"
    and account_exists: "rp_GetAccountExistsByEmail R email s = (b, s') \<Longrightarrow> registry_ok (tbl s) \<Longrightarrow>
      tbl s' = tbl s \<and> (case b of
        Inr b \<Rightarrow> Exists b \<longleftrightarrow> (\<exists>i. owns (tbl s) i (to_lower email))
      | Inl e \<Rightarrow> transport e)"

lemma repository_account_sel [simp]:
  "rp_GetAccount (db_repository r) = GetAccount r" "rp_CreateAccount (db_repository r) = CreateAccount r"
  "rp_UpdateAccount (db_repository r) = UpdateAccount r" "rp_DeleteAccount (db_repository r) = DeleteAccount r"
  "rp_GetAccountCredentialsByEmail (db_repository r) = GetAccountCredentialsByEmail r"
  "rp_UpdateAccountCredentials (db_repository r) = UpdateAccountCredentials r"
  "rp_GetAccountExistsByEmail (db_repository r) = GetAccountExistsByEmail r"
  by (simp_all add: db_repository_def)

lemma creds_at_iff: "creds_at tb em c \<longleftrightarrow> (\<exists>i it p. owns tb i em \<and> tb (profile_key i) = Some it
     \<and> unmarshal_credentials it = Some p
     \<and> c = credentials_of i p (Option.bind (tb (settings_key i)) unmarshal_credentials))"
  by (simp add: creds_at_def)

text \<open>The package \<open>internal/db\<close> keeps the contract.\<close>

sublocale dynamo \<subseteq> accounts: account_repository "db_repository r" tbl
  by unfold_locales (unfold repository_account_sel creds_at_iff,
    (rule GetAccount_spec CreateAccount_spec UpdateAccount_spec UpdateAccountCredentials_spec DeleteAccount_spec
      credentials_spec GetAccountExistsByEmail_spec, assumption+)+)

interpretation mem_accounts: account_repository "db_repository mem_repo" mem_tbl
  by (rule mem.accounts.account_repository_axioms)


section \<open>Lemmas of the service\<close>

lemma profiles_ok_db [simp]: "profiles_ok tb (w\<lparr>w_db := d\<rparr>) = profiles_ok tb w"
  "creds_ok tb (w\<lparr>w_db := d\<rparr>) = creds_ok tb w"
  by (simp_all add: profiles_ok_def creds_ok_def)

lemma profiles_ok_cong: "w_profiles w' = w_profiles w \<Longrightarrow> profiles_ok tb w' = profiles_ok tb w"
  by (simp add: profiles_ok_def)

lemma creds_ok_cong: "w_creds w' = w_creds w \<Longrightarrow> creds_ok tb w' = creds_ok tb w"
  by (simp add: creds_ok_def)

text \<open>Everything but the clock is as before.\<close>

definition same_world :: "('d, 'o) world \<Rightarrow> ('d, 'o) world \<Rightarrow> bool" where
  "same_world w w' \<longleftrightarrow> w_db w' = w_db w \<and> w_objs w' = w_objs w \<and> w_profiles w' = w_profiles w
     \<and> w_creds w' = w_creds w \<and> w_sent w' = w_sent w"

lemma same_world_clock: "now sv w = (t, w') \<Longrightarrow> same_world w w'" "utc_now sv w = (u, w') \<Longrightarrow> same_world w w'"
  using clock_fields by (simp_all add: same_world_def) blast+

text \<open>The events of a successful profile update.\<close>

definition profile_events :: "('d, 'o) service \<Rightarrow> string \<Rightarrow> update_account_request \<Rightarrow> gtime \<Rightarrow> string option
    \<Rightarrow> event_input list" where
  "profile_events sv i u t old =
     (if updateProfileChangedFields u = [] then []
      else published sv (NewAccountProfileUpdatedEvent (sv_domainNew sv) i
             \<lparr>eu_AccountID = i, eu_ChangedFields = updateProfileChangedFields u, eu_UpdatedAt = fmt_rfc3339 t\<rparr>))
     @ (case (ua_Phone u, old) of
          (Some p, Some q) \<Rightarrow> if q \<noteq> p
            then published sv (NewAccountPhoneChangedEvent (sv_domainNew sv) i
                   \<lparr>ep_AccountID = i, ep_OldPhone = q, ep_NewPhone = p\<rparr>)
            else []
        | _ \<Rightarrow> [])"

context account_repository
begin

lemma GetProfile_spec:
  assumes run: "GetProfile sv i w = (x, w')" and sv: "sv_repo sv = R" and ok: "profiles_ok (tbl (w_db w)) w"
  shows "tbl (w_db w') = tbl (w_db w)" "w_objs w' = w_objs w" "w_creds w' = w_creds w" "w_sent w' = w_sent w"
    and "profiles_ok (tbl (w_db w)) w'"
    and "case x of Inr a \<Rightarrow> account_at (tbl (w_db w)) i = Some a
      | Inl e \<Rightarrow> e = ApiNotFound \<and> tbl (w_db w) (profile_key i) = None \<or> transport e \<or> e = unmarshal_error"
proof -
  obtain y w1 where g: "profile_get sv i w = (y, w1)" by fastforce
  note gs = profile_get_spec [OF g]
  have ok1: "profiles_ok (tbl (w_db w)) w1"
    by (rule profiles_ok_mono [OF ok]) (simp add: profile_get_spec(6) [OF g, simplified])
  have "tbl (w_db w') = tbl (w_db w) \<and> w_objs w' = w_objs w \<and> w_creds w' = w_creds w \<and> w_sent w' = w_sent w
    \<and> profiles_ok (tbl (w_db w)) w' \<and> (case x of Inr a \<Rightarrow> account_at (tbl (w_db w)) i = Some a
      | Inl e \<Rightarrow> e = ApiNotFound \<and> tbl (w_db w) (profile_key i) = None \<or> transport e \<or> e = unmarshal_error)"
  proof (cases y)
    case (Some a)
    then have "account_at (tbl (w_db w)) i = Some a"
      using gs(5) live_load ok unfolding profiles_ok_def by metis
    with Some run g gs ok1 show ?thesis by (auto simp: GetProfile_def)
  next
    case None
    obtain z d where q: "rp_GetAccount R i (w_db w1) = (z, d)" by fastforce
    from get_account [OF q, unfolded gs(1)] have law: "tbl d = tbl (w_db w)" "case z of
        Inr a \<Rightarrow> account_at (tbl (w_db w)) i = Some a
      | Inl e \<Rightarrow> e = DbNotFound \<and> tbl (w_db w) (profile_key i) = None \<or> transport e \<or> e = unmarshal_error"
      by simp_all
    show ?thesis
    proof (cases z)
      case (Inl e)
      with None run g q law gs ok1 show ?thesis by (auto simp: GetProfile_def call_db_def sv isNotFound_def)
    next
      case (Inr a)
      with None run g q have "x = Inr a" "w' = profile_set sv i a (w1\<lparr>w_db := d\<rparr>)"
        by (simp_all add: GetProfile_def call_db_def sv)
      with Inr law gs profiles_ok_set [of "tbl (w_db w)" "w1\<lparr>w_db := d\<rparr>" i a sv] ok1 show ?thesis by simp
    qed
  qed
  then show "tbl (w_db w') = tbl (w_db w)" "w_objs w' = w_objs w" "w_creds w' = w_creds w" "w_sent w' = w_sent w"
    "profiles_ok (tbl (w_db w)) w'" "case x of Inr a \<Rightarrow> account_at (tbl (w_db w)) i = Some a
      | Inl e \<Rightarrow> e = ApiNotFound \<and> tbl (w_db w) (profile_key i) = None \<or> transport e \<or> e = unmarshal_error"
    by simp_all
qed

lemma GetCredentials_spec:
  assumes run: "GetCredentials sv em w = (x, w')" and sv: "sv_repo sv = R" and reg: "registry_ok (tbl (w_db w))"
  shows "tbl (w_db w') = tbl (w_db w)" "w_objs w' = w_objs w" "w_profiles w' = w_profiles w" "w_sent w' = w_sent w"
    and "creds_ok (tbl (w_db w)) w \<Longrightarrow> creds_ok (tbl (w_db w)) w'"
    and "case x of Inr c \<Rightarrow> creds_at (tbl (w_db w)) (to_lower em) c
          \<or> (\<exists>e. load (w_creds w) (to_lower em) = Some e \<and> e_value e = c)
      | Inl e \<Rightarrow> e = ApiNotFound \<and> (\<forall>i. \<not> owns (tbl (w_db w)) i (to_lower em)) \<or> transport e \<or> e = unmarshal_error"
proof -
  obtain y w1 where g: "creds_get sv (to_lower em) w = (y, w1)" by fastforce
  note gs = creds_get_spec [OF g]
  have ok1: "creds_ok (tbl (w_db w)) w \<Longrightarrow> creds_ok (tbl (w_db w)) w1"
    by (erule creds_ok_mono) (simp add: creds_get_spec(6) [OF g, simplified])
  have "tbl (w_db w') = tbl (w_db w) \<and> w_objs w' = w_objs w \<and> w_profiles w' = w_profiles w \<and> w_sent w' = w_sent w
    \<and> (creds_ok (tbl (w_db w)) w \<longrightarrow> creds_ok (tbl (w_db w)) w')
    \<and> (case x of Inr c \<Rightarrow> creds_at (tbl (w_db w)) (to_lower em) c
          \<or> (\<exists>e. load (w_creds w) (to_lower em) = Some e \<and> e_value e = c)
      | Inl e \<Rightarrow> e = ApiNotFound \<and> (\<forall>i. \<not> owns (tbl (w_db w)) i (to_lower em)) \<or> transport e \<or> e = unmarshal_error)"
  proof (cases y)
    case (Some c)
    with gs(5) live_load have "\<exists>e. load (w_creds w) (to_lower em) = Some e \<and> e_value e = c" by metis
    with Some run g gs ok1 show ?thesis by (auto simp: GetCredentials_def)
  next
    case None
    obtain z d where q: "rp_GetAccountCredentialsByEmail R em (w_db w1) = (z, d)" by fastforce
    from get_credentials [OF q, unfolded gs(1), OF reg] have law: "tbl d = tbl (w_db w)" "case z of
        Inr c \<Rightarrow> creds_at (tbl (w_db w)) (to_lower em) c
      | Inl e \<Rightarrow> e = DbNotFound \<and> (\<forall>i. \<not> owns (tbl (w_db w)) i (to_lower em)) \<or> transport e \<or> e = unmarshal_error"
      by simp_all
    show ?thesis
    proof (cases z)
      case (Inl e)
      with None run g q law gs ok1 show ?thesis by (auto simp: GetCredentials_def call_db_def sv isNotFound_def)
    next
      case (Inr c)
      with None run g q have "x = Inr c" "w' = creds_set sv (to_lower em) c (w1\<lparr>w_db := d\<rparr>)"
        by (simp_all add: GetCredentials_def call_db_def sv)
      with Inr law gs creds_ok_set [of "tbl (w_db w)" "w1\<lparr>w_db := d\<rparr>" "to_lower em" c sv] ok1
      show ?thesis by simp
    qed
  qed
  then show "tbl (w_db w') = tbl (w_db w)" "w_objs w' = w_objs w" "w_profiles w' = w_profiles w" "w_sent w' = w_sent w"
    "creds_ok (tbl (w_db w)) w \<Longrightarrow> creds_ok (tbl (w_db w)) w'"
    "case x of Inr c \<Rightarrow> creds_at (tbl (w_db w)) (to_lower em) c
          \<or> (\<exists>e. load (w_creds w) (to_lower em) = Some e \<and> e_value e = c)
      | Inl e \<Rightarrow> e = ApiNotFound \<and> (\<forall>i. \<not> owns (tbl (w_db w)) i (to_lower em)) \<or> transport e \<or> e = unmarshal_error"
    by simp_all
qed


lemma prior_phone_spec:
  assumes run: "prior_phone sv i u w = (x, w')" and sv: "sv_repo sv = R" and ok: "profiles_ok (tbl (w_db w)) w"
  shows "tbl (w_db w') = tbl (w_db w)" "w_objs w' = w_objs w" "w_creds w' = w_creds w" "w_sent w' = w_sent w"
    and "profiles_ok (tbl (w_db w)) w'"
    and "x \<noteq> None \<Longrightarrow> ua_Phone u \<noteq> None \<and> (\<exists>b. account_at (tbl (w_db w)) i = Some b \<and> x = Some (deref [] (a_Phone b)))"
proof -
  obtain y w1 where g: "GetProfile sv i w = (y, w1)" by fastforce
  note gs = GetProfile_spec [OF g sv ok]
  show "tbl (w_db w') = tbl (w_db w)" "w_objs w' = w_objs w" "w_creds w' = w_creds w" "w_sent w' = w_sent w"
    "profiles_ok (tbl (w_db w)) w'"
    "x \<noteq> None \<Longrightarrow> ua_Phone u \<noteq> None \<and> (\<exists>b. account_at (tbl (w_db w)) i = Some b \<and> x = Some (deref [] (a_Phone b)))"
    using run g gs ok by (auto simp: prior_phone_def split: if_splits sum.splits)
qed

lemma UpdateProfile_spec:
  assumes run: "UpdateProfile sv i u w = (x, w')" and sv: "sv_repo sv = R" and ok: "profiles_ok (tbl (w_db w)) w"
  shows "w_creds w' = w_creds w \<and> w_objs w' = w_objs w \<and> (case x of
      Inr a \<Rightarrow> (\<exists>it t t' old. tbl (w_db w) (profile_key i) = Some it \<and> t \<in> range (env_UTC (sv_env sv))
        \<and> tbl (w_db w') = (tbl (w_db w))(profile_key i \<mapsto> assign (account_clauses t u) it)
        \<and> account_at (tbl (w_db w')) i = Some a
        \<and> profiles_ok (tbl (w_db w')) w' \<and> load (w_profiles w') i = None
        \<and> w_sent w' = w_sent w @ profile_events sv i u t' old
        \<and> (old \<noteq> None \<longrightarrow> (\<exists>b. account_at (tbl (w_db w)) i = Some b \<and> old = Some (deref [] (a_Phone b)))))
    | Inl e \<Rightarrow> w_sent w' = w_sent w \<and> profiles_ok (tbl (w_db w)) w'
        \<and> (tbl (w_db w') = tbl (w_db w)
             \<and> (transport e \<or> e = ApiNotFound \<and> tbl (w_db w) (profile_key i) = None)
           \<or> (transport e \<or> e = unmarshal_error) \<and> (\<exists>it. \<exists>t \<in> range (env_UTC (sv_env sv)).
             tbl (w_db w) (profile_key i) = Some it
             \<and> tbl (w_db w') = (tbl (w_db w))(profile_key i \<mapsto> assign (account_clauses t u) it))))"
proof -
  obtain old w0 where p: "prior_phone sv i u w = (old, w0)" by fastforce
  note ps = prior_phone_spec [OF p sv ok]
  obtain t w1 where c: "utc_now sv w0 = (t, w1)" by fastforce
  have t: "t \<in> range (env_UTC (sv_env sv))" using c by (auto simp: utc_now_def now_def)
  have c1: "w_db w1 = w_db w0" "w_objs w1 = w_objs w0" "w_profiles w1 = w_profiles w0" "w_creds w1 = w_creds w0"
    "w_sent w1 = w_sent w0" using clock_fields(2) [OF c] by simp_all
  obtain z d where q: "rp_UpdateAccount R t i u (w_db w1) = (z, d)" by fastforce
  from update_account [OF q] ps(1) c1 have law: "(\<exists>it. tbl (w_db w) (profile_key i) = Some it
        \<and> tbl d = (tbl (w_db w))(profile_key i \<mapsto> assign (account_clauses t u) it)
        \<and> (case z of Inr a \<Rightarrow> account_at (tbl d) i = Some a | Inl e \<Rightarrow> transport e \<or> e = unmarshal_error))
      \<or> tbl d = tbl (w_db w) \<and> (\<exists>e. z = Inl e \<and> (transport e \<or> e = DbNotFound \<and> tbl (w_db w) (profile_key i) = None))"
    by simp
  have ok1: "profiles_ok (tbl (w_db w)) w1" using ps(5) c1 profiles_ok_cong by blast
  show ?thesis
  proof (cases z)
    case (Inl e)
    with run p c q have x: "x = Inl (if isNotFound e then ApiNotFound else e)" and w': "w' = w1\<lparr>w_db := d\<rparr>"
      by (simp_all add: UpdateProfile_def call_db_def sv)
    show ?thesis using Inl law t ok1 ps c1 unfolding x w' by (auto simp: isNotFound_def)
  next
    case (Inr a)
    with law obtain it where it: "tbl (w_db w) (profile_key i) = Some it"
      "tbl d = (tbl (w_db w))(profile_key i \<mapsto> assign (account_clauses t u) it)" "account_at (tbl d) i = Some a"
      by auto
    obtain t' w'' where c': "utc_now sv (profile_delete i (w1\<lparr>w_db := d\<rparr>)) = (t', w'')" by fastforce
    note cf = clock_fields(2) [OF c']
    from Inr run p c q c' have x: "x = Inr a" and w': "w_db w' = d \<and> w_objs w' = w_objs w1 \<and> w_creds w' = w_creds w1
        \<and> w_profiles w' = Delete i (w_profiles w1) \<and> w_sent w' = w_sent w1 @ profile_events sv i u t' old"
      using cf by (auto simp: UpdateProfile_def call_db_def sv Let_def profile_events_def split: option.splits if_splits)
    have "profiles_ok (tbl d) w'"
      using ok1 w' it(2) by (auto simp: profiles_ok_def account_at_def split: if_splits)
    then show ?thesis using it x w' ps c1 t by auto
  qed
qed


lemma UpdateCredentials_spec:
  assumes run: "UpdateCredentials sv i u w = (e, w')" and sv: "sv_repo sv = R"
  shows "w_objs w' = w_objs w \<and> w_profiles w' = w_profiles w \<and> w_sent w' = w_sent w \<and> (case e of
      None \<Rightarrow> i \<noteq> [] \<and> (uc_PasswordHash u \<noteq> None \<or> uc_AuthMethods u \<noteq> None)
        \<and> (\<exists>it. \<exists>t \<in> range (env_UTC (sv_env sv)). tbl (w_db w) (profile_key i) = Some it
        \<and> tbl (w_db w') = (tbl (w_db w))(profile_key i \<mapsto> assign (credentials_clauses t u) it)
        \<and> ((\<exists>b. account_at (tbl (w_db w')) i = Some b \<and> w_creds w' = Delete (to_lower (a_Email b)) (w_creds w))
           \<or> w_creds w' = w_creds w \<and> (\<exists>d. tbl d = tbl (w_db w') \<and> isl (fst (rp_GetAccount R i d)))))
    | Some y \<Rightarrow> w_creds w' = w_creds w
        \<and> (tbl (w_db w') = tbl (w_db w) \<and> (transport y \<or> y = ApiNotFound \<and> tbl (w_db w) (profile_key i) = None
              \<or> y = ApiInvalidInput \<and> (i = [] \<or> uc_PasswordHash u = None \<and> uc_AuthMethods u = None))
           \<or> transport y \<and> (\<exists>it. \<exists>t \<in> range (env_UTC (sv_env sv)). tbl (w_db w) (profile_key i) = Some it
             \<and> tbl (w_db w') = (tbl (w_db w))(profile_key i \<mapsto> assign (credentials_clauses t u) it))))"
proof (cases "i = [] \<or> uc_PasswordHash u = None \<and> uc_AuthMethods u = None")
  case True
  with run have "e = Some ApiInvalidInput" "w' = w" by (auto simp: UpdateCredentials_def split: if_splits)
  with True show ?thesis by simp
next
  case False
  obtain t w1 where c: "utc_now sv w = (t, w1)" by fastforce
  have t: "t \<in> range (env_UTC (sv_env sv))" using c by (auto simp: utc_now_def now_def)
  note c1 = clock_fields(2) [OF c]
  obtain z d where q: "rp_UpdateAccountCredentials R t i u (w_db w1) = (z, d)" by fastforce
  obtain y d' where g: "rp_GetAccount R i d = (y, d')" by fastforce
  from update_credentials [OF q] c1 have law: "(\<exists>it. tbl (w_db w) (profile_key i) = Some it
        \<and> tbl d = (tbl (w_db w))(profile_key i \<mapsto> assign (credentials_clauses t u) it)
        \<and> (case z of None \<Rightarrow> True | Some y \<Rightarrow> transport y))
      \<or> tbl d = tbl (w_db w) \<and> (\<exists>y. z = Some y \<and> (transport y \<or> y = DbNotFound \<and> tbl (w_db w) (profile_key i) = None))"
    by simp
  show ?thesis
  proof (cases z)
    case (Some f)
    with run c q False have "e = Some (if isNotFound f then ApiNotFound else f)" "w' = w1\<lparr>w_db := d\<rparr>"
      by (auto simp: UpdateCredentials_def call_db_def sv)
    with Some law t c1 show ?thesis by (auto simp: isNotFound_def)
  next
    case None
    with law t have upd: "\<exists>it. \<exists>t \<in> range (env_UTC (sv_env sv)). tbl (w_db w) (profile_key i) = Some it
        \<and> tbl d = (tbl (w_db w))(profile_key i \<mapsto> assign (credentials_clauses t u) it)" by auto
    from get_account [OF g] have gl: "tbl d' = tbl d" "\<And>b. y = Inr b \<Longrightarrow> account_at (tbl d) i = Some b" by auto
    from g have isl: "isl y \<Longrightarrow> isl (fst (rp_GetAccount R i d))" by simp
    have none: "e = None" and db: "w_db w' = d'" and same: "w_objs w' = w_objs w" "w_profiles w' = w_profiles w"
        "w_sent w' = w_sent w"
      and cr: "w_creds w' = (case y of Inl _ \<Rightarrow> w_creds w | Inr b \<Rightarrow> Delete (to_lower (a_Email b)) (w_creds w))"
      using run c q g None False c1 by (auto simp: UpdateCredentials_def call_db_def sv split: sum.splits)
    have "(\<exists>b. account_at (tbl d) i = Some b \<and> w_creds w' = Delete (to_lower (a_Email b)) (w_creds w))
       \<or> w_creds w' = w_creds w \<and> (\<exists>d0. tbl d0 = tbl d \<and> isl (fst (rp_GetAccount R i d0)))"
      using cr gl(2) isl by (cases y) auto
    with none db same upd False gl(1) show ?thesis by auto
  qed
qed

lemma CreateAccount_svc_spec:
  assumes run: "CreateAccount_svc sv i req w = (x, w')" and sv: "sv_repo sv = R"
  shows "w_objs w' = w_objs w \<and> w_profiles w' = w_profiles w \<and> w_creds w' = w_creds w \<and> (case x of
      Inr a \<Rightarrow> i \<noteq> [] \<and> ca_Email req \<noteq> [] \<and> ca_FirstName req \<noteq> [] \<and> ca_LastName req \<noteq> []
        \<and> free i (ca_Email req) (tbl (w_db w))
        \<and> (\<exists>t \<in> range (env_UTC (sv_env sv)). \<exists>t'. tbl (w_db w') = created t i req (tbl (w_db w))
            \<and> a = account_toModel (profile_record t i req)
            \<and> w_sent w' = w_sent w @ published sv (NewAccountRegisteredEvent (sv_domainNew sv) (a_AccountId a)
                \<lparr>ev_AccountID = a_AccountId a, ev_Email = a_Email a, ev_Username = a_Username a,
                 ev_FirstName = a_FirstName a, ev_LastName = a_LastName a, ev_AuthMethods = [],
                 ev_CreatedAt = fmt_rfc3339 t'\<rparr>))
    | Inl e \<Rightarrow> w_sent w' = w_sent w
        \<and> (tbl (w_db w') = tbl (w_db w)
             \<and> (transport e
               \<or> e = ApiInvalidInput \<and> [] \<in> {i, ca_Email req, ca_FirstName req, ca_LastName req}
               \<or> e = ApiEmailAlreadyExists \<and> tbl (w_db w) (reservation_key (ca_Email req)) \<noteq> None
               \<or> e = ApiAlreadyExists \<and> (tbl (w_db w) (profile_key i) \<noteq> None \<or> tbl (w_db w) (settings_key i) \<noteq> None))
           \<or> transport e \<and> free i (ca_Email req) (tbl (w_db w))
             \<and> (\<exists>t \<in> range (env_UTC (sv_env sv)). tbl (w_db w') = created t i req (tbl (w_db w)))))"
proof (cases "i = [] \<or> ca_Email req = [] \<or> ca_FirstName req = [] \<or> ca_LastName req = []")
  case True
  with run have "x = Inl ApiInvalidInput" "w' = w" by (auto simp: CreateAccount_svc_def split: if_splits)
  with True show ?thesis by auto
next
  case False
  obtain t w1 where c: "utc_now sv w = (t, w1)" by fastforce
  have t: "t \<in> range (env_UTC (sv_env sv))" using c by (auto simp: utc_now_def now_def)
  note c1 = clock_fields(2) [OF c]
  obtain z d where q: "rp_CreateAccount R t i req (w_db w1) = (z, d)" by fastforce
  from create_account [OF q] c1 have law: "free i (ca_Email req) (tbl (w_db w)) \<and> tbl d = created t i req (tbl (w_db w))
        \<and> (case z of Inr a \<Rightarrow> a = account_toModel (profile_record t i req) | Inl e \<Rightarrow> transport e)
      \<or> tbl d = tbl (w_db w) \<and> (\<exists>e. z = Inl e \<and> (transport e
          \<or> e = DbEmailAlreadyExists \<and> tbl (w_db w) (reservation_key (ca_Email req)) \<noteq> None
          \<or> e = DbAlreadyExists \<and> (tbl (w_db w) (profile_key i) \<noteq> None \<or> tbl (w_db w) (settings_key i) \<noteq> None)))"
    by simp
  show ?thesis
  proof (cases z)
    case (Inl f)
    with run c q False have x: "x = Inl (if f = DbEmailAlreadyExists then ApiEmailAlreadyExists
        else if f = DbAlreadyExists then ApiAlreadyExists else f)" and w': "w' = w1\<lparr>w_db := d\<rparr>"
      by (auto simp: CreateAccount_svc_def call_db_def sv)
    from Inl law t c1 False show ?thesis unfolding x w' by auto
  next
    case (Inr a)
    obtain t' w3 where c': "utc_now sv (w1\<lparr>w_db := d\<rparr>) = (t', w3)" by fastforce
    note cf = clock_fields(2) [OF c']
    from Inr run c q c' False have "x = Inr a" "w' = publishAccountEvent sv
        (NewAccountRegisteredEvent (sv_domainNew sv) (a_AccountId a)
                \<lparr>ev_AccountID = a_AccountId a, ev_Email = a_Email a, ev_Username = a_Username a,
                 ev_FirstName = a_FirstName a, ev_LastName = a_LastName a, ev_AuthMethods = [],
                 ev_CreatedAt = fmt_rfc3339 t'\<rparr>) w3"
      by (auto simp: CreateAccount_svc_def call_db_def sv)
    with Inr law t cf c1 False show ?thesis by auto
  qed
qed

end

text \<open>The request confirms the closure: it repeats the address of the stored profile, up to letter case and
  surrounding space.\<close>

definition confirmed :: "table \<Rightarrow> string \<Rightarrow> string \<Rightarrow> bool" where
  "confirmed tb i c \<longleftrightarrow> trim_space c \<noteq> [] \<and> (\<exists>b. account_at tb i = Some b
     \<and> to_lower (trim_space c) = to_lower (trim_space (a_Email b)))"

lemma s3_fields:
  "deleteS3Exports sv i w = (e, w') \<Longrightarrow> w_db w' = w_db w \<and> w_profiles w' = w_profiles w
     \<and> w_creds w' = w_creds w \<and> w_sent w' = w_sent w"
  "deleteAvatarObject sv i w = (e, w') \<Longrightarrow> w_db w' = w_db w \<and> w_profiles w' = w_profiles w
     \<and> w_creds w' = w_creds w \<and> w_sent w' = w_sent w"
  by (auto simp: deleteS3Exports_def deleteAvatarObject_def call_s3_def split: option.splits sum.splits
      prod.splits if_splits)

lemma account_at_erase: "profile_key i \<notin> D \<Longrightarrow> account_at (erase D tb) i = account_at tb i"
  by (simp add: account_at_def erase_def)

lemma profile_not_part: "j \<noteq> i \<Longrightarrow> profile_key j \<notin> insert (reservation_key em) (part i)"
  by (auto simp: part_def key_simps)

context account_repository
begin

lemma DeleteProfile_spec:
  assumes run: "DeleteProfile sv i c w = (e, w')" and sv: "sv_repo sv = R"
    and ok: "profiles_ok (tbl (w_db w)) w" and reg: "registry_ok (tbl (w_db w))"
  shows "case e of
      None \<Rightarrow> confirmed (tbl (w_db w)) i c \<and> (\<exists>em b. owns (tbl (w_db w)) i em
        \<and> tbl (w_db w') = erased i em (tbl (w_db w)) \<and> account_at (tbl (w_db w)) i = Some b
        \<and> load (w_profiles w') i = None \<and> load (w_creds w') (to_lower (trim_space (a_Email b))) = None
        \<and> profiles_ok (tbl (w_db w')) w'
        \<and> w_sent w' = w_sent w @ published sv (NewAccountDeletedEvent (sv_domainNew sv) i \<lparr>ed_AccountID = i\<rparr>))
    | Some y \<Rightarrow> w_sent w' = w_sent w \<and> w_creds w' = w_creds w
        \<and> (tbl (w_db w') = tbl (w_db w) \<and> profiles_ok (tbl (w_db w)) w'
              \<and> (\<not> confirmed (tbl (w_db w)) i c \<longrightarrow> w_objs w' = w_objs w)
           \<or> confirmed (tbl (w_db w)) i c \<and> transport y
             \<and> ((\<exists>D \<subseteq> part i - {profile_key i}. tbl (w_db w') = erase D (tbl (w_db w)) \<and> profiles_ok (tbl (w_db w')) w')
              \<or> (\<exists>em. owns (tbl (w_db w)) i em \<and> tbl (w_db w') = erased i em (tbl (w_db w)))))"
proof (cases "trim_space c = []")
  case True
  with run have "e = Some ApiInvalidInput" "w' = w" by (simp_all add: DeleteProfile_def)
  with ok show ?thesis by simp
next
  case False
  let ?tb = "tbl (w_db w)"
  obtain x w1 where g: "GetProfile sv i w = (x, w1)" by fastforce
  note gs = GetProfile_spec [OF g sv ok]
  show ?thesis
  proof (cases x)
    case (Inl f)
    with run g False have "e = Some f" "w' = w1" by (simp_all add: DeleteProfile_def)
    with gs show ?thesis by simp
  next
    case (Inr b)
    with gs(6) have b: "account_at ?tb i = Some b" by simp
    then have conf: "confirmed ?tb i c \<longleftrightarrow> to_lower (trim_space c) = to_lower (trim_space (a_Email b))"
      using False by (simp add: confirmed_def)
    show ?thesis
    proof (cases "to_lower (trim_space c) = to_lower (trim_space (a_Email b))")
      case ne: False
      with run g Inr False have "e = Some ApiInvalidInput" "w' = w1"
        by (simp_all add: DeleteProfile_def)
      with gs ne conf show ?thesis by simp
    next
      case eq: True
      obtain e2 w2 where d2: "deleteS3Exports sv i w1 = (e2, w2)" by fastforce
      obtain e3 w3 where d3: "deleteAvatarObject sv i w2 = (e3, w3)" by fastforce
      obtain e4 d where d4: "rp_DeleteAccount R i (w_db w3) = (e4, d)" by fastforce
      have f3: "w_db w3 = w_db w1" "w_profiles w3 = w_profiles w1" "w_creds w3 = w_creds w1" "w_sent w3 = w_sent w1"
        and f2: "w_db w2 = w_db w1" "w_profiles w2 = w_profiles w1" "w_creds w2 = w_creds w1" "w_sent w2 = w_sent w1"
        using s3_fields(1) [OF d2] s3_fields(2) [OF d3] by simp_all
      have "to_lower (trim_space c) \<noteq> []" using False by simp
      with eq have em: "trim_space (a_Email b) \<noteq> []" by (metis to_lower_Nil_iff)
      consider y where "e2 = Some y" | y where "e2 = None" "e3 = Some y" | "e2 = None" "e3 = None"
        by (cases e2; cases e3) auto
      then show ?thesis
      proof cases
        case 1
        with run g Inr False eq d2 have "e = Some y" "w' = w2" by (simp_all add: DeleteProfile_def)
        with gs f2 eq conf profiles_ok_cong [of w2 w1] show ?thesis by simp
      next
        case 2
        with run g Inr False eq d2 d3 have "e = Some y" "w' = w3" by (simp_all add: DeleteProfile_def)
        with gs f3 eq conf profiles_ok_cong [of w3 w1] show ?thesis by simp
      next
        case 3
        have "registry_ok (tbl (w_db w3))" using reg gs(1) f3(1) by simp
        note law = delete_account [OF d4 this, unfolded f3(1) gs(1)]
        have ok3: "profiles_ok ?tb w3" using gs(5) f3(2) profiles_ok_cong by blast
        show ?thesis
        proof (cases e4)
          case (Some y)
          with 3 run g Inr False eq d2 d3 d4
          have e: "e = Some (if isNotFound y then ApiNotFound else y)" and w': "w' = w3\<lparr>w_db := d\<rparr>"
            by (auto simp: DeleteProfile_def call_db_def sv)
          have kept: "profiles_ok (erase D ?tb) w3" if "D \<subseteq> part i - {profile_key i}" for D
          proof -
            have "profile_key j \<notin> D" for j
              using that profile_not_part [of j i] by (cases "j = i") auto
            with ok3 show ?thesis by (simp add: profiles_ok_def account_at_erase)
          qed
          from law Some have "(\<exists>em. owns ?tb i em \<and> tbl d = erased i em ?tb \<and> transport y)
              \<or> (\<exists>D \<subseteq> part i - {profile_key i}. tbl d = erase D ?tb \<and> transport y) \<or> tbl d = ?tb" by auto
          then show ?thesis
          proof (elim disjE exE bexE conjE)
            fix em assume "owns ?tb i em" "tbl d = erased i em ?tb" "transport y"
            with e w' gs f3 conf eq show ?thesis by (auto simp: isNotFound_def)
          next
            fix D assume *: "D \<subseteq> part i - {profile_key i}" "tbl d = erase D ?tb" "transport y"
            with e w' gs f3 conf eq kept [OF *(1)] show ?thesis by (auto simp: isNotFound_def)
          next
            assume "tbl d = ?tb"
            with e w' gs f3 conf eq ok3 show ?thesis by auto
          qed
        next
          case None
          let ?ev = "NewAccountDeletedEvent (sv_domainNew sv) i \<lparr>ed_AccountID = i\<rparr>"
          from None 3 run g Inr False eq em d2 d3 d4 have e: "e = None"
            and w': "w' = publishAccountEvent sv ?ev (creds_delete (to_lower (trim_space (a_Email b)))
                (profile_delete i (w3\<lparr>w_db := d\<rparr>)))"
            by (auto simp: DeleteProfile_def call_db_def sv Let_def)
          from None law obtain em' where em': "owns ?tb i em'" "tbl d = erased i em' ?tb" by auto
          have "account_at (tbl d) j = account_at ?tb j" if "j \<noteq> i" for j
            unfolding em'(2) erased_def by (rule account_at_erase [OF profile_not_part [OF that]])
          with ok3 have "profiles_ok (tbl d) w'" unfolding w' by (auto simp: profiles_ok_def)
          with e em' b gs f3 conf eq show ?thesis by (auto simp: w')
        qed
      qed
    qed
  qed
qed

end

section \<open>The account service as a state machine\<close>

lemma account_at_credentials:
  assumes "valid_time t" "account_at tb i = Some a" "tb (profile_key i) = Some it"
  shows "account_at (tb(profile_key i \<mapsto> assign (credentials_clauses t u) it)) i = Some a"
proof -
  from assms obtain rc where rc: "unmarshal_account it = Some rc" "a = account_toModel rc"
    by (auto simp: account_at_def)
  have "unmarshal_account (assign (credentials_clauses t u) it) = Some (rc\<lparr>
      ar_PasswordHash := opt_or (ar_PasswordHash rc) (uc_PasswordHash u),
      ar_AuthMethods := opt_or (ar_AuthMethods rc) (uc_AuthMethods u), ar_UpdatedAt := t\<rparr>)"
    using rc(1) assms(1) unfolding unmarshal_account_iff
    by (simp add: credentials_clauses_def field_opt_gen opt_or_def parse_time_fmt_nano split: option.split)
  then show ?thesis by (simp add: account_at_def rc(2) account_toModel_def)
qed

text \<open>The state of the service in which its answers can be trusted.\<close>

definition account_ok :: "('d \<Rightarrow> table) \<Rightarrow> ('d, 'o) world \<Rightarrow> bool" where
  "account_ok tbl w \<longleftrightarrow> registry_ok (tbl (w_db w)) \<and> profiles_ok (tbl (w_db w)) w"

text \<open>A failure is settled when the profile of the account is as it was: the store did not commit a write
  that it reported as failed.\<close>

definition settled :: "('d \<Rightarrow> table) \<Rightarrow> string \<Rightarrow> bool \<Rightarrow> ('d, 'o) world \<Rightarrow> ('d, 'o) world \<Rightarrow> bool" where
  "settled tbl i failed w w' \<longleftrightarrow>
     (failed \<longrightarrow> tbl (w_db w') (profile_key i) = tbl (w_db w) (profile_key i))"

inductive account_step :: "('d, 'o) service \<Rightarrow> ('d \<Rightarrow> table) \<Rightarrow> ('d, 'o) world \<Rightarrow> ('d, 'o) world \<Rightarrow> bool"
  for sv :: "('d, 'o) service" and tbl :: "'d \<Rightarrow> table" where
  get_profile: "GetProfile sv i w = (x, w') \<Longrightarrow> account_step sv tbl w w'"
| register: "CreateAccount_svc sv i req w = (x, w') \<Longrightarrow> account_step sv tbl w w'"
| update: "UpdateProfile sv i u w = (x, w') \<Longrightarrow> settled tbl i (isl x) w w' \<Longrightarrow> account_step sv tbl w w'"
| close: "DeleteProfile sv i c w = (e, w') \<Longrightarrow> settled tbl i (e \<noteq> None) w w' \<Longrightarrow> account_step sv tbl w w'"
| exists: "CheckAccountExists sv em w = (b, w') \<Longrightarrow> account_step sv tbl w w'"
| sign_in: "GetCredentials sv em w = (c, w') \<Longrightarrow> account_step sv tbl w w'"
| credentials: "UpdateCredentials sv i uc w = (e, w') \<Longrightarrow> account_step sv tbl w w'"
| sweep: "account_step sv tbl w (w\<lparr>w_profiles := evict_tick t ks (w_profiles w),
    w_creds := evict_tick t ks' (w_creds w)\<rparr>)"

inductive account_run :: "('d, 'o) service \<Rightarrow> ('d \<Rightarrow> table) \<Rightarrow> ('d, 'o) world \<Rightarrow> bool"
  for sv :: "('d, 'o) service" and tbl :: "'d \<Rightarrow> table" where
  start: "tbl (w_db w) = Map.empty \<Longrightarrow> w_profiles w = New n \<Longrightarrow> account_run sv tbl w"
| step: "account_run sv tbl w \<Longrightarrow> account_step sv tbl w w' \<Longrightarrow> account_run sv tbl w'"

lemma load_evict_tick: "load (evict_tick t ks c) k \<in> {load c k, None}"
proof (induction ks arbitrary: c)
  case (Cons a ks)
  show ?case
  proof (cases "\<exists>e. load c a = Some e \<and> expired t e")
    case True
    then have "evict_tick t (a # ks) c = evict_tick t ks (Delete a c)" by auto
    with Cons.IH [of "Delete a c"] show ?thesis by (simp split: if_splits)
  next
    case False
    then have "evict_tick t (a # ks) c = evict_tick t ks c" by (auto split: option.split)
    with Cons.IH [of c] show ?thesis by simp
  qed
qed simp

lemma created_profiles:
  assumes ok: "profiles_ok tb w" and free: "free i em tb"
  shows "profiles_ok (created t i req tb) w"
  unfolding profiles_ok_def
proof (intro allI impI)
  fix j e assume "load (w_profiles w) j = Some e"
  with ok have j: "account_at tb j = Some (e_value e)" by (simp add: profiles_ok_def)
  with free have "j \<noteq> i" by (auto simp: free_def account_at_def)
  then have "created t i req tb (profile_key j) = tb (profile_key j)" by (simp add: created_def)
  with j show "account_at (created t i req tb) j = Some (e_value e)" by (simp add: account_at_def)
qed

lemma same_profile_ok:
  assumes "profiles_ok tb w" "\<And>j. account_at tb' j = account_at tb j"
  shows "profiles_ok tb' w"
  using assms by (simp add: profiles_ok_def)


lemma account_at_profile: "tb' (profile_key j) = tb (profile_key j) \<Longrightarrow> account_at tb' j = account_at tb j"
  by (simp add: account_at_def)

lemma profile_upd_ok:
  assumes "profiles_ok tb w" "\<And>a. account_at tb i = Some a \<Longrightarrow> account_at (tb(profile_key i \<mapsto> it)) i = Some a"
  shows "profiles_ok (tb(profile_key i \<mapsto> it)) w"
  unfolding profiles_ok_def
proof (intro allI impI)
  fix j e assume "load (w_profiles w) j = Some e"
  with assms(1) have j: "account_at tb j = Some (e_value e)" by (simp add: profiles_ok_def)
  show "account_at (tb(profile_key i \<mapsto> it)) j = Some (e_value e)"
    using j assms(2) account_at_profile [of "tb(profile_key i \<mapsto> it)" j tb] by (cases "j = i") auto
qed

lemma partial_erase_ok:
  assumes "registry_ok tb" "D \<subseteq> part i - {profile_key i}"
  shows "registry_ok (erase D tb)"
proof (rule registry_erase_neutral [OF assms(1)], rule ballI)
  fix k assume "k \<in> D"
  with assms(2) show "neutral_key k" by (cases k) (auto simp: part_def neutral_key_def profile_key_def)
qed

lemma profile_same:
  assumes "tb (profile_key i) = Some it" "(tb(profile_key i \<mapsto> v)) (profile_key i) = tb (profile_key i)"
  shows "tb(profile_key i \<mapsto> v) = tb"
  using assms by auto

lemma account_okI: "registry_ok (tbl (w_db w)) \<Longrightarrow> profiles_ok (tbl (w_db w)) w \<Longrightarrow> account_ok tbl w"
  by (simp add: account_ok_def)

lemma clauses_registry:
  assumes "registry_ok tb" "tb (profile_key i) = Some it"
  shows "registry_ok (tb(profile_key i \<mapsto> assign (account_clauses t u) it))"
    and "registry_ok (tb(profile_key i \<mapsto> assign (credentials_clauses t uc) it))"
  by (rule assign_registry [where tb = tb, OF assms]; use account_clauses_attr [of t u]
      credentials_clauses_attr [of t uc] in \<open>simp add: subset_iff, blast?\<close>)+

context account_repository
begin

lemma UpdateProfile_ok:
  assumes run: "UpdateProfile sv i u w = (x, w')" and sv: "sv_repo sv = R"
    and ok: "account_ok tbl w" and settled: "settled tbl i (isl x) w w'"
  shows "account_ok tbl w'"
proof -
  from ok have p: "profiles_ok (tbl (w_db w)) w" and r: "registry_ok (tbl (w_db w))" by (simp_all add: account_ok_def)
  note sp = UpdateProfile_spec [OF run sv p]
  show ?thesis
  proof (cases x)
    case (Inr a)
    with sp obtain it t where it: "tbl (w_db w) (profile_key i) = Some it"
      "tbl (w_db w') = (tbl (w_db w))(profile_key i \<mapsto> assign (account_clauses t u) it)"
      "profiles_ok (tbl (w_db w')) w'" by auto
    show ?thesis
      by (rule account_okI [where tbl = tbl, OF _ it(3)]) (simp only: it(2) clauses_registry(1) [where tb = "tbl (w_db w)", OF r it(1)])
  next
    case (Inl e)
    with settled have same: "tbl (w_db w') (profile_key i) = tbl (w_db w) (profile_key i)" by (simp add: settled_def)
    from sp Inl have "tbl (w_db w') = tbl (w_db w) \<or> (\<exists>it v. tbl (w_db w) (profile_key i) = Some it
        \<and> tbl (w_db w') = (tbl (w_db w))(profile_key i \<mapsto> v))" by auto
    then have "tbl (w_db w') = tbl (w_db w)" using same profile_same [of "tbl (w_db w)" i] by metis
    with sp Inl r show ?thesis by (simp add: account_ok_def)
  qed
qed

lemma DeleteProfile_ok:
  assumes run: "DeleteProfile sv i c w = (e, w')" and sv: "sv_repo sv = R"
    and ok: "account_ok tbl w" and settled: "settled tbl i (e \<noteq> None) w w'"
  shows "account_ok tbl w'"
proof -
  from ok have p: "profiles_ok (tbl (w_db w)) w" and r: "registry_ok (tbl (w_db w))" by (simp_all add: account_ok_def)
  note sp = DeleteProfile_spec [OF run sv p r]
  show ?thesis
  proof (cases e)
    case None
    with sp obtain em where em: "owns (tbl (w_db w)) i em" "tbl (w_db w') = erased i em (tbl (w_db w))"
      and p': "profiles_ok (tbl (w_db w')) w'" by auto
    show ?thesis by (rule account_okI [where tbl = tbl, OF _ p']) (simp only: em(2) erased_registry [OF r em(1)])
  next
    case (Some y)
    with settled have same: "tbl (w_db w') (profile_key i) = tbl (w_db w) (profile_key i)" by (simp add: settled_def)
    have "\<not> (owns (tbl (w_db w)) i em \<and> tbl (w_db w') = erased i em (tbl (w_db w)))" for em
      using same by (auto simp: owns_def erased_def erase_def part_def profile_key_def)
    with sp Some consider "tbl (w_db w') = tbl (w_db w)" "profiles_ok (tbl (w_db w)) w'"
      | D where "D \<subseteq> part i - {profile_key i}" "tbl (w_db w') = erase D (tbl (w_db w))"
          "profiles_ok (tbl (w_db w')) w'" by auto
    then show ?thesis
    proof cases
      case 1
      with r show ?thesis by (simp add: account_ok_def)
    next
      case 2
      show ?thesis by (rule account_okI [where tbl = tbl, OF _ 2(3)]) (simp only: 2(2) partial_erase_ok [OF r 2(1)])
    qed
  qed
qed

lemma CreateAccount_ok:
  assumes run: "CreateAccount_svc sv i req w = (x, w')" and sv: "sv_repo sv = R" and ok: "account_ok tbl w"
  shows "account_ok tbl w'"
proof -
  from ok have p: "profiles_ok (tbl (w_db w)) w" and r: "registry_ok (tbl (w_db w))" by (simp_all add: account_ok_def)
  note sp = CreateAccount_svc_spec [OF run sv]
  from sp have pr: "w_profiles w' = w_profiles w" by blast
  from sp have "tbl (w_db w') = tbl (w_db w) \<or> free i (ca_Email req) (tbl (w_db w))
      \<and> (\<exists>t. tbl (w_db w') = created t i req (tbl (w_db w)))" by (auto split: sum.splits)
  then show ?thesis
  proof (elim disjE conjE exE)
    assume "tbl (w_db w') = tbl (w_db w)"
    with p r profiles_ok_cong [OF pr] show ?thesis by (simp add: account_ok_def)
  next
    fix t assume f: "free i (ca_Email req) (tbl (w_db w))" and t: "tbl (w_db w') = created t i req (tbl (w_db w))"
    show ?thesis
      unfolding account_ok_def t profiles_ok_cong [OF pr]
      using created_registry [OF r f] created_profiles [OF p f] by blast
  qed
qed

lemma UpdateCredentials_ok:
  assumes run: "UpdateCredentials sv i u w = (e, w')" and sv: "sv_repo sv = R" and ok: "account_ok tbl w"
    and clock: "\<forall>n. valid_time (env_UTC (sv_env sv) n)"
  shows "account_ok tbl w'"
proof -
  from ok have p: "profiles_ok (tbl (w_db w)) w" and r: "registry_ok (tbl (w_db w))" by (simp_all add: account_ok_def)
  note sp = UpdateCredentials_spec [OF run sv]
  from sp have pr: "w_profiles w' = w_profiles w" by blast
  from sp have "tbl (w_db w') = tbl (w_db w) \<or> (\<exists>it. \<exists>t \<in> range (env_UTC (sv_env sv)).
      tbl (w_db w) (profile_key i) = Some it
      \<and> tbl (w_db w') = (tbl (w_db w))(profile_key i \<mapsto> assign (credentials_clauses t u) it))"
    by (cases e) auto
  then show ?thesis
  proof (elim disjE conjE exE bexE)
    assume "tbl (w_db w') = tbl (w_db w)"
    with p r profiles_ok_cong [OF pr] show ?thesis by (simp add: account_ok_def)
  next
    fix it t assume it: "tbl (w_db w) (profile_key i) = Some it" and "t \<in> range (env_UTC (sv_env sv))"
      and t: "tbl (w_db w') = (tbl (w_db w))(profile_key i \<mapsto> assign (credentials_clauses t u) it)"
    with clock have v: "valid_time t" by auto
    show ?thesis
      unfolding account_ok_def t profiles_ok_cong [OF pr]
      using clauses_registry(2) [where tb = "tbl (w_db w)", OF r it]
        profile_upd_ok [OF p account_at_credentials [where tb = "tbl (w_db w)", OF v _ it]] by blast
  qed
qed

lemma account_step_ok:
  assumes "account_step sv tbl w w'" and sv: "sv_repo sv = R" and ok: "account_ok tbl w"
    and clock: "\<forall>n. valid_time (env_UTC (sv_env sv) n)"
  shows "account_ok tbl w'"
  using assms(1)
proof cases
  case (get_profile i x)
  with GetProfile_spec [OF this sv] ok show ?thesis by (simp add: account_ok_def)
next
  case (register i req x)
  then show ?thesis by (rule CreateAccount_ok [OF _ sv ok])
next
  case (update i u x)
  then show ?thesis by (rule UpdateProfile_ok [OF _ sv ok])
next
  case (close i c e)
  then show ?thesis by (rule DeleteProfile_ok [OF _ sv ok])
next
  case (exists em b)
  then obtain d where "rp_GetAccountExistsByEmail R em (w_db w) = (b, d)" "w' = w\<lparr>w_db := d\<rparr>"
    by (auto simp: CheckAccountExists_def call_db_eq sv)
  with account_exists ok show ?thesis by (fastforce simp: account_ok_def)
next
  case (sign_in em c)
  with ok show ?thesis using GetCredentials_spec(1,3) [OF sign_in sv] profiles_ok_cong
    by (auto simp: account_ok_def)
next
  case (credentials i uc e)
  then show ?thesis by (rule UpdateCredentials_ok [OF _ sv ok clock])
next
  case (sweep t ks ks')
  have "\<forall>j. load (w_profiles w') j \<in> {load (w_profiles w) j, None}"
    unfolding sweep by (simp add: load_evict_tick [simplified])
  with ok profiles_ok_mono have "profiles_ok (tbl (w_db w)) w'" unfolding account_ok_def by blast
  with ok show ?thesis by (simp add: account_ok_def sweep)
qed

lemma account_run_ok:
  assumes "account_run sv tbl w" "sv_repo sv = R" "\<forall>n. valid_time (env_UTC (sv_env sv) n)"
  shows "account_ok tbl w"
  using assms(1)
proof (induction rule: account_run.induct)
  case (start w n)
  then show ?case by (simp add: account_ok_def registry_empty profiles_ok_def)
next
  case (step w w')
  then show ?case using account_step_ok assms(2,3) by blast
qed

end

section \<open>Sample data for the witnesses\<close>

definition sample_env :: env where
  "sample_env = \<lparr>env_Now = int, env_UTC = (\<lambda>_. sample_time), env_Ksuid = (\<lambda>_. ''k1''), env_Range = (\<lambda>_ ks. ks)\<rparr>"

definition sample_sv :: "(mem, unit) service" where
  "sample_sv = \<lparr>sv_repo = db_repository mem_repo, sv_s3 = None, sv_exportBucket = ''x'', sv_unsubscribeKey = ''key'',
     sv_avatarBucket = ''v'', sv_presignTTL = 900, sv_unsubTokenTTL = 3600, sv_cacheTTL = 60,
     sv_eventPublisher = Some (\<lambda>_. None), sv_domainNew = (\<lambda>_. None), sv_env = sample_env\<rparr>"

definition sample_world :: "mem \<Rightarrow> (mem, unit) world" where
  "sample_world s = \<lparr>w_db = s, w_objs = (), w_profiles = New 10, w_creds = New 10, w_ticks = 0, w_sent = []\<rparr>"

lemma sample_sv_simps [simp]:
  "sv_repo sample_sv = db_repository mem_repo" "valid_time (env_UTC (sv_env sample_sv) n)"
  "w_db (sample_world s) = s" "profiles_ok tb (sample_world s)" "w_sent (sample_world s) = []"
  "w_creds (sample_world s) = New 10"
proof -
  have "valid_time sample_time" by code_simp
  then show "valid_time (env_UTC (sv_env sample_sv) n)" by (simp add: sample_sv_def sample_env_def)
qed (simp_all add: sample_sv_def sample_world_def profiles_ok_def)

lemma sample_account: "account_at (mem_tbl sample_mem) ''a1''
    = Some (account_toModel (profile_record sample_time ''a1'' sample_request))"
  using mem.CreateAccount_spec [OF sample_mem_created] created_account [of sample_time "''a1''" sample_request]
    sample_sv_simps(2) [of 0] by (auto simp: sample_sv_def sample_env_def)

lemma published_set:
  "e \<in> set (published sv (newAccountEvent new ty i p)) \<Longrightarrow> ei_Type e = ty \<and> ei_EntityID e = i \<and> ei_Payload e = p"
  using newAccountEvent_fields by (fastforce simp: published_def split: sum.splits if_splits)

lemma published_some:
  "sv_eventPublisher sv \<noteq> None \<Longrightarrow> \<forall>e. new e = None \<Longrightarrow>
    \<exists>e. published sv (newAccountEvent new ty i p) = [e] \<and> ei_Type e = ty \<and> ei_EntityID e = i \<and> ei_Payload e = p"
  by (auto simp: published_def newAccountEvent_def Let_def)

lemmas event_defs = NewAccountProfileUpdatedEvent_def NewAccountPhoneChangedEvent_def
  NewAccountDeletedEvent_def NewAccountRegisteredEvent_def

lemma profile_events_shape:
  assumes "old = None \<or> old = Some (deref [] (a_Phone b))"
  shows "(\<forall>e \<in> set (profile_events sv i u t old). ei_EntityID e = i
          \<and> ((\<exists>t. updateProfileChangedFields u \<noteq> [] \<and> ei_Type e = EventTypeAccountProfileUpdated
                \<and> ei_Payload e = ProfileUpdatedP \<lparr>eu_AccountID = i, eu_ChangedFields = updateProfileChangedFields u,
                    eu_UpdatedAt = fmt_rfc3339 t\<rparr>)
            \<or> (\<exists>p. ua_Phone u = Some p \<and> p \<noteq> deref [] (a_Phone b) \<and> ei_Type e = EventTypeAccountPhoneChanged
                \<and> ei_Payload e = PhoneChangedP \<lparr>ep_AccountID = i, ep_OldPhone = deref [] (a_Phone b),
                    ep_NewPhone = p\<rparr>)))
        \<and> (updateProfileChangedFields u \<noteq> [] \<and> sv_eventPublisher sv \<noteq> None \<and> (\<forall>e. sv_domainNew sv e = None)
            \<longrightarrow> (\<exists>e \<in> set (profile_events sv i u t old). ei_Type e = EventTypeAccountProfileUpdated))"
    (is "?every \<and> ?some")
proof
  show ?every
    using assms by (auto simp: profile_events_def event_defs dest!: published_set split: option.splits if_splits)
  show ?some
  proof (intro impI, elim conjE)
    assume "updateProfileChangedFields u \<noteq> []" and p: "sv_eventPublisher sv \<noteq> None" "\<forall>e. sv_domainNew sv e = None"
    then show "\<exists>e \<in> set (profile_events sv i u t old). ei_Type e = EventTypeAccountProfileUpdated"
      using published_some [of sv "sv_domainNew sv" EventTypeAccountProfileUpdated i
          "ProfileUpdatedP \<lparr>eu_AccountID = i, eu_ChangedFields = updateProfileChangedFields u,
            eu_UpdatedAt = fmt_rfc3339 t\<rparr>", OF p]
      by (auto simp: profile_events_def event_defs)
  qed
qed

context dynamo
begin

lemma account_laws: "account_repository (db_repository r) tbl"
  by (rule accounts.account_repository_axioms)

end

section \<open>Properties\<close>


definition sample_account_model :: account where
  "sample_account_model = account_toModel (profile_record sample_time ''a1'' sample_request)"

definition registered_world :: "(mem, unit) world" where
  "registered_world = snd (GetProfile sample_sv ''a1'' (snd (CreateAccount_svc sample_sv ''a1'' sample_request (sample_world empty_mem))))"

lemma registered_run: "account_run sample_sv mem_tbl registered_world"
proof -
  have "mem_tbl (w_db (sample_world empty_mem)) = Map.empty"
    by (rule ext) (simp add: mem_tbl_def empty_mem_def)
  then have s: "account_run sample_sv mem_tbl (sample_world empty_mem)"
    by (rule account_run.start) (simp add: sample_world_def)
  show ?thesis
    unfolding registered_world_def
    by (rule account_run.step [OF account_run.step [OF s account_step.register] account_step.get_profile];
        rule prod.collapse [symmetric])
qed




text \<open>C3 (DeleteProfile, the guard). An account is closed only when the request repeats its email address,
  up to letter case and surrounding space: otherwise the operation fails, and nothing is erased, from
  the table or from S3, nothing is dropped from the cache of credentials and nothing is announced.\<close>

theorem DeleteProfile_guarded:
  assumes "dynamo r tbl ssl fits" and "sv_repo sv = db_repository r"
    and "profiles_ok (tbl (w_db w)) w" and "registry_ok (tbl (w_db w))"
    and "DeleteProfile sv i c w = (e, w')"
    and "trim_space c = [] \<or> (\<forall>b. account_at (tbl (w_db w)) i = Some b
           \<longrightarrow> \<not> equal_fold (trim_space c) (trim_space (a_Email b)))"
  shows "e \<noteq> None \<and> tbl (w_db w') = tbl (w_db w) \<and> w_objs w' = w_objs w \<and> w_creds w' = w_creds w
    \<and> w_sent w' = w_sent w \<and> profiles_ok (tbl (w_db w)) w'"
proof -
  have "\<not> confirmed (tbl (w_db w)) i c" using assms(6) by (auto simp: confirmed_def equal_fold_def)
  with account_repository.DeleteProfile_spec [OF dynamo.account_laws [OF assms(1)] assms(5,2,3,4)]
  show ?thesis by (cases e) simp_all
qed

lemma DeleteProfile_guarded_witness:
  "\<exists>e w'. DeleteProfile sample_sv ''a1'' ''bob@x.io'' (sample_world sample_mem) = (Some e, w')
    \<and> mem_tbl (w_db w') = mem_tbl sample_mem"
proof -
  obtain e w' where run: "DeleteProfile sample_sv ''a1'' ''bob@x.io'' (sample_world sample_mem) = (e, w')"
    by fastforce
  have "\<not> equal_fold (trim_space ''bob@x.io'') (trim_space (a_Email sample_account_model))" by code_simp
  with DeleteProfile_guarded [OF mem.dynamo_axioms _ _ _ run] sample_account sample_mem_registry run
  show ?thesis by (auto simp: sample_account_model_def)
qed



text \<open>C29 (registration). The service registers an account only from a complete request; it reports a
  taken address or a used identifier exactly as such and then has changed nothing, and it announces a
  registration only after storing it, with the stored data.\<close>

theorem CreateAccount_svc_correct:
  assumes "dynamo r tbl ssl fits" and "sv_repo sv = db_repository r"
    and "\<forall>n. valid_time (env_UTC (sv_env sv) n)" and "registry_ok (tbl (w_db w))"
    and "CreateAccount_svc sv i req w = (x, w')"
  shows "case x of
      Inr a \<Rightarrow> [] \<notin> {i, ca_Email req, ca_FirstName req, ca_LastName req}
        \<and> account_at (tbl (w_db w')) i = Some a \<and> owns (tbl (w_db w')) i (to_lower (ca_Email req))
        \<and> (\<exists>es. w_sent w' = w_sent w @ es \<and> length es \<le> 1 \<and> (\<forall>ev \<in> set es. \<exists>p. ei_Type ev = EventTypeAccountRegistered
            \<and> ei_Payload ev = RegisteredP p \<and> ev_AccountID p = i \<and> ev_Email p = a_Email a))
    | Inl e \<Rightarrow> w_sent w' = w_sent w
        \<and> (\<not> transport e \<longrightarrow> tbl (w_db w') = tbl (w_db w)
             \<and> (e = ApiInvalidInput \<and> [] \<in> {i, ca_Email req, ca_FirstName req, ca_LastName req}
               \<or> e = ApiEmailAlreadyExists \<and> (\<exists>j. owns (tbl (w_db w)) j (to_lower (ca_Email req)))
               \<or> e = ApiAlreadyExists \<and> (tbl (w_db w) (profile_key i) \<noteq> None \<or> tbl (w_db w) (settings_key i) \<noteq> None)))"
proof (cases x)
  case (Inl e)
  have "\<exists>j. owns (tbl (w_db w)) j (to_lower (ca_Email req))" if "tbl (w_db w) (reservation_key (ca_Email req)) \<noteq> None"
    using that reservationE [OF assms(4)] by blast
  with Inl account_repository.CreateAccount_svc_spec [OF dynamo.account_laws [OF assms(1)] assms(5,2)]
  show ?thesis by (auto simp: transport_iff)
next
  case (Inr a)
  have id: "a_AccountId (account_toModel (profile_record t i req)) = i" for t
    by (simp add: account_toModel_def profile_record_def Let_def)
  from account_repository.CreateAccount_svc_spec [OF dynamo.account_laws [OF assms(1)] assms(5) [unfolded Inr] assms(2), unfolded sum.case]
  obtain t t' where t: "t \<in> range (env_UTC (sv_env sv))" "tbl (w_db w') = created t i req (tbl (w_db w))"
      "a = account_toModel (profile_record t i req)" and ne: "i \<noteq> []" "ca_Email req \<noteq> []" "ca_FirstName req \<noteq> []" "ca_LastName req \<noteq> []"
    and ev: "w_sent w' = w_sent w @ published sv (NewAccountRegisteredEvent (sv_domainNew sv) (a_AccountId a)
                \<lparr>ev_AccountID = a_AccountId a, ev_Email = a_Email a, ev_Username = a_Username a,
                 ev_FirstName = a_FirstName a, ev_LastName = a_LastName a, ev_AuthMethods = [],
                 ev_CreatedAt = fmt_rfc3339 t'\<rparr>)" (is "_ = _ @ ?es")
    by blast
  have "valid_time t" using t(1) assms(3) by auto
  then have "account_at (tbl (w_db w')) i = Some a" "owns (tbl (w_db w')) i (to_lower (ca_Email req))"
    using created_account created_owns unfolding t(2,3) by blast+
  moreover have "length ?es \<le> 1" by (simp add: published_def split: sum.split)
  moreover have "\<forall>ev \<in> set ?es. \<exists>p. ei_Type ev = EventTypeAccountRegistered
      \<and> ei_Payload ev = RegisteredP p \<and> ev_AccountID p = i \<and> ev_Email p = a_Email a"
    unfolding event_defs using id t(3) by (auto dest!: published_set)
  ultimately show ?thesis using Inr ne ev by auto
qed

lemma CreateAccount_svc_correct_witness:
  "\<exists>w'. CreateAccount_svc sample_sv ''a1'' sample_request (sample_world empty_mem) = (Inr sample_account_model, w')
    \<and> account_at (mem_tbl (w_db w')) ''a1'' = Some sample_account_model"
proof -
  have "fst (CreateAccount_svc sample_sv ''a1'' sample_request (sample_world empty_mem)) = Inr sample_account_model"
    by code_simp
  then obtain w' where run: "CreateAccount_svc sample_sv ''a1'' sample_request (sample_world empty_mem)
      = (Inr sample_account_model, w')" by (metis prod.collapse)
  from CreateAccount_svc_correct [OF mem.dynamo_axioms _ _ _ run] run empty_mem_registry show ?thesis by simp
qed



text \<open>C25 (GetAvatarUploadURL). An upload URL is only ever signed for an accepted image type and a size from
  1 to 2097152 bytes, for the object of that account in the avatar bucket; a refused request does not
  reach S3.\<close>

theorem GetAvatarUploadURL_bounds:
  "case GetAvatarUploadURL sv i ct len w of
     (Inr url, w') \<Rightarrow> \<exists>s3 b. sv_s3 sv = Some s3 \<and> ct \<in> {''image/jpeg'', ''image/png'', ''image/webp''}
       \<and> 1 \<le> sint len \<and> sint len \<le> 2097152
       \<and> s3_PresignPut s3 (sv_avatarBucket sv) (''avatars/'' @ i @ ''/avatar'') (sv_presignTTL sv) ct len (w_objs w)
         = (Inr url, b) \<and> w' = w\<lparr>w_objs := b\<rparr>
   | (Inl e, w') \<Rightarrow> sv_s3 sv = None \<and> w' = w \<or> e = ApiInvalidInput \<and> w' = w
       \<or> ct \<in> {''image/jpeg'', ''image/png'', ''image/webp''} \<and> 1 \<le> sint len \<and> sint len \<le> 2097152"
proof -
  have "sint (0 :: go_int) = 0" "sint maxAvatarBytes = 2097152" by (simp_all add: maxAvatarBytes_def)
  then show ?thesis
    by (auto simp: GetAvatarUploadURL_def call_s3_def validAvatarContentTypes_def avatarKey_def word_sle_eq
        word_sless_alt not_le split: option.split sum.split prod.split)
qed

end
