(* ===== verification/Settings_Svc.thy ===== *)
theory Settings_Svc
  imports Account_Svc
begin

text \<open>
  The service half of \<open>internal/api/settings.go\<close>: account settings under an optimistic version, and the
  tags that other services put on an account, each in a namespace of its own.
\<close>

definition tagNamespaceMap :: "string \<Rightarrow> string option" where
  "tagNamespaceMap = [''loyalty-api'' \<mapsto> ''loyalty.'', ''marketing-api'' \<mapsto> ''marketing.'',
     ''promotions-api'' \<mapsto> ''marketing.'', ''customer-servicing-api'' \<mapsto> ''support.'',
     ''accounts-api'' \<mapsto> ''system.'']"

text \<open>\<open>^[a-z0-9._]{1,32}$\<close>\<close>

definition tag_char :: "char \<Rightarrow> bool" where
  "tag_char c \<longleftrightarrow> (let n = of_char c :: nat in 97 \<le> n \<and> n \<le> 122 \<or> 48 \<le> n \<and> n \<le> 57 \<or> n = 46 \<or> n = 95)"

definition tagRE :: "string \<Rightarrow> bool" where
  "tagRE t \<longleftrightarrow> 1 \<le> length t \<and> length t \<le> 32 \<and> list_all tag_char t"

fun first_bad_tag :: "string \<Rightarrow> string list \<Rightarrow> error option" where
  "first_bad_tag prefix [] = None"
| "first_bad_tag prefix (tag # tags) =
     (if \<not> tagRE tag then Some ApiForbiddenNamespace
      else if \<not> has_prefix prefix tag then Some ApiForbiddenNamespace
      else first_bad_tag prefix tags)"

definition validateTagNamespace :: "string \<Rightarrow> string list \<Rightarrow> string list \<Rightarrow> error option" where
  "validateTagNamespace prefix add remove = first_bad_tag prefix (add @ remove)"

text \<open>The two maps of the code are the sets of their keys.\<close>

definition expectedTagCount :: "string list \<Rightarrow> string list \<Rightarrow> string list \<Rightarrow> nat" where
  "expectedTagCount current add remove =
     length (filter (\<lambda>t. t \<notin> set remove) (remdups current)) + length (filter (\<lambda>t. t \<notin> set current) add)"

definition validateStatus :: "string \<Rightarrow> error option" where
  "validateStatus s = (if to_lower s \<in> {''active'', ''suspended'', ''closed''} then None else Some ApiInvalidInput)"

definition parseSlice :: "'a list option \<Rightarrow> 'a list" where
  "parseSlice p = (case p of None \<Rightarrow> [] | Some xs \<Rightarrow> xs)"

definition GetSettings_svc :: "('d, 'o) service \<Rightarrow> string \<Rightarrow> ('d, 'o) world
    \<Rightarrow> (error + account_settings) \<times> ('d, 'o) world" where
  "GetSettings_svc sv accountID w = (case call_db (rp_GetSettings (sv_repo sv) accountID) w of
     (Inl e, w1) \<Rightarrow> (Inl (if isNotFound e then ApiNotFound else e), w1)
   | (Inr s, w1) \<Rightarrow> (Inr s, w1))"

text \<open>The errors of an update under a version.\<close>

definition version_error :: "error \<Rightarrow> error" where
  "version_error e = (if e = DbVersionConflict then ApiVersionConflict
     else if isNotFound e then ApiNotFound else e)"

definition UpdateSettings_svc :: "('d, 'o) service \<Rightarrow> string \<Rightarrow> update_settings_request \<Rightarrow> ('d, 'o) world
    \<Rightarrow> (error + account_settings) \<times> ('d, 'o) world" where
  "UpdateSettings_svc sv accountID req w =
     (case Option.bind (us_Status req) validateStatus of
        Some e \<Rightarrow> (Inl e, w)
      | None \<Rightarrow>
          (let version = deref 0 (us_Version req) in
           case utc_now sv w of (t, w1) \<Rightarrow>
             (case call_db (rp_UpdateSettingsPartial (sv_repo sv) t accountID req version) w1 of
                (Some e, w2) \<Rightarrow> (Inl (version_error e), w2)
              | (None, w2) \<Rightarrow> call_db (rp_GetSettings (sv_repo sv) accountID) w2)))"

definition default_settings :: account_settings where
  "default_settings = \<lparr>st_EmailVerified = None, st_EmailVerifiedAt = None, st_PhoneVerified = None,
     st_PhoneVerifiedAt = None, st_Status = ''active'', st_StatusChangedAt = None, st_StatusReason = None,
     st_Tags = None, st_Version = 0\<rparr>"

text \<open>The settings a tag request starts from: missing settings are created.\<close>

definition load_settings :: "('d, 'o) service \<Rightarrow> string \<Rightarrow> ('d, 'o) world
    \<Rightarrow> (error + account_settings) \<times> ('d, 'o) world" where
  "load_settings sv accountID w = (case call_db (rp_GetSettings (sv_repo sv) accountID) w of
     (Inr s, w1) \<Rightarrow> (Inr s, w1)
   | (Inl e, w1) \<Rightarrow>
       if \<not> isNotFound e then (Inl e, w1)
       else case call_db (rp_UpdateSettings (sv_repo sv) accountID default_settings) w1 of
         (Some e', w2) \<Rightarrow> (Inl e', w2)
       | (None, w2) \<Rightarrow> (Inr default_settings, w2))"

definition UpdateSettingsTags :: "('d, 'o) service \<Rightarrow> string \<Rightarrow> string \<Rightarrow> update_settings_tags_request
    \<Rightarrow> ('d, 'o) world \<Rightarrow> (error + account_settings) \<times> ('d, 'o) world" where
  "UpdateSettingsTags sv accountID callerService req w = (case tagNamespaceMap callerService of
     None \<Rightarrow> (Inl ApiForbiddenNamespace, w)
   | Some prefix \<Rightarrow>
       (let add = parseSlice (ut_Add req); remove = parseSlice (ut_Remove req) in
        case validateTagNamespace prefix add remove of
          Some e \<Rightarrow> (Inl e, w)
        | None \<Rightarrow> (case load_settings sv accountID w of
            (Inl e, w1) \<Rightarrow> (Inl e, w1)
          | (Inr current, w1) \<Rightarrow>
              if expectedTagCount (parseSlice (st_Tags current)) add remove > 20 then (Inl ApiForbiddenNamespace, w1)
              else (let tagVersion = deref 0 (ut_Version req) in
                    case call_db (rp_MutateSettingsTags (sv_repo sv) accountID req tagVersion) w1 of
                      (Some e, w2) \<Rightarrow> (Inl (version_error e), w2)
                    | (None, w2) \<Rightarrow> call_db (rp_GetSettings (sv_repo sv) accountID) w2))))"

section \<open>What the service relies on\<close>

locale settings_repository =
  fixes R :: "'d repository" and tbl :: "'d \<Rightarrow> table" and ssl :: "string set \<Rightarrow> string list"
  assumes ssl_list: "finite A \<Longrightarrow> set (ssl A) = A \<and> distinct (ssl A)"
    and get_settings: "rp_GetSettings R i s = (x, s') \<Longrightarrow> tbl s' = tbl s \<and> (case x of
        Inr a \<Rightarrow> settings_at (tbl s) i = Some a
      | Inl e \<Rightarrow> e = DbNotFound \<and> tbl s (settings_key i) = None \<or> transport e \<or> e = unmarshal_error)"
    and put_settings: "rp_UpdateSettings R i st s = (r, s') \<Longrightarrow> write_spec True (settings_key i)
      (Some (marshal_settings (settingsRecordFrom (createPK i) settingsSK st))) (tbl s) r (tbl s')"
    and update_partial: "rp_UpdateSettingsPartial R t i req v s = (r, s') \<Longrightarrow>
      optimistic i v (assign (settings_clauses t req @ [version_clause v])) (tbl s) r (tbl s')"
    and mutate_tags: "rp_MutateSettingsTags R i treq v s = (r, s') \<Longrightarrow> add = derefSlice (ut_Add treq) \<Longrightarrow>
      remove = derefSlice (ut_Remove treq) \<Longrightarrow>
      add = [] \<and> remove \<noteq> [] \<and> distinct remove \<or> remove = [] \<and> add \<noteq> [] \<and> distinct add \<Longrightarrow>
      optimistic i v (retag ssl v add remove) (tbl s) r (tbl s')"

lemma repository_settings_sel [simp]:
  "rp_GetSettings (db_repository r) = GetSettings r" "rp_UpdateSettings (db_repository r) = UpdateSettings r"
  "rp_UpdateSettingsPartial (db_repository r) = UpdateSettingsPartial r"
  "rp_MutateSettingsTags (db_repository r) = MutateSettingsTags r"
  by (simp_all add: db_repository_def)

sublocale dynamo \<subseteq> settings: settings_repository "db_repository r" tbl ssl
  by unfold_locales (unfold repository_settings_sel,
    (rule ssl_set GetSettings_spec UpdateSettings_spec UpdateSettingsPartial_spec MutateSettingsTags_spec, assumption+)+)

context dynamo
begin

lemma settings_laws: "settings_repository (db_repository r) tbl ssl"
  by (rule settings.settings_repository_axioms)

end

interpretation mem_settings: settings_repository "db_repository mem_repo" mem_tbl mem_ssl
  by (rule mem.settings_laws)

section \<open>Lemmas\<close>

lemma tags_of_settings:
  assumes "settings_at tb i = Some a" "tb (settings_key i) = Some it"
  shows "tags_of it \<subseteq> set (parseSlice (st_Tags a))"
proof -
  from assms obtain d where d: "unmarshal_settings it = Some d" "a = settings_toModel d"
    by (auto simp: settings_at_def)
  then have "field av_to_strs [] ''tags'' it = Some (sr_Tags d)" by (simp add: unmarshal_settings_iff)
  then show ?thesis
    unfolding d(2) tags_of_def
    by (cases "it ''tags''") (auto simp: field_def settings_toModel_def parseSlice_def ptrSlice_def split: av.splits)
qed

lemma expected_count_add: "finite T \<Longrightarrow> T \<subseteq> set current \<Longrightarrow> card (T \<union> set add) \<le> expectedTagCount current add []"
proof -
  assume T: "T \<subseteq> set current"
  have "T \<union> set add \<subseteq> set (remdups current) \<union> set (filter (\<lambda>t. t \<notin> set current) add)" using T by auto
  then have "card (T \<union> set add) \<le> card (set (remdups current) \<union> set (filter (\<lambda>t. t \<notin> set current) add))"
    by (rule card_mono [rotated]) simp
  also have "\<dots> \<le> card (set (remdups current)) + card (set (filter (\<lambda>t. t \<notin> set current) add))"
    by (rule card_Un_le)
  also have "\<dots> \<le> expectedTagCount current add []"
    using card_length [of "remdups current"] card_length [of "filter (\<lambda>t. t \<notin> set current) add"]
    by (simp add: expectedTagCount_def del: set_filter set_remdups)
  finally show ?thesis .
qed

lemma expected_count_remove: "T \<subseteq> set current \<Longrightarrow> card (T - set remove) \<le> expectedTagCount current [] remove"
proof -
  assume T: "T \<subseteq> set current"
  have "T - set remove \<subseteq> set (filter (\<lambda>t. t \<notin> set remove) (remdups current))" using T by auto
  then have "card (T - set remove) \<le> card (set (filter (\<lambda>t. t \<notin> set remove) (remdups current)))"
    by (rule card_mono [rotated]) simp
  also have "\<dots> \<le> expectedTagCount current [] remove"
    using card_length [of "filter (\<lambda>t. t \<notin> set remove) (remdups current)"]
    by (simp add: expectedTagCount_def del: set_filter)
  finally show ?thesis .
qed

lemma first_bad_tag_None: "first_bad_tag p ts = None \<longleftrightarrow> (\<forall>t \<in> set ts. tagRE t \<and> has_prefix p t)"
  by (induction ts) auto

lemma first_bad_tag_error: "first_bad_tag p ts = Some e \<Longrightarrow> e = ApiForbiddenNamespace"
  by (induction ts) (auto split: if_splits)


definition default_item :: "string \<Rightarrow> item" where
  "default_item i = marshal_settings (settingsRecordFrom (createPK i) settingsSK default_settings)"

lemma default_item_tags: "tags_of (default_item i) = {}"
  by (simp add: default_item_def tags_of_def marshal_settings_def settingsRecordFrom_def default_settings_def
      omitempty_def put_time_def derefSlice_def)

context settings_repository
begin

lemma load_settings_spec:
  assumes run: "load_settings sv i w = (x, w')" and sv: "sv_repo sv = R"
  shows "w_objs w' = w_objs w \<and> w_profiles w' = w_profiles w \<and> w_creds w' = w_creds w \<and> w_sent w' = w_sent w
    \<and> (tbl (w_db w') = tbl (w_db w) \<or> tbl (w_db w) (settings_key i) = None
          \<and> tbl (w_db w') = (tbl (w_db w))(settings_key i \<mapsto> default_item i))
    \<and> (\<forall>cur. x = Inr cur \<longrightarrow> settings_at (tbl (w_db w)) i = Some cur \<and> tbl (w_db w') = tbl (w_db w)
          \<or> tbl (w_db w) (settings_key i) = None \<and> cur = default_settings
            \<and> tbl (w_db w') = (tbl (w_db w))(settings_key i \<mapsto> default_item i))"
proof -
  obtain y d where g: "rp_GetSettings R i (w_db w) = (y, d)" by fastforce
  obtain e d' where p: "rp_UpdateSettings R i default_settings d = (e, d')" by fastforce
  note gl = get_settings [OF g]
  note pl = put_settings [OF p]
  show ?thesis
  proof (cases y)
    case (Inr a)
    with run g have "x = Inr a" "w' = w\<lparr>w_db := d\<rparr>" by (simp_all add: load_settings_def call_db_def sv)
    with gl Inr show ?thesis by simp
  next
    case (Inl f)
    show ?thesis
    proof (cases "f = DbNotFound")
      case False
      with run g Inl have "x = Inl f" "w' = w\<lparr>w_db := d\<rparr>"
        by (simp_all add: load_settings_def call_db_def sv isNotFound_def)
      with gl show ?thesis by simp
    next
      case True
      with run g Inl p have "x = (case e of Some e' \<Rightarrow> Inl e' | None \<Rightarrow> Inr default_settings)" "w' = w\<lparr>w_db := d'\<rparr>"
        by (auto simp: load_settings_def call_db_def sv isNotFound_def split: option.splits)
      with gl pl Inl True show ?thesis
        by (auto simp: write_spec_def default_item_def unmarshal_error_def split: option.splits)
    qed
  qed
qed

lemma UpdateSettingsTags_spec:
  assumes run: "UpdateSettingsTags sv i caller req w = (Inr st, w')" and sv: "sv_repo sv = R"
    and add: "add = derefSlice (ut_Add req)" and remove: "remove = derefSlice (ut_Remove req)"
    and one: "add = [] \<and> remove \<noteq> [] \<and> distinct remove \<or> remove = [] \<and> add \<noteq> [] \<and> distinct add"
  shows "\<exists>p it v cur. tagNamespaceMap caller = Some p \<and> (\<forall>t \<in> set add \<union> set remove. tagRE t \<and> has_prefix p t)
    \<and> (tbl (w_db w) (settings_key i) = Some it \<and> settings_at (tbl (w_db w)) i = Some cur
       \<or> tbl (w_db w) (settings_key i) = None \<and> it = default_item i \<and> cur = default_settings)
    \<and> tbl (w_db w') = (tbl (w_db w))(settings_key i \<mapsto> retag ssl v add remove it)
    \<and> settings_at (tbl (w_db w')) i = Some st
    \<and> expectedTagCount (parseSlice (st_Tags cur)) add remove \<le> 20"
proof -
  have ps: "parseSlice (ut_Add req) = add" "parseSlice (ut_Remove req) = remove"
    by (simp_all add: add remove parseSlice_def derefSlice_def)
  from run obtain p where p: "tagNamespaceMap caller = Some p"
    by (cases "tagNamespaceMap caller") (simp_all add: UpdateSettingsTags_def)
  from run p have val: "validateTagNamespace p add remove = None"
    by (cases "validateTagNamespace p add remove") (simp_all add: UpdateSettingsTags_def ps)
  obtain x w1 where l: "load_settings sv i w = (x, w1)" by fastforce
  from run p val l obtain cur where cur: "x = Inr cur"
    by (cases x) (simp_all add: UpdateSettingsTags_def ps)
  from run p val l cur have cnt: "expectedTagCount (parseSlice (st_Tags cur)) add remove \<le> 20"
    by (simp add: UpdateSettingsTags_def ps not_le [symmetric] split: if_splits)
  obtain e d where m: "rp_MutateSettingsTags R i req (deref 0 (ut_Version req)) (w_db w1) = (e, d)" by fastforce
  from run p val l cur cnt m have e: "e = None"
    by (cases e) (simp_all add: UpdateSettingsTags_def ps call_db_def sv)
  obtain y d' where g: "rp_GetSettings R i d = (y, d')" by fastforce
  from run p val l cur cnt m e g have y: "y = Inr st" "w_db w' = d'"
    by (auto simp: UpdateSettingsTags_def ps call_db_def sv)
  from mutate_tags [OF m add remove one] e obtain it where
    it: "tbl (w_db w1) (settings_key i) = Some it"
      "tbl d = (tbl (w_db w1))(settings_key i \<mapsto> retag ssl (deref 0 (ut_Version req)) add remove it)"
    by (auto simp: optimistic_def)
  from get_settings [OF g] y have g': "tbl d' = tbl d" "settings_at (tbl d) i = Some st" by simp_all
  have "settings_at (tbl (w_db w)) i = Some cur \<and> tbl (w_db w1) = tbl (w_db w)
      \<or> tbl (w_db w) (settings_key i) = None \<and> cur = default_settings
        \<and> tbl (w_db w1) = (tbl (w_db w))(settings_key i \<mapsto> default_item i)"
    using load_settings_spec [OF l sv] cur by simp
  then have "tbl (w_db w) (settings_key i) = Some it
      \<and> settings_at (tbl (w_db w)) i = Some cur \<and> tbl d = (tbl (w_db w))(settings_key i \<mapsto> retag ssl (deref 0 (ut_Version req)) add remove it)
    \<or> tbl (w_db w) (settings_key i) = None \<and> it = default_item i \<and> cur = default_settings
      \<and> tbl d = (tbl (w_db w))(settings_key i \<mapsto> retag ssl (deref 0 (ut_Version req)) add remove it)"
    using it by (elim disjE conjE) simp_all
  moreover have "\<forall>t \<in> set add \<union> set remove. tagRE t \<and> has_prefix p t"
    using val first_bad_tag_None [of p "add @ remove"] by (simp add: validateTagNamespace_def)
  ultimately show ?thesis using p cnt g' y by metis
qed

lemma UpdateSettings_svc_spec:
  assumes run: "UpdateSettings_svc sv i req w = (x, w')" and sv: "sv_repo sv = R"
  shows "w_objs w' = w_objs w \<and> w_profiles w' = w_profiles w \<and> w_creds w' = w_creds w \<and> w_sent w' = w_sent w"
    and "(\<exists>s. us_Status req = Some s \<and> to_lower s \<notin> {''active'', ''suspended'', ''closed''}) \<and> x = Inl ApiInvalidInput \<and> w' = w
      \<or> (\<exists>e. \<exists>t \<in> range (env_UTC (sv_env sv)). optimistic i (deref 0 (us_Version req))
            (assign (settings_clauses t req @ [version_clause (deref 0 (us_Version req))])) (tbl (w_db w)) e (tbl (w_db w'))
          \<and> (case e of Some y \<Rightarrow> x = Inl (version_error y)
            | None \<Rightarrow> (case x of Inr a \<Rightarrow> settings_at (tbl (w_db w')) i = Some a | Inl y \<Rightarrow> transport y \<or> y = unmarshal_error \<or> y = DbNotFound)))"
proof -
  show "w_objs w' = w_objs w \<and> w_profiles w' = w_profiles w \<and> w_creds w' = w_creds w \<and> w_sent w' = w_sent w"
    using run by (auto simp: UpdateSettings_svc_def call_db_def utc_now_def now_def Let_def
        split: option.splits prod.splits)
  show "(\<exists>s. us_Status req = Some s \<and> to_lower s \<notin> {''active'', ''suspended'', ''closed''}) \<and> x = Inl ApiInvalidInput \<and> w' = w
      \<or> (\<exists>e. \<exists>t \<in> range (env_UTC (sv_env sv)). optimistic i (deref 0 (us_Version req))
            (assign (settings_clauses t req @ [version_clause (deref 0 (us_Version req))])) (tbl (w_db w)) e (tbl (w_db w'))
          \<and> (case e of Some y \<Rightarrow> x = Inl (version_error y)
            | None \<Rightarrow> (case x of Inr a \<Rightarrow> settings_at (tbl (w_db w')) i = Some a | Inl y \<Rightarrow> transport y \<or> y = unmarshal_error \<or> y = DbNotFound)))"
  proof (cases "Option.bind (us_Status req) validateStatus")
    case (Some e)
    then have "(\<exists>s. us_Status req = Some s \<and> to_lower s \<notin> {''active'', ''suspended'', ''closed''}) \<and> e = ApiInvalidInput"
      by (auto simp: bind_eq_Some_conv validateStatus_def split: if_splits)
    with Some run show ?thesis by (simp add: UpdateSettings_svc_def)
  next
    case None
    obtain t w1 where c: "utc_now sv w = (t, w1)" by fastforce
    have t: "t \<in> range (env_UTC (sv_env sv))" using c by (auto simp: utc_now_def now_def)
    obtain e d where m: "rp_UpdateSettingsPartial R t i req (deref 0 (us_Version req)) (w_db w1) = (e, d)" by fastforce
    obtain y d' where g: "rp_GetSettings R i d = (y, d')" by fastforce
    note ml = update_partial [OF m] and gl = get_settings [OF g]
    have w1: "w_db w1 = w_db w" using clock_fields(2) [OF c] by simp
    show ?thesis
    proof (cases e)
      case (Some f)
      with run None c m have "x = Inl (version_error f)" "w' = w1\<lparr>w_db := d\<rparr>"
        by (simp_all add: UpdateSettings_svc_def call_db_def sv)
      with Some t ml w1 show ?thesis by (intro disjI2 exI [of _ e] bexI [of _ t]) simp_all
    next
      case none: None
      with run None c m g have "x = y" "w_db w' = d'"
        by (auto simp: UpdateSettings_svc_def call_db_def sv)
      with none t ml gl w1 show ?thesis
        by (intro disjI2 exI [of _ e] bexI [of _ t]) (auto split: sum.splits)
    qed
  qed
qed

end

section \<open>Properties\<close>

definition tags_at :: "table \<Rightarrow> string \<Rightarrow> string set" where
  "tags_at tb i = (case tb (settings_key i) of None \<Rightarrow> {} | Some it \<Rightarrow> tags_of it)"

text \<open>C13 (UpdateSettingsTags). A service changes tags only in its own namespace: a request from an unknown
  service, or with a malformed or foreign tag, is refused before anything is read or written. A
  successful request has exactly its set effect, leaves at most 20 tags on the account, touches
  no tag of another namespace and no other item, and returns the stored settings.\<close>

theorem UpdateSettingsTags_correct:
  assumes "dynamo r tbl ssl fits" and "sv_repo sv = db_repository r"
    and "UpdateSettingsTags sv i caller req w = (x, w')"
    and "add = derefSlice (ut_Add req)" and "remove = derefSlice (ut_Remove req)"
    and "add = [] \<and> remove \<noteq> [] \<and> distinct remove \<or> remove = [] \<and> add \<noteq> [] \<and> distinct add"
  shows "(\<not> (\<exists>p. tagNamespaceMap caller = Some p \<and> (\<forall>t \<in> set add \<union> set remove. tagRE t \<and> has_prefix p t))
      \<longrightarrow> x = Inl ApiForbiddenNamespace \<and> w' = w)
    \<and> (\<forall>st. x = Inr st \<longrightarrow> (\<exists>p. tagNamespaceMap caller = Some p
        \<and> tags_at (tbl (w_db w')) i = tags_at (tbl (w_db w)) i \<union> set add - set remove
        \<and> card (tags_at (tbl (w_db w')) i) \<le> 20
        \<and> (\<forall>t. \<not> has_prefix p t \<longrightarrow> t \<in> tags_at (tbl (w_db w')) i \<longleftrightarrow> t \<in> tags_at (tbl (w_db w)) i)
        \<and> (\<forall>k. k \<noteq> settings_key i \<longrightarrow> tbl (w_db w') k = tbl (w_db w) k)
        \<and> settings_at (tbl (w_db w')) i = Some st))"
proof (intro conjI impI allI)
  assume "\<not> (\<exists>p. tagNamespaceMap caller = Some p \<and> (\<forall>t \<in> set add \<union> set remove. tagRE t \<and> has_prefix p t))"
  then show "x = Inl ApiForbiddenNamespace" "w' = w"
    using assms(3) first_bad_tag_error first_bad_tag_None [of _ "add @ remove"]
    by (auto simp: UpdateSettingsTags_def assms(4,5) parseSlice_def derefSlice_def validateTagNamespace_def
        split: option.splits)
next
  fix st assume "x = Inr st"
  then have run: "UpdateSettingsTags sv i caller req w = (Inr st, w')" using assms(3) by simp
  from settings_repository.UpdateSettingsTags_spec [OF dynamo.settings_laws [OF assms(1)] run assms(2,4-6)]
  obtain p it v cur where p: "tagNamespaceMap caller = Some p" "\<forall>t \<in> set add \<union> set remove. tagRE t \<and> has_prefix p t"
    and it: "tbl (w_db w) (settings_key i) = Some it \<and> settings_at (tbl (w_db w)) i = Some cur
       \<or> tbl (w_db w) (settings_key i) = None \<and> it = default_item i \<and> cur = default_settings"
    and new: "tbl (w_db w') = (tbl (w_db w))(settings_key i \<mapsto> retag ssl v add remove it)"
      "settings_at (tbl (w_db w')) i = Some st"
    and cnt: "expectedTagCount (parseSlice (st_Tags cur)) add remove \<le> 20" by blast
  note ssl = dynamo.ssl_set [OF assms(1)]
  have T: "tags_at (tbl (w_db w)) i = tags_of it" "tags_of it \<subseteq> set (parseSlice (st_Tags cur))"
    using it tags_of_settings [of "tbl (w_db w)" i cur it] by (auto simp: tags_at_def default_item_tags)
  have T': "tags_at (tbl (w_db w')) i = tags_of it \<union> set add - set remove"
    using assms(6) retag_add(1) [OF ssl] retag_remove(1) [OF ssl] by (auto simp: tags_at_def new(1))
  have "card (tags_of it \<union> set add - set remove) \<le> expectedTagCount (parseSlice (st_Tags cur)) add remove"
    using assms(6) expected_count_add [OF _ T(2), of add] expected_count_remove [OF T(2), of remove]
      finite_subset [OF T(2)] by auto
  with cnt have "card (tags_at (tbl (w_db w')) i) \<le> 20" unfolding T' by linarith
  with p T T' new show "\<exists>p. tagNamespaceMap caller = Some p
        \<and> tags_at (tbl (w_db w')) i = tags_at (tbl (w_db w)) i \<union> set add - set remove
        \<and> card (tags_at (tbl (w_db w')) i) \<le> 20
        \<and> (\<forall>t. \<not> has_prefix p t \<longrightarrow> t \<in> tags_at (tbl (w_db w')) i \<longleftrightarrow> t \<in> tags_at (tbl (w_db w)) i)
        \<and> (\<forall>k. k \<noteq> settings_key i \<longrightarrow> tbl (w_db w') k = tbl (w_db w) k)
        \<and> settings_at (tbl (w_db w')) i = Some st"
    by (intro exI [of _ p]) auto
qed

lemma UpdateSettingsTags_correct_witness:
  "\<exists>st w'. UpdateSettingsTags sample_sv ''a1'' ''loyalty-api'' sample_tags (sample_world sample_mem) = (Inr st, w')
    \<and> ''loyalty.gold'' \<in> tags_at (mem_tbl (w_db w')) ''a1''"
proof -
  have "\<not> isl (fst (UpdateSettingsTags sample_sv ''a1'' ''loyalty-api'' sample_tags (sample_world sample_mem)))"
    by code_simp
  then obtain st w' where run: "UpdateSettingsTags sample_sv ''a1'' ''loyalty-api'' sample_tags (sample_world sample_mem)
      = (Inr st, w')" by (metis isl_def prod.collapse sum.collapse(2))
  have a: "[''loyalty.gold''] = derefSlice (ut_Add sample_tags)" "[] = derefSlice (ut_Remove sample_tags)"
    by (simp_all add: sample_tags_def derefSlice_def)
  from UpdateSettingsTags_correct [OF mem.dynamo_axioms sample_sv_simps(1) run a] run show ?thesis by auto
qed

text \<open>C32 (tags before registration). A tag request for an identifier without a profile succeeds and
  leaves a settings item behind; from then on every registration of that identifier is refused.\<close>

theorem UpdateSettingsTags_blocks_registration:
  assumes "dynamo r tbl ssl fits" and "sv_repo sv = db_repository r"
    and "tbl (w_db w) (profile_key i) = None" and "tbl (w_db w) (settings_key i) = None"
    and "UpdateSettingsTags sv i caller req w = (Inr st, w')"
    and "add = derefSlice (ut_Add req)" and "remove = derefSlice (ut_Remove req)"
    and "add = [] \<and> remove \<noteq> [] \<and> distinct remove \<or> remove = [] \<and> add \<noteq> [] \<and> distinct add"
  shows "tbl (w_db w') (profile_key i) = None \<and> tbl (w_db w') (settings_key i) \<noteq> None
    \<and> (\<forall>car y w''. CreateAccount_svc sv i car w' = (y, w'') \<longrightarrow> isl y \<and> tbl (w_db w'') = tbl (w_db w'))"
proof -
  from settings_repository.UpdateSettingsTags_spec [OF dynamo.settings_laws [OF assms(1)] assms(5,2,6-8)]
  obtain it v where new: "tbl (w_db w') = (tbl (w_db w))(settings_key i \<mapsto> retag ssl v add remove it)" by blast
  have "isl y \<and> tbl (w_db w'') = tbl (w_db w')" if "CreateAccount_svc sv i car w' = (y, w'')" for car y w''
    using account_repository.CreateAccount_svc_spec [OF dynamo.account_laws [OF assms(1)] that assms(2)]
    by (cases y) (auto simp: free_def new)
  with assms(3) new show ?thesis by simp
qed

lemma UpdateSettingsTags_blocks_registration_witness:
  "\<exists>st w'. UpdateSettingsTags sample_sv ''a1'' ''loyalty-api'' sample_tags (sample_world empty_mem) = (Inr st, w')
    \<and> isl (fst (CreateAccount_svc sample_sv ''a1'' sample_request w'))"
proof -
  have "\<not> isl (fst (UpdateSettingsTags sample_sv ''a1'' ''loyalty-api'' sample_tags (sample_world empty_mem)))"
    by code_simp
  then obtain st w' where run: "UpdateSettingsTags sample_sv ''a1'' ''loyalty-api'' sample_tags (sample_world empty_mem)
      = (Inr st, w')" by (metis isl_def prod.collapse sum.collapse(2))
  have a: "[''loyalty.gold''] = derefSlice (ut_Add sample_tags)" "[] = derefSlice (ut_Remove sample_tags)"
    by (simp_all add: sample_tags_def derefSlice_def)
  have n: "mem_tbl (w_db (sample_world empty_mem)) k = None" for k by (simp add: mem_tbl_def empty_mem_def)
  from UpdateSettingsTags_blocks_registration [OF mem.dynamo_axioms sample_sv_simps(1) n n run a] run
  show ?thesis by (metis distinct_singleton list.distinct(1) prod.collapse)
qed

text \<open>What a settings update through the service does.\<close>

lemma UpdateSettings_svc_result:
  assumes "dynamo r tbl ssl fits" and "sv_repo sv = db_repository r"
    and "\<forall>n. valid_time (env_UTC (sv_env sv) n)"
    and "valid_time_opt (us_EmailVerifiedAt req)" and "valid_time_opt (us_PhoneVerifiedAt req)"
    and "settings_at (tbl (w_db w)) i = Some a"
    and "UpdateSettings_svc sv i req w = (x, w')"
  shows "w_creds w' = w_creds w
    \<and> (\<forall>s. us_Status req = Some s \<and> to_lower s \<notin> {''active'', ''suspended'', ''closed''}
         \<longrightarrow> x = Inl ApiInvalidInput \<and> w' = w)
    \<and> (\<forall>b. x = Inr b \<longrightarrow> version_is (tbl (w_db w)) i (deref 0 (us_Version req))
         \<and> (\<exists>t. b = updated_settings t req a) \<and> settings_at (tbl (w_db w')) i = Some b
         \<and> (\<forall>k. k \<noteq> settings_key i \<longrightarrow> tbl (w_db w') k = tbl (w_db w) k))
    \<and> (x = Inl ApiVersionConflict \<longrightarrow> \<not> version_is (tbl (w_db w)) i (deref 0 (us_Version req))
         \<and> tbl (w_db w') = tbl (w_db w))"
proof -
  note sp = settings_repository.UpdateSettings_svc_spec [OF dynamo.settings_laws [OF assms(1)] assms(7,2)]
  let ?v = "deref 0 (us_Version req)"
  have bad: "x = Inl ApiInvalidInput \<and> w' = w"
    if "us_Status req = Some s" "to_lower s \<notin> {''active'', ''suspended'', ''closed''}" for s
    using assms(7) that by (auto simp: UpdateSettings_svc_def validateStatus_def)
  show ?thesis
  proof (cases "x = Inl ApiInvalidInput \<and> w' = w")
    case True
    with bad show ?thesis by auto
  next
    case False
    with sp(2) obtain e t where t: "t \<in> range (env_UTC (sv_env sv))"
      and o: "optimistic i ?v (assign (settings_clauses t req @ [version_clause ?v])) (tbl (w_db w)) e (tbl (w_db w'))"
      and x: "case e of Some y \<Rightarrow> x = Inl (version_error y)
            | None \<Rightarrow> (case x of Inr a \<Rightarrow> settings_at (tbl (w_db w')) i = Some a | Inl y \<Rightarrow> transport y \<or> y = unmarshal_error \<or> y = DbNotFound)" by blast
    have vt: "valid_time t" using t assms(3) by auto
    have good: "version_is (tbl (w_db w)) i ?v \<and> b = updated_settings t req a \<and> settings_at (tbl (w_db w')) i = Some b
         \<and> (\<forall>k. k \<noteq> settings_key i \<longrightarrow> tbl (w_db w') k = tbl (w_db w) k)" if "x = Inr b" for b
    proof -
      from that x have "e = None" and b: "settings_at (tbl (w_db w')) i = Some b" by (auto split: option.splits)
      with o obtain it where it: "tbl (w_db w) (settings_key i) = Some it" "version_is (tbl (w_db w)) i ?v"
        "tbl (w_db w') = (tbl (w_db w))(settings_key i \<mapsto> assign (settings_clauses t req @ [version_clause ?v]) it)"
        by (auto simp: optimistic_def)
      from settings_at_updated [OF vt assms(4,5,6) it(2,1)] it(2,3) b show ?thesis by auto
    qed
    have "\<not> version_is (tbl (w_db w)) i ?v \<and> tbl (w_db w') = tbl (w_db w)" if "x = Inl ApiVersionConflict"
    proof -
      from that x obtain f where "e = Some f" "version_error f = ApiVersionConflict"
        by (cases e) (auto simp: unmarshal_error_def)
      moreover from this have "\<not> transport f" "f \<noteq> unmarshal_error" "f \<noteq> DbNotFound"
        by (auto simp: version_error_def transport_iff unmarshal_error_def isNotFound_def split: if_splits)
      ultimately show ?thesis using o unfolding optimistic_def by auto
    qed
    with good sp(1) bad show ?thesis by blast
  qed
qed

text \<open>C33 (UpdateSettings). A settings update through the service is refused on an unknown status before
  anything is touched; on success it returns the stored settings, with exactly the given fields
  replaced and the version one higher, and the expected version was the stored one; a version
  conflict is reported only on a different version. In every case the cache of credentials stays as it
  was, so a sign-in lookup answered from it keeps the old status until the entry expires.\<close>

theorem UpdateSettings_svc_correct:
  assumes "dynamo r tbl ssl fits" and "sv_repo sv = db_repository r"
    and "\<forall>n. valid_time (env_UTC (sv_env sv) n)"
    and "valid_time_opt (us_EmailVerifiedAt req)" and "valid_time_opt (us_PhoneVerifiedAt req)"
    and "settings_at (tbl (w_db w)) i = Some a"
    and "UpdateSettings_svc sv i req w = (x, w')"
  shows "w_creds w' = w_creds w
    \<and> (\<forall>s. us_Status req = Some s \<and> to_lower s \<notin> {''active'', ''suspended'', ''closed''}
         \<longrightarrow> x = Inl ApiInvalidInput \<and> w' = w)
    \<and> (\<forall>b. x = Inr b \<longrightarrow> version_is (tbl (w_db w)) i (deref 0 (us_Version req))
         \<and> (\<exists>t. b = updated_settings t req a) \<and> settings_at (tbl (w_db w')) i = Some b
         \<and> (\<forall>k. k \<noteq> settings_key i \<longrightarrow> tbl (w_db w') k = tbl (w_db w) k))
    \<and> (x = Inl ApiVersionConflict \<longrightarrow> \<not> version_is (tbl (w_db w)) i (deref 0 (us_Version req))
         \<and> tbl (w_db w') = tbl (w_db w))"
  by (rule UpdateSettings_svc_result [OF assms])

lemma UpdateSettings_svc_correct_witness:
  "\<exists>b w'. UpdateSettings_svc sample_sv ''a1'' sample_settings_update (sample_world sample_mem) = (Inr b, w')
    \<and> settings_at (mem_tbl (w_db w')) ''a1'' = Some b \<and> st_Status b = ''suspended''"
proof -
  have "\<not> isl (fst (UpdateSettings_svc sample_sv ''a1'' sample_settings_update (sample_world sample_mem)))" by code_simp
  then obtain b w' where run: "UpdateSettings_svc sample_sv ''a1'' sample_settings_update (sample_world sample_mem)
      = (Inr b, w')" by (metis isl_def prod.collapse sum.collapse(2))
  have o: "valid_time_opt (us_EmailVerifiedAt sample_settings_update)"
    "valid_time_opt (us_PhoneVerifiedAt sample_settings_update)" by code_simp+
  from UpdateSettings_svc_correct [OF mem.dynamo_axioms sample_sv_simps(1) _ o _ run] sample_settings run
  show ?thesis by (auto simp: updated_settings_def sample_settings_update_def)
qed

end
