(* ===== verification/Resource_Svc.thy ===== *)
theory Resource_Svc
  imports Settings_Svc
begin

text \<open>
  The service halves of \<open>address.go\<close>, \<open>payments.go\<close>, \<open>passkey.go\<close> and \<open>preferences.go\<close> in
  \<open>internal/api\<close>, and the export of \<open>export.go\<close>: thin layers over the repository that translate its
  errors, keep one default per kind, and gather an account's data into one document.
\<close>

section \<open>Addresses\<close>

definition GetAddresses :: "('d, 'o) service \<Rightarrow> string \<Rightarrow> ('d, 'o) world \<Rightarrow> (error + address list) \<times> ('d, 'o) world" where
  "GetAddresses sv accountID w = (case call_db (rp_GetAccountAddresses (sv_repo sv) accountID) w of
     (Inl e, w1) \<Rightarrow> (Inl (if isNotFound e then ApiNotFound else e), w1)
   | (Inr addrs, w1) \<Rightarrow> (Inr addrs, w1))"

text \<open>The repository stores the new identifier in the address it is given, which is also the one the
  handler sends back.\<close>

definition AddAddress :: "('d, 'o) service \<Rightarrow> string \<Rightarrow> address \<Rightarrow> ('d, 'o) world
    \<Rightarrow> (error option \<times> address) \<times> ('d, 'o) world" where
  "AddAddress sv accountID addr w = (case new_ksuid sv w of (fresh, w0) \<Rightarrow>
     (case call_db (rp_CreateAddress (sv_repo sv) fresh accountID addr) w0 of
        ((Some e, addr'), w1) \<Rightarrow> ((Some (if e = DbAlreadyExists then ApiAlreadyExists else e), addr'), w1)
      | ((None, addr'), w1) \<Rightarrow>
          if ad_IsDefault addr'
          then case utc_now sv w1 of (t, w2) \<Rightarrow>
            (case call_db (rp_SetAddressDefault (sv_repo sv) t accountID (ad_AddressId addr')) w2 of
               (e, w3) \<Rightarrow> ((e, addr'), w3))
          else ((None, addr'), w1)))"

definition UpdateAddress_svc :: "('d, 'o) service \<Rightarrow> string \<Rightarrow> string \<Rightarrow> update_address_request \<Rightarrow> ('d, 'o) world
    \<Rightarrow> error option \<times> ('d, 'o) world" where
  "UpdateAddress_svc sv accountID addressID req w =
     (case call_db (rp_UpdateAddress (sv_repo sv) accountID addressID req) w of
        (Some e, w1) \<Rightarrow> (Some (if isNotFound e then ApiNotFound else e), w1)
      | (None, w1) \<Rightarrow>
          if ud_IsDefault req = Some True
          then case utc_now sv w1 of (t, w2) \<Rightarrow> call_db (rp_SetAddressDefault (sv_repo sv) t accountID addressID) w2
          else (None, w1))"

definition DeleteAddress_svc :: "('d, 'o) service \<Rightarrow> string \<Rightarrow> string \<Rightarrow> ('d, 'o) world
    \<Rightarrow> error option \<times> ('d, 'o) world" where
  "DeleteAddress_svc sv accountID addressID w =
     (case call_db (rp_DeleteAddress (sv_repo sv) accountID addressID) w of
        (Some e, w1) \<Rightarrow> (Some (if isNotFound e then ApiNotFound else e), w1)
      | (None, w1) \<Rightarrow> (None, w1))"

section \<open>Payment methods\<close>

definition GetPayments :: "('d, 'o) service \<Rightarrow> string \<Rightarrow> ('d, 'o) world
    \<Rightarrow> (error + payment_method list) \<times> ('d, 'o) world" where
  "GetPayments sv accountID w = (case call_db (rp_ListPayments (sv_repo sv) accountID) w of
     (Inl e, w1) \<Rightarrow> (Inl (if isNotFound e then ApiNotFound else e), w1)
   | (Inr methods, w1) \<Rightarrow> (Inr methods, w1))"

definition UpsertPayment_svc :: "('d, 'o) service \<Rightarrow> string \<Rightarrow> payment_method \<Rightarrow> ('d, 'o) world
    \<Rightarrow> (error option \<times> payment_method) \<times> ('d, 'o) world" where
  "UpsertPayment_svc sv accountID pm w = (case new_ksuid sv w of (fresh, w0) \<Rightarrow>
     (case call_db (rp_UpsertPayment (sv_repo sv) fresh accountID pm) w0 of
        ((Some e, pm'), w1) \<Rightarrow> ((Some (if e = DbAlreadyExists then ApiAlreadyExists
                                else if isNotFound e then ApiNotFound else e), pm'), w1)
      | ((None, pm'), w1) \<Rightarrow>
          if pm_IsDefault pm'
          then case utc_now sv w1 of (t, w2) \<Rightarrow>
            (case call_db (rp_SetPaymentDefault (sv_repo sv) t accountID (pm_PaymentId pm')) w2 of
               (e, w3) \<Rightarrow> ((e, pm'), w3))
          else ((None, pm'), w1)))"

definition DeletePayment_svc :: "('d, 'o) service \<Rightarrow> string \<Rightarrow> string \<Rightarrow> ('d, 'o) world
    \<Rightarrow> error option \<times> ('d, 'o) world" where
  "DeletePayment_svc sv accountID paymentID w =
     (case call_db (rp_DeletePayment (sv_repo sv) accountID paymentID) w of
        (Some e, w1) \<Rightarrow> (Some (if isNotFound e then ApiNotFound else e), w1)
      | (None, w1) \<Rightarrow> (None, w1))"

section \<open>Passkeys\<close>

definition GetPasskeys :: "('d, 'o) service \<Rightarrow> string \<Rightarrow> ('d, 'o) world
    \<Rightarrow> (error + passkey_credential list) \<times> ('d, 'o) world" where
  "GetPasskeys sv accountID w = (case call_db (rp_GetAccountPasskeys (sv_repo sv) accountID) w of
     (Inl e, w1) \<Rightarrow> (Inl (if isNotFound e then ApiNotFound else e), w1)
   | (Inr creds, w1) \<Rightarrow> (Inr creds, w1))"

definition AddPasskey :: "('d, 'o) service \<Rightarrow> string \<Rightarrow> passkey_credential \<Rightarrow> ('d, 'o) world
    \<Rightarrow> (error option \<times> passkey_credential) \<times> ('d, 'o) world" where
  "AddPasskey sv accountID cred w = (case utc_now sv w of (t, w0) \<Rightarrow>
     (case call_db (rp_CreatePasskey (sv_repo sv) t accountID cred) w0 of
        ((Some e, cred'), w1) \<Rightarrow>
          ((Some (if e = DbPasskeyAlreadyExists then ApiPasskeyAlreadyExists else e), cred'), w1)
      | ((None, cred'), w1) \<Rightarrow> ((None, cred'), w1)))"

definition UpdatePasskey_svc :: "('d, 'o) service \<Rightarrow> string \<Rightarrow> string \<Rightarrow> passkey_credential \<Rightarrow> ('d, 'o) world
    \<Rightarrow> (error + passkey_credential) \<times> ('d, 'o) world" where
  "UpdatePasskey_svc sv accountID credentialID update w =
     (case call_db (rp_UpdatePasskey (sv_repo sv) accountID credentialID update) w of
        (Inl e, w1) \<Rightarrow> (Inl (if e = DbPasskeySignCountRegression then ApiPasskeySignCountRegression
                        else if isNotFound e then ApiNotFound else e), w1)
      | (Inr cred, w1) \<Rightarrow> (Inr cred, w1))"

definition DeletePasskey_svc :: "('d, 'o) service \<Rightarrow> string \<Rightarrow> string \<Rightarrow> ('d, 'o) world
    \<Rightarrow> error option \<times> ('d, 'o) world" where
  "DeletePasskey_svc sv accountID credentialID w =
     (case call_db (rp_DeletePasskey (sv_repo sv) accountID credentialID) w of
        (Some e, w1) \<Rightarrow> (Some (if isNotFound e then ApiNotFound else e), w1)
      | (None, w1) \<Rightarrow> (None, w1))"

section \<open>Preferences\<close>

definition GetPreferences :: "('d, 'o) service \<Rightarrow> string \<Rightarrow> ('d, 'o) world \<Rightarrow> (error + preferences) \<times> ('d, 'o) world" where
  "GetPreferences sv accountID w = (case call_db (rp_GetAccountPreferences (sv_repo sv) accountID) w of
     (Inl e, w1) \<Rightarrow> (Inl (if isNotFound e then ApiNotFound else e), w1)
   | (Inr prefs, w1) \<Rightarrow> (Inr prefs, w1))"

definition UpdatePreferences :: "('d, 'o) service \<Rightarrow> string \<Rightarrow> preferences \<Rightarrow> ('d, 'o) world
    \<Rightarrow> error option \<times> ('d, 'o) world" where
  "UpdatePreferences sv accountID req w =
     (if (case pr_Communication req of None \<Rightarrow> False
          | Some m \<Rightarrow> list_ex (\<lambda>kb. \<not> ValidCommunicationChannels (fst kb)) m)
      then (Some ApiInvalidCommunicationChannel, w)
      else case call_db (rp_UpdateAccountPreferences (sv_repo sv) accountID req) w of
        (Some e, w1) \<Rightarrow> (Some (if isNotFound e then ApiNotFound else e), w1)
      | (None, w1) \<Rightarrow> (None, w1))"

section \<open>Export\<close>

record profile_export_data =
  xd_settings :: "account_settings option"
  xd_prefs :: "preferences option"
  xd_addrs :: "address list"
  xd_payments :: "payment_method list"
  xd_consentHistory :: "consent_log list"
  xd_passkeys :: "passkey_credential list"

text \<open>A part that is not found is left out of the export; any other error ends it.\<close>

definition gather :: "(error + 'a) \<times> 'w \<Rightarrow> ('a option \<Rightarrow> 'w \<Rightarrow> (error + 'b) \<times> 'w) \<Rightarrow> (error + 'b) \<times> 'w" where
  "gather r next = (case r of
     (Inl e, w) \<Rightarrow> if \<not> isNotFound e then (Inl e, w) else next None w
   | (Inr x, w) \<Rightarrow> next (Some x) w)"

definition gatherProfileExportData :: "('d, 'o) service \<Rightarrow> string \<Rightarrow> ('d, 'o) world
    \<Rightarrow> (error + profile_export_data) \<times> ('d, 'o) world" where
  "gatherProfileExportData sv accountID w =
     gather (call_db (rp_GetSettings (sv_repo sv) accountID) w) (\<lambda>settings w1.
     gather (call_db (rp_GetAccountPreferences (sv_repo sv) accountID) w1) (\<lambda>prefs w2.
     gather (call_db (rp_GetAccountAddresses (sv_repo sv) accountID) w2) (\<lambda>addrs w3.
     gather (call_db (rp_ListPayments (sv_repo sv) accountID) w3) (\<lambda>payments w4.
     gather (call_db (rp_ListConsentHistory (sv_repo sv) accountID) w4) (\<lambda>consentHistory w5.
     gather (call_db (rp_GetAccountPasskeys (sv_repo sv) accountID) w5) (\<lambda>passkeys w6.
       (Inr \<lparr>xd_settings = settings, xd_prefs = prefs, xd_addrs = opt_or [] addrs,
          xd_payments = opt_or [] payments, xd_consentHistory = opt_or [] consentHistory,
          xd_passkeys = opt_or [] passkeys\<rparr>, w6)))))))"

definition passkey_export_of :: "passkey_credential \<Rightarrow> passkey_export" where
  "passkey_export_of pk = \<lparr>px_CredentialID = pk_CredentialId pk, px_SignCount = pk_SignCount pk,
     px_Transports = opt_or [] (pk_Transports pk), px_AAGUID = opt_or [] (pk_Aaguid pk),
     px_BackupEligible = pk_BackupEligible pk, px_BackupState = pk_BackupState pk,
     px_CreatedAt = pk_CreatedAt pk, px_LastUsedAt = pk_LastUsedAt pk\<rparr>"

record export_profile_response =
  er_DownloadUrl :: "string option"
  er_ExpiresAt :: "gtime option"
  er_ExportId :: "string option"

text \<open>The document is handed to S3 as the record that the code marshals.\<close>

definition ExportProfile :: "('d, 'o) service \<Rightarrow> string \<Rightarrow> ('d, 'o) world
    \<Rightarrow> (error + export_profile_response) \<times> ('d, 'o) world" where
  "ExportProfile sv accountID w = (case sv_s3 sv of
     None \<Rightarrow> (Inl (GoError ''export not configured''), w)
   | Some s3 \<Rightarrow> (case call_db (rp_GetAccount (sv_repo sv) accountID) w of
       (Inl e, w1) \<Rightarrow> (Inl (if isNotFound e then ApiNotFound else e), w1)
     | (Inr profile, w1) \<Rightarrow> (case gatherProfileExportData sv accountID w1 of
         (Inl e, w2) \<Rightarrow> (Inl e, w2)
       | (Inr d, w2) \<Rightarrow>
           (let export = \<lparr>ex_Profile = profile, ex_Settings = xd_settings d, ex_Preferences = xd_prefs d,
                  ex_Addresses = xd_addrs d, ex_Payments = xd_payments d,
                  ex_ConsentHistory = xd_consentHistory d,
                  ex_Passkeys = map passkey_export_of (xd_passkeys d)\<rparr>
            in case new_ksuid sv w2 of (exportID, w3) \<Rightarrow>
              (let key = ''exports/'' @ accountID @ ''/'' @ exportID @ ''.json'' in
               case call_s3 (s3_PutObject s3 (sv_exportBucket sv) key export ''application/json'') w3 of
                 (Some e, w4) \<Rightarrow> (Inl e, w4)
               | (None, w4) \<Rightarrow> (case call_s3 (s3_PresignGet s3 (sv_exportBucket sv) key (sv_presignTTL sv)) w4 of
                   (Inl e, w5) \<Rightarrow> (Inl e, w5)
                 | (Inr downloadURL, w5) \<Rightarrow> (case now sv w5 of (t, w6) \<Rightarrow>
                     (Inr \<lparr>er_DownloadUrl = Some downloadURL,
                        er_ExpiresAt = Some (env_UTC (sv_env sv) (t + sv_presignTTL sv)),
                        er_ExportId = Some exportID\<rparr>, w6))))))))"

end
