(* ===== verification/Defaults_Svc.thy ===== *)
theory Defaults_Svc
  imports Resource_Svc
begin

text \<open>
  One default per kind. \<open>AddAddress\<close> and \<open>UpsertPayment\<close> first store the item, with its flag, and then move the
  flag with a second call; the locale \<open>default_keeper\<close> is what they rely on for the second, and both kinds
  of the repository provide it.
\<close>

section \<open>The contract of a default change\<close>

locale default_keeper =
  fixes tbl :: "'d \<Rightarrow> table"
    and fits :: "item list \<Rightarrow> bool"
    and key_of :: "string \<Rightarrow> string \<Rightarrow> key"
    and group :: "string \<Rightarrow> key set"
    and pick :: "gtime \<Rightarrow> string \<Rightarrow> string \<Rightarrow> 'd \<Rightarrow> error option \<times> 'd"
  assumes key_of_group: "key_of i x \<in> group i"
    and pick_moves: "pick t i x s = (e, s') \<Longrightarrow> group_fits fits (tbl s) (group i)
        \<Longrightarrow> card (flagged (tbl s) (group i)) < 100
        \<Longrightarrow> (\<forall>k. k \<notin> group i \<longrightarrow> tbl s' k = tbl s k)
          \<and> (\<forall>k it. tbl s k = Some it \<longrightarrow> (\<exists>it'. tbl s' k = Some it'
              \<and> (\<forall>a. a \<noteq> ''is_default'' \<and> a \<noteq> ''updated_at'' \<longrightarrow> it' a = it a)))
          \<and> (case e of
              None \<Rightarrow> flagged (tbl s') (group i) = {key_of i x}
            | Some y \<Rightarrow> (tbl s' = tbl s \<or> flagged (tbl s') (group i) = {key_of i x})
                \<and> (y = DbNotFound \<longrightarrow> tbl s (key_of i x) = None))"

text \<open>What an observer sees after an item was stored under \<open>k\<close> and the flag moved to it when it asks for that.\<close>

definition default_kept :: "key set \<Rightarrow> key \<Rightarrow> bool \<Rightarrow> item \<Rightarrow> table \<Rightarrow> table \<Rightarrow> bool" where
  "default_kept G k dflt it tb tb' \<longleftrightarrow> (\<forall>q. q \<notin> G \<longrightarrow> tb' q = tb q)
     \<and> (\<forall>q old. (tb(k \<mapsto> it)) q = Some old \<longrightarrow> (\<exists>it'. tb' q = Some it'
          \<and> (\<forall>a. a \<noteq> ''is_default'' \<and> a \<noteq> ''updated_at'' \<longrightarrow> it' a = old a)))
     \<and> flagged tb' G = (if dflt then {k} else flagged tb G - {k})"

text \<open>The same when the second step failed: the new flag is there, and the old ones may be too.\<close>

definition default_torn :: "key set \<Rightarrow> key \<Rightarrow> table \<Rightarrow> table \<Rightarrow> bool" where
  "default_torn G k tb tb' \<longleftrightarrow> (\<forall>q. q \<notin> G \<longrightarrow> tb' q = tb q)
     \<and> (flagged tb' G = {k} \<or> flagged tb' G = insert k (flagged tb G))"

lemma flagged_stored:
  assumes "k \<in> G" "it ''is_default'' = Some (AvBOOL dflt)"
  shows "flagged (tb(k \<mapsto> it)) G = (if dflt then insert k (flagged tb G) else flagged tb G - {k})"
  using assms by (auto simp: flagged_def)

context default_keeper
begin

lemma enforce:
  assumes run: "(if dflt then case utc_now sv w1 of (t, w2) \<Rightarrow> (case call_db (pick t i x) w2 of (e, w3) \<Rightarrow> ((e, v), w3))
      else ((None, v), w1)) = ((e, v'), w')"
    and put: "tbl (w_db w1) = tb(key_of i x \<mapsto> it)" "it ''is_default'' = Some (AvBOOL dflt)"
    and fits: "group_fits fits (tb(key_of i x \<mapsto> it)) (group i)" and few: "card (flagged tb (group i)) < 99"
  shows "v' = v \<and> (case e of None \<Rightarrow> default_kept (group i) (key_of i x) dflt it tb (tbl (w_db w'))
    | Some y \<Rightarrow> dflt \<and> y \<noteq> DbNotFound \<and> default_torn (group i) (key_of i x) tb (tbl (w_db w')))"
proof -
  have fl: "flagged (tb(key_of i x \<mapsto> it)) (group i)
      = (if dflt then insert (key_of i x) (flagged tb (group i)) else flagged tb (group i) - {key_of i x})"
    by (rule flagged_stored [OF key_of_group]) (rule put(2))
  show ?thesis
proof (cases dflt)
  case False
  with run put(1) fl show ?thesis
    by (auto simp: default_kept_def key_of_group)
next
  case True
  obtain t w2 where u: "utc_now sv w1 = (t, w2)" by fastforce
  then have w2: "w_db w2 = w_db w1" by (auto simp: utc_now_def now_def split: prod.splits)
  obtain e' d where c: "pick t i x (w_db w1) = (e', d)" by fastforce
  with run u w2 True have e: "e' = e" "v' = v" "w_db w' = d" by (auto simp: call_db_def)
  have "card (insert (key_of i x) (flagged tb (group i))) < 100"
    using few card_insert_le_m1 [of 99 "flagged tb (group i)" "key_of i x"] by linarith
  then have "card (flagged (tbl (w_db w1)) (group i)) < 100"
    using True fl put(1) by simp
  note m = pick_moves [OF c fits [folded put(1)] this, unfolded e put(1)]
  have out: "\<forall>q. q \<notin> group i \<longrightarrow> tbl (w_db w') q = tb q"
    using m key_of_group [of i x] by (metis e(3) fun_upd_other)
  show ?thesis
  proof (cases e)
    case None
    with m out True e(2,3) show ?thesis by (simp add: default_kept_def)
  next
    case (Some y)
    with m out True e(2,3) fl show ?thesis
      by (auto simp: default_torn_def)
  qed
qed
qed

end

section \<open>The two kinds\<close>

context dynamo
begin

lemma address_keeper:
  "default_keeper tbl fits address_key (\<lambda>i. keys_of (createPK i) ''ADDR#'') (SetAddressDefault r)"
proof
  show "address_key i x \<in> keys_of (createPK i) ''ADDR#''" for i x
    by (simp add: keys_of_def addrSK_def address_key_def has_prefix_def)
next
  fix t i x s e s'
  assume "SetAddressDefault r t i x s = (e, s')" "group_fits fits (tbl s) (keys_of (createPK i) ''ADDR#'')"
    "card (flagged (tbl s) (keys_of (createPK i) ''ADDR#'')) < 100"
  note moved = default_moved [OF this(1) [unfolded SetAddressDefault_def] refl _ this(2,3), folded address_key_def]
  show "(\<forall>k. k \<notin> keys_of (createPK i) ''ADDR#'' \<longrightarrow> tbl s' k = tbl s k)
      \<and> (\<forall>k it. tbl s k = Some it \<longrightarrow> (\<exists>it'. tbl s' k = Some it'
          \<and> (\<forall>a. a \<noteq> ''is_default'' \<and> a \<noteq> ''updated_at'' \<longrightarrow> it' a = it a)))
      \<and> (case e of
          None \<Rightarrow> flagged (tbl s') (keys_of (createPK i) ''ADDR#'') = {address_key i x}
        | Some y \<Rightarrow> (tbl s' = tbl s \<or> flagged (tbl s') (keys_of (createPK i) ''ADDR#'') = {address_key i x})
            \<and> (y = DbNotFound \<longrightarrow> tbl s (address_key i x) = None))"
    by (rule moved) (simp add: keys_of_def addrSK_def address_key_def has_prefix_def)
qed

lemma payment_keeper:
  "default_keeper tbl fits payment_key (\<lambda>i. keys_of (createPK i) ''PAY#'') (SetPaymentDefault r)"
proof
  show "payment_key i x \<in> keys_of (createPK i) ''PAY#''" for i x
    by (simp add: keys_of_def paySK_def payment_key_def has_prefix_def)
next
  fix t i x s e s'
  assume "SetPaymentDefault r t i x s = (e, s')" "group_fits fits (tbl s) (keys_of (createPK i) ''PAY#'')"
    "card (flagged (tbl s) (keys_of (createPK i) ''PAY#'')) < 100"
  note moved = default_moved [OF this(1) [unfolded SetPaymentDefault_def] refl _ this(2,3), folded payment_key_def]
  show "(\<forall>k. k \<notin> keys_of (createPK i) ''PAY#'' \<longrightarrow> tbl s' k = tbl s k)
      \<and> (\<forall>k it. tbl s k = Some it \<longrightarrow> (\<exists>it'. tbl s' k = Some it'
          \<and> (\<forall>a. a \<noteq> ''is_default'' \<and> a \<noteq> ''updated_at'' \<longrightarrow> it' a = it a)))
      \<and> (case e of
          None \<Rightarrow> flagged (tbl s') (keys_of (createPK i) ''PAY#'') = {payment_key i x}
        | Some y \<Rightarrow> (tbl s' = tbl s \<or> flagged (tbl s') (keys_of (createPK i) ''PAY#'') = {payment_key i x})
            \<and> (y = DbNotFound \<longrightarrow> tbl s (payment_key i x) = None))"
    by (rule moved) (simp add: keys_of_def paySK_def payment_key_def has_prefix_def)
qed

end

section \<open>Properties\<close>

abbreviation address_group :: "string \<Rightarrow> key set" where
  "address_group i \<equiv> keys_of (createPK i) ''ADDR#''"

abbreviation payment_group :: "string \<Rightarrow> key set" where
  "payment_group i \<equiv> keys_of (createPK i) ''PAY#''"

definition address_item :: "string \<Rightarrow> address \<Rightarrow> item" where
  "address_item i a = marshal_address (addressRecordFrom (createPK i) (addrSK (ad_AddressId a)) a)"

definition payment_item :: "string \<Rightarrow> payment_method \<Rightarrow> item" where
  "payment_item i m = marshal_payment (paymentRecordFrom (createPK i) (paySK (pm_PaymentId m)) m)"

lemma item_flags:
  "address_item i a ''is_default'' = Some (AvBOOL (ad_IsDefault a))"
  "payment_item i m ''is_default'' = Some (AvBOOL (pm_IsDefault m))"
  by (simp_all add: address_item_def payment_item_def marshal_address_def marshal_payment_def addressRecordFrom_def
      paymentRecordFrom_def omitempty_def)

text \<open>C18 (AddAddress). Adding an address through the service keeps one default: after a success the new address is
  stored under an identifier that was free, with everything the request said, and when it asked to be the default
  it is the only one; otherwise the default is the one it was. Nothing outside the account's addresses changes,
  and no other address but for its flag and change time. An address that asks to be the default is stored with
  its flag before the flag is taken from the old one, so a failure can leave the new address behind, with the
  old default still flagged.\<close>

theorem AddAddress_default:
  assumes "dynamo r tbl ssl fits" and "sv_repo sv = db_repository r"
    and "AddAddress sv i a w = ((e, a'), w')"
    and "group_fits fits ((tbl (w_db w))(address_key i (ad_AddressId a') \<mapsto> address_item i a')) (address_group i)"
    and "card (flagged (tbl (w_db w)) (address_group i)) < 99"
  shows "ad_AddressId a' \<noteq> [] \<and> (ad_AddressId a \<noteq> [] \<longrightarrow> a' = a)
    \<and> (case e of
        None \<Rightarrow> tbl (w_db w) (address_key i (ad_AddressId a')) = None
          \<and> default_kept (address_group i) (address_key i (ad_AddressId a')) (ad_IsDefault a') (address_item i a')
              (tbl (w_db w)) (tbl (w_db w'))
      | Some x \<Rightarrow> tbl (w_db w') = tbl (w_db w)
          \<or> tbl (w_db w') = (tbl (w_db w))(address_key i (ad_AddressId a') \<mapsto> address_item i a')
          \<or> ad_IsDefault a' \<and> default_torn (address_group i) (address_key i (ad_AddressId a')) (tbl (w_db w)) (tbl (w_db w')))"
proof -
  obtain fresh w0 where k: "new_ksuid sv w = (fresh, w0)" by fastforce
  then have w0: "w_db w0 = w_db w" by (auto simp: new_ksuid_def)
  obtain f b d where c: "CreateAddress r fresh i a (w_db w) = ((f, b), d)" by (metis prod.collapse)
  from dynamo.CreateAddress_spec [OF assms(1) c]
  have b: "b = (if ad_AddressId a = [] then a\<lparr>ad_AddressId := ''addr_'' @ fresh\<rparr> else a)"
    and put: "put_result DbAlreadyExists (tbl (w_db w) (address_key i (ad_AddressId b)) = None)
      (address_key i (ad_AddressId b)) (Some (address_item i b)) (tbl (w_db w)) f (tbl d)"
    unfolding address_item_def by blast+
  show ?thesis
  proof (cases f)
    case (Some x)
    with assms(2,3) k c w0 have "w_db w' = d" "a' = b" "e \<noteq> None"
      by (auto simp: AddAddress_def db_repository_def call_db_def)
    with put b show ?thesis by (auto simp: put_result_def)
  next
    case None
    from assms(3) k c w0 None have run: "(if ad_IsDefault b then case utc_now sv (w0\<lparr>w_db := d\<rparr>) of (t, w2) \<Rightarrow>
          (case call_db (rp_SetAddressDefault (sv_repo sv) t i (ad_AddressId b)) w2 of (e, w3) \<Rightarrow> ((e, b), w3))
        else ((None, b), w0\<lparr>w_db := d\<rparr>)) = ((e, a'), w')"
      by (simp add: AddAddress_def assms(2) db_repository_def call_db_def [of "CreateAddress r fresh i a"])
    have R: "rp_SetAddressDefault (sv_repo sv) = SetAddressDefault r" by (simp add: assms(2) db_repository_def)
    from run have a': "a' = b" by (auto split: if_splits prod.splits)
    from put None have free: "tbl (w_db w) (address_key i (ad_AddressId b)) = None"
      and new: "tbl (w_db (w0\<lparr>w_db := d\<rparr>)) = (tbl (w_db w))(address_key i (ad_AddressId b) \<mapsto> address_item i b)"
      by (auto simp: put_result_def)
    from default_keeper.enforce [OF dynamo.address_keeper [OF assms(1)] run [unfolded R] new item_flags(1) assms(4) [unfolded a'] assms(5)]
      free b a' show ?thesis by (auto split: option.splits)
  qed
qed

lemma AddAddress_default_witness:
  "\<exists>a' w'. AddAddress sample_sv ''a1'' (sample_address\<lparr>ad_AddressId := ''k9''\<rparr>) (sample_world address_mem) = ((None, a'), w')
    \<and> flagged (mem_tbl address_mem) (address_group ''a1'') = {address_key ''a1'' ''addr_k1''}
    \<and> flagged (mem_tbl (w_db w')) (address_group ''a1'') = {address_key ''a1'' (ad_AddressId a')}"
proof -
  have fl: "flagged (mem_tbl address_mem) (address_group ''a1'') = {address_key ''a1'' ''addr_k1''}"
    using address_flagged [OF address_mem_created] sample_mem_flagged by simp
  have "fst (fst (AddAddress sample_sv ''a1'' (sample_address\<lparr>ad_AddressId := ''k9''\<rparr>) (sample_world address_mem))) = None" by code_simp
  then obtain a' w' where run: "AddAddress sample_sv ''a1'' (sample_address\<lparr>ad_AddressId := ''k9''\<rparr>) (sample_world address_mem) = ((None, a'), w')"
    by (metis prod.collapse)
  have "ad_IsDefault (snd (fst (AddAddress sample_sv ''a1'' (sample_address\<lparr>ad_AddressId := ''k9''\<rparr>) (sample_world address_mem))))" by code_simp
  with run have d: "ad_IsDefault a'" by simp
  have "group_fits (\<lambda>_. True) tb G" for tb G by (simp add: group_fits_def)
  moreover have "card (flagged (mem_tbl (w_db (sample_world address_mem))) (address_group ''a1'')) < 99" by (simp add: fl)
  ultimately show ?thesis
    using AddAddress_default [OF mem.dynamo_axioms sample_sv_simps(1) run] run fl d by (simp add: default_kept_def)
qed

text \<open>The failure is real: on the concrete store, when the transaction that moves the flag is refused, the call reports
  the error and both the old and the new address are flagged.\<close>

definition torn_call :: "(error option \<times> address) \<times> (mem, unit) world" where
  "torn_call = AddAddress sample_sv ''a1'' (sample_address\<lparr>ad_AddressId := ''k9''\<rparr>)
     (sample_world (address_mem\<lparr>m_faults := [False, False, True]\<rparr>))"

lemma AddAddress_two_defaults:
  "fst (fst torn_call) = Some injected
    \<and> {address_key ''a1'' ''addr_k1'', address_key ''a1'' ''k9''} \<subseteq> flagged (mem_tbl (w_db (snd torn_call))) (address_group ''a1'')"
proof -
  have e: "fst (fst torn_call) = Some injected" by code_simp
  have f: "Option.bind (mem_tbl (w_db (snd torn_call)) (address_key ''a1'' x)) (\<lambda>it. it ''is_default'') = Some (AvBOOL True)"
    if "x \<in> {''addr_k1'', ''k9''}" for x
    using that by (elim insertE emptyE; hypsubst) code_simp+
  have g: "address_key ''a1'' x \<in> address_group ''a1''" for x
    by (simp add: keys_of_def address_key_def addrSK_def has_prefix_def)
  show ?thesis using e f [of "''addr_k1''"] f [of "''k9''"] g by (auto simp: flagged_def bind_eq_Some_conv)
qed



end
