(* ===== verification/Json.thy ===== *)
theory Json
  imports Go_Time
begin

text \<open>
  What the program uses of Go's \<open>encoding/json\<close> for the payload of an unsubscribe token: the encoding of
  strings and integers, and the decoder. The decoder is the whole grammar of JSON; it takes fuel,
  and two nested calls consume at least one character, so twice the length of the input is always
  enough (\<open>parse_value_fuel\<close>). Text outside ASCII is copied byte by byte, which is what Go does with valid
  UTF-8, but for the two line separators U+2028 and U+2029, which it escapes; the decoder's limit of 10000
  nested values is left out.
\<close>

section \<open>Encoding\<close>

definition hex_digit :: "nat \<Rightarrow> char" where
  "hex_digit n = (if n < 10 then char_of (48 + n) else char_of (87 + n))"

text \<open>\<open>json.Marshal\<close> also escapes the characters that are special in HTML.\<close>

definition html_or_control :: "nat \<Rightarrow> bool" where
  "html_or_control n \<longleftrightarrow> n < 32 \<or> n = 60 \<or> n = 62 \<or> n = 38"

definition short_escape :: "nat \<Rightarrow> char option" where
  "short_escape n = (if n = 34 then Some (CHR 0x22) else if n = 92 then Some (CHR 0x5C)
     else if n = 8 then Some (CHR ''b'') else if n = 12 then Some (CHR ''f'')
     else if n = 10 then Some (CHR ''n'') else if n = 13 then Some (CHR ''r'')
     else if n = 9 then Some (CHR ''t'') else None)"

definition escape :: "char \<Rightarrow> string" where
  "escape c = (let n = of_char c in
     case short_escape n of
       Some e \<Rightarrow> [CHR 0x5C, e]
     | None \<Rightarrow> if html_or_control n
               then [CHR 0x5C, CHR ''u'', CHR ''0'', CHR ''0'', hex_digit (n div 16), hex_digit (n mod 16)]
               else [c])"

definition json_string :: "string \<Rightarrow> string" where
  "json_string s = [CHR 0x22] @ concat (map escape s) @ [CHR 0x22]"

fun decimal :: "nat \<Rightarrow> string" where
  "decimal n = (if n < 10 then [digit n] else decimal (n div 10) @ [digit (n mod 10)])"

declare decimal.simps [simp del]

definition json_int :: "go_int \<Rightarrow> string" where
  "json_int w = (if sint w < 0 then CHR ''-'' # decimal (nat (- sint w)) else decimal (nat (sint w)))"

section \<open>Strings\<close>

text \<open>A string literal is read as bytes and 16-bit code units.\<close>

datatype unit16 = B char | U nat

definition hex_val :: "char \<Rightarrow> nat option" where
  "hex_val c = (let n = of_char c :: nat in
     if 48 \<le> n \<and> n \<le> 57 then Some (n - 48) else if 97 \<le> n \<and> n \<le> 102 then Some (n - 87)
     else if 65 \<le> n \<and> n \<le> 70 then Some (n - 55) else None)"

definition hex4 :: "char \<Rightarrow> char \<Rightarrow> char \<Rightarrow> char \<Rightarrow> nat option" where
  "hex4 a b c d = do { w \<leftarrow> hex_val a; x \<leftarrow> hex_val b; y \<leftarrow> hex_val c; z \<leftarrow> hex_val d;
     Some (((w * 16 + x) * 16 + y) * 16 + z) }"

definition unescape :: "nat \<Rightarrow> char option" where
  "unescape n = (if n = 34 \<or> n = 92 \<or> n = 47 then Some (char_of n) else if n = 98 then Some (char_of (8::nat))
     else if n = 102 then Some (char_of (12::nat)) else if n = 110 then Some (char_of (10::nat))
     else if n = 114 then Some (char_of (13::nat)) else if n = 116 then Some (char_of (9::nat)) else None)"

definition push :: "'a \<Rightarrow> ('a list \<times> 'b) option \<Rightarrow> ('a list \<times> 'b) option" where
  "push u r = map_option (\<lambda>(us, s). (u # us, s)) r"

text \<open>From after the opening quote to after the closing one.\<close>

fun scan_string :: "string \<Rightarrow> (unit16 list \<times> string) option" where
  "scan_string [] = None"
| "scan_string (c # s) =
     (if (of_char c :: nat) = 34 then Some ([], s)
      else if (of_char c :: nat) < 32 then None
      else if (of_char c :: nat) = 92 then
        (case s of
           [] \<Rightarrow> None
         | e # s' \<Rightarrow>
             if (of_char e :: nat) = 117 then
               (case s' of
                  h1 # h2 # h3 # h4 # s'' \<Rightarrow> (case hex4 h1 h2 h3 h4 of
                      None \<Rightarrow> None
                    | Some r \<Rightarrow> push (U r) (scan_string s''))
                | _ \<Rightarrow> None)
             else (case unescape (of_char e) of
                 None \<Rightarrow> None
               | Some b \<Rightarrow> push (B b) (scan_string s')))
      else push (B c) (scan_string s))"

definition utf8 :: "nat \<Rightarrow> string" where
  "utf8 n = (if n < 128 then [char_of n]
     else if n < 2048 then [char_of (192 + n div 64), char_of (128 + n mod 64)]
     else if n < 65536 then [char_of (224 + n div 4096), char_of (128 + n div 64 mod 64), char_of (128 + n mod 64)]
     else [char_of (240 + n div 262144), char_of (128 + n div 4096 mod 64), char_of (128 + n div 64 mod 64),
           char_of (128 + n mod 64)])"

definition high_surrogate :: "nat \<Rightarrow> bool" where "high_surrogate r \<longleftrightarrow> 0xD800 \<le> r \<and> r < 0xDC00"
definition low_surrogate :: "nat \<Rightarrow> bool" where "low_surrogate r \<longleftrightarrow> 0xDC00 \<le> r \<and> r < 0xE000"

text \<open>A surrogate that is not part of a pair becomes the replacement character.\<close>

fun units_to_string :: "unit16 list \<Rightarrow> string" where
  "units_to_string [] = []"
| "units_to_string (B c # us) = c # units_to_string us"
| "units_to_string (U r # us) =
     (if high_surrogate r then
        (case us of
           U r' # us' \<Rightarrow> if low_surrogate r'
             then utf8 (0x10000 + (r - 0xD800) * 1024 + (r' - 0xDC00)) @ units_to_string us'
             else utf8 0xFFFD @ units_to_string us
         | _ \<Rightarrow> utf8 0xFFFD @ units_to_string us)
      else if low_surrogate r then utf8 0xFFFD @ units_to_string us
      else utf8 r @ units_to_string us)"

section \<open>Values\<close>

text \<open>A number keeps its text, as the decoder does until it knows the type of the field.\<close>

datatype json = JNull | JBool bool | JNum string | JStr string | JArr "json list" | JObj "(string \<times> json) list"

definition json_space :: "char \<Rightarrow> bool" where
  "json_space c \<longleftrightarrow> (of_char c :: nat) \<in> {9, 10, 13, 32}"

definition skip_ws :: "string \<Rightarrow> string" where
  "skip_ws s = dropWhile json_space s"

definition expect :: "char \<Rightarrow> string \<Rightarrow> string option" where
  "expect c s = (case s of [] \<Rightarrow> None | d # r \<Rightarrow> if d = c then Some r else None)"

definition literal :: "string \<Rightarrow> json \<Rightarrow> string \<Rightarrow> (json \<times> string) option" where
  "literal name v s = (if has_prefix name s then Some (v, drop (length name) s) else None)"

definition scan_digits :: "string \<Rightarrow> (string \<times> string) option" where
  "scan_digits s = (if takeWhile is_digit s = [] then None else Some (takeWhile is_digit s, dropWhile is_digit s))"

definition scan_frac :: "string \<Rightarrow> (string \<times> string) option" where
  "scan_frac s = (case expect (CHR ''.'') s of
     None \<Rightarrow> Some ([], s)
   | Some s1 \<Rightarrow> map_option (\<lambda>(ds, r). (CHR ''.'' # ds, r)) (scan_digits s1))"

definition scan_exp :: "string \<Rightarrow> (string \<times> string) option" where
  "scan_exp s = (case s of
     [] \<Rightarrow> Some ([], s)
   | c # s1 \<Rightarrow> if c = CHR ''e'' \<or> c = CHR ''E''
       then (case s1 of
           [] \<Rightarrow> None
         | d # s2 \<Rightarrow> if d = CHR ''+'' \<or> d = CHR ''-''
             then map_option (\<lambda>(ds, r). (c # d # ds, r)) (scan_digits s2)
             else map_option (\<lambda>(ds, r). (c # ds, r)) (scan_digits s1))
       else Some ([], s))"

definition scan_number :: "string \<Rightarrow> (json \<times> string) option" where
  "scan_number s = do {
     let (sign, s0) = (case expect (CHR ''-'') s of None \<Rightarrow> ([], s) | Some r \<Rightarrow> (''-'', r));
     (ds, s1) \<leftarrow> scan_digits s0;
     (fr, s2) \<leftarrow> scan_frac s1;
     (ex, s3) \<leftarrow> scan_exp s2;
     if length ds > 1 \<and> hd ds = CHR ''0'' then None else Some (JNum (sign @ ds @ fr @ ex), s3) }"

definition scan_text :: "string \<Rightarrow> (string \<times> string) option" where
  "scan_text s = map_option (\<lambda>(us, r). (units_to_string us, r)) (scan_string s)"

fun parse_value :: "nat \<Rightarrow> string \<Rightarrow> (json \<times> string) option"
  and parse_elems :: "nat \<Rightarrow> string \<Rightarrow> (json list \<times> string) option"
  and parse_members :: "nat \<Rightarrow> string \<Rightarrow> ((string \<times> json) list \<times> string) option" where
  "parse_value 0 s = None"
| "parse_value (Suc n) s = (case s of
     [] \<Rightarrow> None
   | c # s' \<Rightarrow>
       if c = CHR 0x7B then
         (case expect (CHR 0x7D) (skip_ws s') of
            Some r \<Rightarrow> Some (JObj [], r)
          | None \<Rightarrow> map_option (\<lambda>(ms, r). (JObj ms, r)) (parse_members n (skip_ws s')))
       else if c = CHR 0x5B then
         (case expect (CHR 0x5D) (skip_ws s') of
            Some r \<Rightarrow> Some (JArr [], r)
          | None \<Rightarrow> map_option (\<lambda>(es, r). (JArr es, r)) (parse_elems n (skip_ws s')))
       else if c = CHR 0x22 then map_option (\<lambda>(t, r). (JStr t, r)) (scan_text s')
       else if c = CHR ''t'' then literal ''true'' (JBool True) s
       else if c = CHR ''f'' then literal ''false'' (JBool False) s
       else if c = CHR ''n'' then literal ''null'' JNull s
       else scan_number s)"
| "parse_elems 0 s = None"
| "parse_elems (Suc n) s = do {
     (v, s1) \<leftarrow> parse_value n s;
     (case expect (CHR '','') (skip_ws s1) of
        Some s2 \<Rightarrow> do { (vs, r) \<leftarrow> parse_elems n (skip_ws s2); Some (v # vs, r) }
      | None \<Rightarrow> do { r \<leftarrow> expect (CHR 0x5D) (skip_ws s1); Some ([v], r) }) }"
| "parse_members 0 s = None"
| "parse_members (Suc n) s = do {
     s0 \<leftarrow> expect (CHR 0x22) s;
     (k, s1) \<leftarrow> scan_text s0;
     s2 \<leftarrow> expect (CHR '':'') (skip_ws s1);
     (v, s3) \<leftarrow> parse_value n (skip_ws s2);
     (case expect (CHR '','') (skip_ws s3) of
        Some s4 \<Rightarrow> do { (ms, r) \<leftarrow> parse_members n (skip_ws s4); Some ((k, v) # ms, r) }
      | None \<Rightarrow> do { r \<leftarrow> expect (CHR 0x7D) (skip_ws s3); Some ([(k, v)], r) }) }"

definition parse_json :: "string \<Rightarrow> json option" where
  "parse_json s = do {
     (v, r) \<leftarrow> parse_value (Suc (2 * length s)) (skip_ws s);
     if skip_ws r = [] then Some v else None }"

text \<open>\<open>strconv.ParseInt\<close> of a number literal, for a field of type \<open>int64\<close>.\<close>

definition parse_int64 :: "string \<Rightarrow> go_int option" where
  "parse_int64 s = (let (neg, ds) = (case expect (CHR ''-'') s of None \<Rightarrow> (False, s) | Some r \<Rightarrow> (True, r)) in
     case (if ds = [] then None else parse_digits 0 ds) of
       None \<Rightarrow> None
     | Some n \<Rightarrow> (let i = (if neg then - int n else int n) in
         if - (2 ^ 63) \<le> i \<and> i < 2 ^ 63 then Some (word_of_int i) else None))"

section \<open>Decoding inverts encoding\<close>

lemma hex_val_digit: "n < 16 \<Longrightarrow> hex_val (hex_digit n) = Some n"
proof -
  have "list_all (\<lambda>n. hex_val (hex_digit n) = Some n) [0..<16]" by code_simp
  then show "n < 16 \<Longrightarrow> ?thesis" by (simp add: list_all_iff)
qed

lemma hex4_escape: "n < 256 \<Longrightarrow> hex4 (CHR ''0'') (CHR ''0'') (hex_digit (n div 16)) (hex_digit (n mod 16)) = Some n"
proof -
  have "hex_val (CHR ''0'') = Some 0" by code_simp
  then show "n < 256 \<Longrightarrow> ?thesis" by (simp add: hex4_def hex_val_digit div_less_iff_less_mult)
qed

lemma push_Some [simp]: "push u (Some (us, s)) = Some (u # us, s)"
  by (simp add: push_def)

definition unit_of :: "char \<Rightarrow> unit16" where
  "unit_of c = (if short_escape (of_char c) = None \<and> html_or_control (of_char c) then U (of_char c) else B c)"

lemma escape_table:
  "list_all (\<lambda>n. case short_escape n of None \<Rightarrow> True
     | Some e \<Rightarrow> (of_char e :: nat) \<noteq> 117 \<and> unescape (of_char e) = Some (char_of n)) [34, 92, 8, 12, 10, 13, 9]"
  by code_simp

lemma scan_escape: "scan_string (escape c @ t) = push (unit_of c) (scan_string t)"
proof -
  let ?n = "of_char c :: nat"
  have codes: "(of_char (CHR 0x5C) :: nat) = 92" "(of_char (CHR ''u'') :: nat) = 117"
    by code_simp+
  show ?thesis
  proof (cases "short_escape ?n")
    case None
    show ?thesis
    proof (cases "html_or_control ?n")
      case True
      have "hex4 (CHR ''0'') (CHR ''0'') (hex_digit (?n div 16)) (hex_digit (?n mod 16)) = Some ?n"
        by (rule hex4_escape) simp
      with None True codes show ?thesis by (simp add: escape_def unit_of_def Let_def)
    next
      case False
      with None have "?n \<noteq> 34" "\<not> ?n < 32" "?n \<noteq> 92"
        by (auto simp: html_or_control_def short_escape_def split: if_splits)
      with None False show ?thesis by (simp add: escape_def unit_of_def Let_def)
    qed
  next
    case (Some e)
    then have "?n \<in> {34, 92, 8, 12, 10, 13, 9}" by (auto simp: short_escape_def split: if_splits)
    moreover have "(of_char e :: nat) \<noteq> 117 \<and> unescape (of_char e) = Some (char_of ?n)"
      using Some escape_table calculation by (elim insertE) simp_all
    ultimately show ?thesis using Some codes by (auto simp: escape_def unit_of_def Let_def)
  qed
qed

lemma units_of_string: "units_to_string (map unit_of s) = s"
proof (induction s)
  case (Cons c s)
  have "unit_of c = B c \<or> unit_of c = U (of_char c) \<and> (of_char c :: nat) < 128"
    by (auto simp: unit_of_def html_or_control_def)
  then show ?case
    using Cons by (auto simp: high_surrogate_def low_surrogate_def utf8_def)
qed simp

lemma scan_json_text: "scan_text (concat (map escape s) @ CHR 0x22 # r) = Some (s, r)"
proof -
  have q: "(of_char (CHR 0x22) :: nat) = 34" by code_simp
  have "scan_string (concat (map escape s) @ CHR 0x22 # r) = Some (map unit_of s, r)"
    by (induction s) (simp_all add: scan_escape q)
  then show ?thesis by (simp add: scan_text_def units_of_string)
qed

lemma decimal_digits: "c \<in> set (decimal n) \<Longrightarrow> is_digit c"
proof (induction n rule: decimal.induct)
  case (1 n)
  then show ?case
    by (cases "n < 10") (auto simp: decimal.simps [of n])
qed

lemma decimal_not_Nil [simp]: "decimal n \<noteq> []"
  by (subst decimal.simps) simp

lemma decimal_head: "n > 0 \<Longrightarrow> hd (decimal n) \<noteq> CHR ''0''"
proof (induction n rule: decimal.induct)
  case (1 n)
  have z: "CHR ''0'' = digit 0" by code_simp
  show ?case
  proof (cases "n < 10")
    case True
    with 1 show ?thesis by (subst decimal.simps) (simp add: z digit_eq)
  next
    case False
    then have "hd (decimal (n div 10)) \<noteq> CHR ''0''" by (intro "1.IH") auto
    with False show ?thesis by (subst decimal.simps) simp
  qed
qed

lemma decimal_leading: "\<not> (length (decimal n) > 1 \<and> hd (decimal n) = CHR ''0'')"
proof (cases "n = 0")
  case True
  then show ?thesis by (subst (1) decimal.simps) simp
next
  case False
  then show ?thesis using decimal_head by blast
qed

lemma parse_decimal: "parse_digits 0 (decimal n) = Some n"
proof (induction n rule: decimal.induct)
  case (1 n)
  show ?case
  proof (cases "n < 10")
    case True
    then show ?thesis by (subst decimal.simps) (simp add: digit_code)
  next
    case False
    with 1 show ?thesis by (subst decimal.simps) (simp add: parse_digits_append digit_code)
  qed
qed

lemma decimal_no_minus: "expect (CHR ''-'') (decimal n @ r) = None"
proof -
  obtain c cs where d: "decimal n = c # cs" by (cases "decimal n") simp_all
  with decimal_digits [of c n] have "c \<noteq> CHR ''-''" by (auto simp: is_digit_def)
  with d show ?thesis by (simp add: expect_def)
qed

lemma expect_same [simp]: "expect c (c # r) = Some r"
  by (simp add: expect_def)

definition ends_number :: "string \<Rightarrow> bool" where
  "ends_number r \<longleftrightarrow> (case r of [] \<Rightarrow> True | c # _ \<Rightarrow> \<not> is_digit c \<and> c \<noteq> CHR ''.'' \<and> c \<noteq> CHR ''e'' \<and> c \<noteq> CHR ''E'')"

lemma scan_digits_decimal: "ends_number r \<Longrightarrow> scan_digits (decimal n @ r) = Some (decimal n, r)"
proof -
  assume e: "ends_number r"
  have "takeWhile is_digit (decimal n @ r) = decimal n @ takeWhile is_digit r"
    "dropWhile is_digit (decimal n @ r) = dropWhile is_digit r"
    using decimal_digits [of _ n] by (simp_all add: takeWhile_append2 dropWhile_append2)
  with e show ?thesis by (simp add: scan_digits_def ends_number_def split: list.splits)
qed

lemma scan_json_int:
  assumes "ends_number r"
  shows "scan_number (json_int w @ r) = Some (JNum (json_int w), r)"
proof -
  have f: "scan_frac r = Some ([], r)" "scan_exp r = Some ([], r)"
    using assms by (auto simp: scan_frac_def scan_exp_def expect_def ends_number_def split: list.splits)
  show ?thesis
    using scan_digits_decimal [OF assms] decimal_no_minus decimal_leading f
    by (auto simp: scan_number_def json_int_def Let_def)
qed

lemma parse_int64_json_int: "parse_int64 (json_int w) = Some w"
proof -
  have r: "- (2 ^ 63) \<le> sint w" "sint w < 2 ^ 63"
    using sint_ge [of w] sint_lt [of w] by simp_all
  show ?thesis
    using r decimal_no_minus [of _ "[]"] parse_decimal
    by (auto simp: parse_int64_def json_int_def Let_def)
qed

section \<open>The fuel of the parser is enough\<close>

lemma length_skip_ws: "length (skip_ws s) \<le> length s"
  by (simp add: skip_ws_def length_dropWhile_le)

lemma length_expect: "expect c s = Some r \<Longrightarrow> length s = Suc (length r)"
  by (auto simp: expect_def split: list.splits if_splits)

lemma push_eq_Some: "push u x = Some (us, r) \<longleftrightarrow> (\<exists>us'. x = Some (us', r) \<and> us = u # us')"
  by (cases x) (auto simp: push_def)

lemma length_scan_string: "scan_string s = Some (us, r) \<Longrightarrow> length r < length s"
  by (induction s arbitrary: us rule: scan_string.induct)
    (fastforce simp: push_eq_Some split: if_splits list.splits option.splits)+

lemma length_scan_text: "scan_text s = Some (t, r) \<Longrightarrow> length r < length s"
  by (auto simp: scan_text_def dest: length_scan_string)

lemma length_literal: "literal n v s = Some (x, r) \<Longrightarrow> n \<noteq> [] \<Longrightarrow> length r < length s"
  by (auto simp: literal_def has_prefix_iff split: if_splits)

lemma length_scan_digits: "scan_digits s = Some (d, r) \<Longrightarrow> length r < length s"
  by (cases s) (auto simp: scan_digits_def length_dropWhile_le less_Suc_eq_le split: if_splits)

lemma length_scan_frac: "scan_frac s = Some (d, r) \<Longrightarrow> length r \<le> length s"
  by (auto simp: scan_frac_def split: option.splits dest!: length_expect length_scan_digits)

lemma length_scan_exp: "scan_exp s = Some (d, r) \<Longrightarrow> length r \<le> length s"
  by (auto simp: scan_exp_def split: list.splits if_splits dest!: length_scan_digits)

lemma length_scan_number: "scan_number s = Some (v, r) \<Longrightarrow> length r < length s"
proof -
  assume a: "scan_number s = Some (v, r)"
  obtain sign s0 where s0: "(case expect (CHR ''-'') s of None \<Rightarrow> ([], s) | Some r \<Rightarrow> (''-'', r)) = (sign, s0)"
    by fastforce
  then have "length s0 \<le> length s" by (auto split: option.splits dest: length_expect)
  with a s0 show ?thesis
    by (auto simp: scan_number_def Let_def bind_eq_Some_conv split: if_splits
        dest!: length_scan_digits length_scan_frac length_scan_exp)
qed

lemma length_parse:
  "parse_value n s = Some (v, r) \<Longrightarrow> length r < length s"
  "parse_elems n s = Some (vs, r) \<Longrightarrow> length r < length s"
  "parse_members n s = Some (ms, r) \<Longrightarrow> length r < length s"
proof (induction n s and n s and n s arbitrary: v r and vs r and ms r
    rule: parse_value_parse_elems_parse_members.induct)
  case (2 n s)
  then obtain c s' where s: "s = c # s'" by (auto split: list.splits)
  have e: "length t < length s" if "expect d (skip_ws s') = Some t" for d t
    using length_expect [OF that] length_skip_ws [of s'] s by simp
  show ?case
    using 2 s length_skip_ws [of s'] e length_scan_text [of s'] length_literal [of _ _ s] length_scan_number [of s]
    by (fastforce split: if_splits option.splits)
next
  case (4 n s)
  then obtain v s1 where v: "parse_value n s = Some (v, s1)" by (auto simp: bind_eq_Some_conv)
  with "4.IH"(1) have l: "length s1 < length s" by blast
  have e: "length t < length s1" if "expect d (skip_ws s1) = Some t" for d t
    using length_expect [OF that] length_skip_ws [of s1] by simp
  show ?case
  proof (cases "expect (CHR '','') (skip_ws s1)")
    case None
    with "4.prems" v obtain "expect (CHR 0x5D) (skip_ws s1) = Some r" by (auto simp: bind_eq_Some_conv)
    with e l show ?thesis by fastforce
  next
    case (Some s2)
    with "4.prems" v obtain vs' where "parse_elems n (skip_ws s2) = Some (vs', r)" by (auto simp: bind_eq_Some_conv)
    with "4.IH"(2) [OF v _ Some] have "length r < length (skip_ws s2)" by blast
    with e [OF Some] l length_skip_ws [of s2] show ?thesis by simp
  qed
next
  case (6 n s)
  obtain s0 k s1 s2 v s3 where m: "expect (CHR 0x22) s = Some s0" "scan_text s0 = Some (k, s1)"
    "expect (CHR '':'') (skip_ws s1) = Some s2" "parse_value n (skip_ws s2) = Some (v, s3)"
    using "6.prems" by (auto simp: bind_eq_Some_conv)
  with "6.IH"(1) [OF m(1,2) _ m(3)] have l: "length s3 < length (skip_ws s2)" by blast
  have l: "length s3 < length s"
    using l length_expect [OF m(1)] length_scan_text [OF m(2)] length_expect [OF m(3)]
      length_skip_ws [of s1] length_skip_ws [of s2] by simp
  have e: "length t < length s3" if "expect d (skip_ws s3) = Some t" for d t
    using length_expect [OF that] length_skip_ws [of s3] by simp
  show ?case
  proof (cases "expect (CHR '','') (skip_ws s3)")
    case None
    with "6.prems" m have "expect (CHR 0x7D) (skip_ws s3) = Some r" by (auto simp: bind_eq_Some_conv)
    with e l show ?thesis by fastforce
  next
    case (Some s4)
    with "6.prems" m obtain ms' where "parse_members n (skip_ws s4) = Some (ms', r)" by (auto simp: bind_eq_Some_conv)
    with "6.IH"(2) [OF m(1,2) _ m(3,4) _ Some] have "length r < length (skip_ws s4)" by blast
    with e [OF Some] l length_skip_ws [of s4] show ?thesis by simp
  qed
qed auto

declare parse_value.simps [simp del] parse_elems.simps [simp del] parse_members.simps [simp del]

lemma parse_more:
  "2 * length s < n \<Longrightarrow> parse_value (Suc n) s = parse_value n s"
  "2 * length s + 1 < n \<Longrightarrow> parse_elems (Suc n) s = parse_elems n s"
  "2 * length s < n \<Longrightarrow> parse_members (Suc n) s = parse_members n s"
proof (induction n s and n s and n s rule: parse_value_parse_elems_parse_members.induct)
  case (2 n s)
  show ?case
  proof (cases s)
    case (Cons c s')
    have "2 * length (skip_ws s') + 1 < n" using 2(3) Cons length_skip_ws [of s'] by simp
    with 2 Cons show ?thesis
      by (simp only: parse_value.simps list.case Cons) (simp split: option.splits)
  qed (simp add: parse_value.simps)
next
  case (4 n s)
  then have n: "2 * length s < n" by simp
  show ?case
  proof (cases "parse_value n s")
    case (Some y)
    then obtain v s1 where v: "parse_value n s = Some (v, s1)" by (cases y) simp
    with "4.IH"(1) [OF n] have v': "parse_value (Suc n) s = Some (v, s1)" by simp
    have "parse_elems (Suc n) (skip_ws s2) = parse_elems n (skip_ws s2)"
      if "expect (CHR '','') (skip_ws s1) = Some s2" for s2
      using "4.IH"(2) [OF v _ that] n length_parse(1) [OF v] length_expect [OF that]
        length_skip_ws [of s1] length_skip_ws [of s2] by simp
    then show ?thesis
      by (simp add: parse_elems.simps(2) [of n] parse_elems.simps(2) [of "Suc n"] v v' split: option.splits)
  next
    case None
    with "4.IH"(1) [OF n] have "parse_value (Suc n) s = None" by simp
    with None show ?thesis by (simp add: parse_elems.simps(2) [of n] parse_elems.simps(2) [of "Suc n"])
  qed
next
  case (6 n s)
  note unf = parse_members.simps(2) [of n] parse_members.simps(2) [of "Suc n"]
  show ?case
  proof (cases "\<exists>s0 k s1 s2. expect (CHR 0x22) s = Some s0 \<and> scan_text s0 = Some (k, s1)
      \<and> expect (CHR '':'') (skip_ws s1) = Some s2")
    case False
    then show ?thesis by (auto simp: unf bind_eq_None_conv split: Option.bind_splits)
  next
    case True
    then obtain s0 k s1 s2 where m: "expect (CHR 0x22) s = Some s0" "scan_text s0 = Some (k, s1)"
      "expect (CHR '':'') (skip_ws s1) = Some s2" by blast
    have l: "length (skip_ws s2) + 3 \<le> length s"
      using length_expect [OF m(1)] length_scan_text [OF m(2)] length_expect [OF m(3)]
        length_skip_ws [of s1] length_skip_ws [of s2] by simp
    with 6 have v: "parse_value (Suc n) (skip_ws s2) = parse_value n (skip_ws s2)"
      using m by (intro "6.IH"(1) [OF m(1,2) _ m(3)]) simp_all
    show ?thesis
    proof (cases "parse_value n (skip_ws s2)")
      case None
      with v m show ?thesis by (simp add: unf)
    next
      case (Some y)
      then obtain x s3 where x: "parse_value n (skip_ws s2) = Some (x, s3)" by (cases y) simp
      have "parse_members (Suc n) (skip_ws s4) = parse_members n (skip_ws s4)"
        if "expect (CHR '','') (skip_ws s3) = Some s4" for s4
        using "6.IH"(2) [OF m(1,2) _ m(3) x _ that] 6(3) l length_parse(1) [OF x] length_expect [OF that]
          length_skip_ws [of s3] length_skip_ws [of s4] by simp
      with x v m show ?thesis by (simp add: unf split: option.splits)
    qed
  qed
qed (simp_all add: parse_value.simps)

text \<open>More fuel than the bound never changes the result, so running out of fuel is never the reason of a \<open>None\<close>.\<close>

lemma parse_value_fuel: "2 * length s < n \<Longrightarrow> 2 * length s < m \<Longrightarrow> parse_value n s = parse_value m s"
proof -
  have "parse_value (Suc (2 * length s) + k) s = parse_value (Suc (2 * length s)) s" for k
    by (induction k) (simp_all add: parse_more(1))
  then show "2 * length s < n \<Longrightarrow> 2 * length s < m \<Longrightarrow> ?thesis"
    by (metis Suc_leI le_Suc_ex)
qed

end
