(* ===== verification/Base64_Url.thy ===== *)
theory Base64_Url
  imports Prelude
begin

text \<open>
  \<open>base64.RawURLEncoding\<close> of Go's standard library: the URL alphabet without padding. Decoding skips line
  breaks and ignores the unused bits of the last character, as the non-strict decoder does.
\<close>

definition b64_alphabet :: string where
  "b64_alphabet = ''ABCDEFGHIJKLMNOPQRSTUVWXYZabcdefghijklmnopqrstuvwxyz0123456789-_''"

definition b64_char :: "nat \<Rightarrow> char" where
  "b64_char n = b64_alphabet ! n"

definition b64_val :: "char \<Rightarrow> nat option" where
  "b64_val c = (let n = of_char c :: nat in
     if 65 \<le> n \<and> n \<le> 90 then Some (n - 65)
     else if 97 \<le> n \<and> n \<le> 122 then Some (n - 71)
     else if 48 \<le> n \<and> n \<le> 57 then Some (n + 4)
     else if n = 45 then Some 62 else if n = 95 then Some 63 else None)"

text \<open>Bytes to sextets and back.\<close>

fun sextets :: "nat list \<Rightarrow> nat list" where
  "sextets (a # b # c # bs) = a div 4 # ((a mod 4) * 16 + b div 16) # ((b mod 16) * 4 + c div 64) # c mod 64 # sextets bs"
| "sextets [a, b] = [a div 4, (a mod 4) * 16 + b div 16, (b mod 16) * 4]"
| "sextets [a] = [a div 4, (a mod 4) * 16]"
| "sextets [] = []"

fun octets :: "nat list \<Rightarrow> nat list option" where
  "octets (a # b # c # d # xs) = map_option (\<lambda>ys. (a * 4 + b div 16) # ((b mod 16) * 16 + c div 4)
     # ((c mod 4) * 64 + d) # ys) (octets xs)"
| "octets [a, b, c] = Some [a * 4 + b div 16, (b mod 16) * 16 + c div 4]"
| "octets [a, b] = Some [a * 4 + b div 16]"
| "octets [a] = None"
| "octets [] = Some []"

definition EncodeToString :: "string \<Rightarrow> string" where
  "EncodeToString s = map b64_char (sextets (map of_char s))"

fun b64_vals :: "string \<Rightarrow> nat list option" where
  "b64_vals [] = Some []"
| "b64_vals (c # cs) = do { v \<leftarrow> b64_val c; vs \<leftarrow> b64_vals cs; Some (v # vs) }"

definition DecodeString :: "string \<Rightarrow> string option" where
  "DecodeString s = do {
     vs \<leftarrow> b64_vals (filter (\<lambda>c. (of_char c :: nat) \<noteq> 10 \<and> (of_char c :: nat) \<noteq> 13) s);
     map_option (map char_of) (octets vs) }"

section \<open>Decoding inverts encoding\<close>

lemma sextets_bound: "\<forall>b \<in> set bs. b < 256 \<Longrightarrow> \<forall>x \<in> set (sextets bs). x < 64"
  by (induction bs rule: sextets.induct) (auto simp: div_less_iff_less_mult)

lemma octets_sextets: "\<forall>b \<in> set bs. b < 256 \<Longrightarrow> octets (sextets bs) = Some bs"
proof (induction bs rule: sextets.induct)
  case (1 a b c bs)
  then have "a < 256" "b < 256" "c < 256" "octets (sextets bs) = Some bs" by simp_all
  moreover have "(a div 4) * 4 + ((a mod 4) * 16 + b div 16) div 16 = a" if "b < 256"
    using that by (simp add: div_less_iff_less_mult)
  moreover have "(((a mod 4) * 16 + b div 16) mod 16) * 16 + ((b mod 16) * 4 + c div 64) div 4 = b" if "b < 256" "c < 256"
  proof -
    have "b div 16 < 16" "c div 64 < 4" using that by (simp_all add: div_less_iff_less_mult)
    then have "((a mod 4) * 16 + b div 16) mod 16 = b div 16" "((b mod 16) * 4 + c div 64) div 4 = b mod 16" by simp_all
    then show ?thesis by simp
  qed
  moreover have "(((b mod 16) * 4 + c div 64) mod 4) * 64 + c mod 64 = c" if "c < 256"
  proof -
    have "c div 64 < 4" using that by (simp add: div_less_iff_less_mult)
    then have "((b mod 16) * 4 + c div 64) mod 4 = c div 64" by simp
    then show ?thesis by simp
  qed
  ultimately show ?case by simp
next
  case (2 a b)
  then have "b div 16 < 16" by (simp add: div_less_iff_less_mult)
  then show ?case by simp
qed simp_all

lemma b64_table:
  assumes "n < 64"
  shows "b64_val (b64_char n) = Some n" "(of_char (b64_char n) :: nat) \<noteq> 10" "(of_char (b64_char n) :: nat) \<noteq> 13"
proof -
  have "list_all (\<lambda>n. b64_val (b64_char n) = Some n \<and> (of_char (b64_char n) :: nat) \<noteq> 10
      \<and> (of_char (b64_char n) :: nat) \<noteq> 13) [0..<64]"
    unfolding b64_char_def by code_simp
  with assms show "b64_val (b64_char n) = Some n" "(of_char (b64_char n) :: nat) \<noteq> 10" "(of_char (b64_char n) :: nat) \<noteq> 13"
    by (simp_all add: list_all_iff)
qed

lemma b64_vals_chars: "\<forall>x \<in> set xs. x < 64 \<Longrightarrow> b64_vals (map b64_char xs) = Some xs"
  using b64_table by (induction xs) simp_all

theorem DecodeString_EncodeToString [simp]: "DecodeString (EncodeToString s) = Some s"
proof -
  have b: "\<forall>b \<in> set (map of_char s :: nat list). b < 256"
    using nat_of_char_less_256 by auto
  let ?xs = "sextets (map of_char s)"
  have x: "\<forall>x \<in> set ?xs. x < 64" using sextets_bound [OF b] .
  then have "filter (\<lambda>c. (of_char c :: nat) \<noteq> 10 \<and> (of_char c :: nat) \<noteq> 13) (map b64_char ?xs) = map b64_char ?xs"
    using b64_table by (simp add: filter_id_conv)
  then show ?thesis
    using b64_vals_chars [OF x] octets_sextets [OF b]
    by (simp add: DecodeString_def EncodeToString_def comp_def)
qed

end
