(* ===== verification/Sha256.thy ===== *)
theory Sha256
  imports Prelude
begin

text \<open>
  The two functions of Go's standard library behind the signature of an unsubscribe token: SHA-256
  (\<open>crypto/sha256\<close>, FIPS 180-4) and HMAC (\<open>crypto/hmac\<close>, FIPS 198-1) over it. Byte strings are
  \<open>string\<close>s; the working variables are 32-bit words.
\<close>

unbundle bit_operations_syntax

type_synonym u32 = "32 word"

definition rotr :: "nat \<Rightarrow> u32 \<Rightarrow> u32" where
  "rotr n x = word_rotr n x"

text \<open>The constants are what the standard says they are: the first 32 bits of the fractional parts of the cube
  roots (for the rounds) and the square roots (for the initial state) of the first primes. The root of
  \<open>p * 2 ^ (32 * k)\<close> is found bit by bit; taken as a word it keeps its last 32 bits.\<close>

definition primes_below :: "nat \<Rightarrow> nat list" where
  "primes_below n = filter (\<lambda>p. list_all (\<lambda>d. p mod d \<noteq> 0) [2..<p]) [2..<n]"

fun int_root :: "nat \<Rightarrow> nat \<Rightarrow> nat \<Rightarrow> nat \<Rightarrow> nat" where
  "int_root k n acc 0 = acc"
| "int_root k n acc (Suc b) = int_root k n (if (acc + 2 ^ b) ^ k \<le> n then acc + 2 ^ b else acc) b"

definition root_bits :: "nat \<Rightarrow> nat \<Rightarrow> u32" where
  "root_bits k p = of_nat (int_root k (p * 2 ^ (32 * k)) 0 38)"

definition sha_K :: "u32 list" where
  "sha_K = map (root_bits 3) (primes_below 312)"

definition sha_H0 :: "u32 list" where
  "sha_H0 = map (root_bits 2) (primes_below 20)"

lemma length_sha_H0 [simp]: "length sha_H0 = 8"
proof -
  have "primes_below 20 = [2, 3, 5, 7, 11, 13, 17, 19]" by code_simp
  then show ?thesis by (simp add: sha_H0_def)
qed

definition byte :: "nat \<Rightarrow> char" where
  "byte n = char_of (n mod 256)"

text \<open>Big-endian bytes of a number.\<close>

fun be_bytes :: "nat \<Rightarrow> nat \<Rightarrow> string" where
  "be_bytes 0 n = []"
| "be_bytes (Suc k) n = be_bytes k (n div 256) @ [byte n]"

fun be_num :: "string \<Rightarrow> nat" where
  "be_num [] = 0"
| "be_num (c # cs) = of_char c * 256 ^ length cs + be_num cs"

text \<open>Padding to a multiple of 64 bytes, with the length in bits at the end.\<close>

definition sha_pad :: "string \<Rightarrow> string" where
  "sha_pad m = m @ [byte 128] @ replicate ((119 - length m mod 64) mod 64) (byte 0) @ be_bytes 8 (8 * length m)"

fun words_of :: "string \<Rightarrow> u32 list" where
  "words_of (a # b # c # d # s) = of_nat (be_num [a, b, c, d]) # words_of s"
| "words_of _ = []"

definition sig0 :: "u32 \<Rightarrow> u32" where "sig0 x = xor (xor (rotr 7 x) (rotr 18 x)) (drop_bit 3 x)"
definition sig1 :: "u32 \<Rightarrow> u32" where "sig1 x = xor (xor (rotr 17 x) (rotr 19 x)) (drop_bit 10 x)"
definition Sig0 :: "u32 \<Rightarrow> u32" where "Sig0 x = xor (xor (rotr 2 x) (rotr 13 x)) (rotr 22 x)"
definition Sig1 :: "u32 \<Rightarrow> u32" where "Sig1 x = xor (xor (rotr 6 x) (rotr 11 x)) (rotr 25 x)"

text \<open>The message schedule: \<open>ws\<close> holds the last 16 words, oldest first.\<close>

fun schedule :: "nat \<Rightarrow> u32 list \<Rightarrow> u32 list" where
  "schedule 0 ws = ws"
| "schedule (Suc n) ws =
     (let w = sig1 (ws ! 14) + ws ! 9 + sig0 (ws ! 1) + ws ! 0
      in ws ! 0 # schedule n (tl ws @ [w]))"

fun sha_round :: "u32 list \<Rightarrow> u32 \<times> u32 \<Rightarrow> u32 list" where
  "sha_round [a, b, c, d, e, f, g, h] (k, w) =
     (let t1 = h + Sig1 e + xor (e AND f) (NOT e AND g) + k + w;
          t2 = Sig0 a + xor (xor (a AND b) (a AND c)) (b AND c)
      in [t1 + t2, a, b, c, d + t1, e, f, g])"
| "sha_round s _ = s"

definition sha_block :: "u32 list \<Rightarrow> u32 list \<Rightarrow> u32 list" where
  "sha_block s ws = map2 (+) s (foldl sha_round s (zip sha_K (schedule 48 ws)))"

fun sha_blocks :: "nat \<Rightarrow> u32 list \<Rightarrow> u32 list \<Rightarrow> u32 list" where
  "sha_blocks 0 s ws = s"
| "sha_blocks (Suc n) s ws = sha_blocks n (sha_block s (take 16 ws)) (drop 16 ws)"

definition sha256 :: "string \<Rightarrow> string" where
  "sha256 m = (let p = sha_pad m in
     concat (map (\<lambda>w. be_bytes 4 (unat w)) (sha_blocks (length p div 64) sha_H0 (words_of p))))"

definition xor_pad :: "nat \<Rightarrow> string \<Rightarrow> string" where
  "xor_pad p k = map (\<lambda>c. byte (xor (of_char c) p)) (k @ replicate (64 - length k) (byte 0))"

definition hmac_sha256 :: "string \<Rightarrow> string \<Rightarrow> string" where
  "hmac_sha256 key m =
     (let k = (if length key > 64 then sha256 key else key)
      in sha256 (xor_pad 92 k @ sha256 (xor_pad 54 k @ m)))"

section \<open>The length of a digest\<close>

lemma length_be_bytes [simp]: "length (be_bytes k n) = k"
  by (induction k arbitrary: n) auto

lemma length_sha_round [simp]: "length (sha_round s kw) = length s"
  by (induction s kw rule: sha_round.induct) (simp_all add: Let_def)

lemma length_foldl_round [simp]: "length (foldl sha_round s kws) = length s"
  by (induction kws arbitrary: s) simp_all

lemma length_sha_block [simp]: "length (sha_block s ws) = length s"
  by (simp add: sha_block_def)

lemma length_sha_blocks [simp]: "length (sha_blocks n s ws) = length s"
  by (induction n arbitrary: s ws) simp_all

lemma length_sha256 [simp]: "length (sha256 m) = 32"
proof -
  have "length (concat (map (\<lambda>w. be_bytes 4 (unat w)) ws)) = 4 * length (ws :: u32 list)" for ws
    by (induction ws) simp_all
  then show ?thesis by (simp add: sha256_def Let_def)
qed

lemma length_hmac [simp]: "length (hmac_sha256 k m) = 32"
  by (simp add: hmac_sha256_def Let_def)

end
