(* ===== verification/Unsubscribe_Svc.thy ===== *)
theory Unsubscribe_Svc
  imports Resource_Svc Json Base64_Url Sha256
begin

text \<open>
  \<open>internal/api/unsubscribe.go\<close>: tokens that let a recipient opt out of a channel without signing in. A
  token is the base64 form of a JSON payload followed by its HMAC-SHA256 signature; a verified token
  is recorded in the consent log unless the latest entry of the channel came from the same token.
\<close>

section \<open>The payload\<close>

record unsub_payload =
  up_AccountID :: string
  up_Channel :: string
  up_Exp :: go_int
  up_JTI :: string

definition json_field :: "string \<Rightarrow> string \<Rightarrow> string" where
  "json_field name v = json_string name @ '':'' @ v"

definition marshal_unsub :: "unsub_payload \<Rightarrow> string" where
  "marshal_unsub p = [CHR 0x7B] @ join '',''
     [json_field ''account_id'' (json_string (up_AccountID p)), json_field ''channel'' (json_string (up_Channel p)),
      json_field ''exp'' (json_int (up_Exp p)), json_field ''jti'' (json_string (up_JTI p))] @ [CHR 0x7D]"

text \<open>\<open>json.Unmarshal\<close> into a struct: names match up to case, \<open>null\<close> leaves a field alone, unknown names
  are skipped, later members win, and a value of the wrong type is an error.\<close>

definition string_field :: "json \<Rightarrow> string \<Rightarrow> string option" where
  "string_field v old = (case v of JStr s \<Rightarrow> Some s | JNull \<Rightarrow> Some old | _ \<Rightarrow> None)"

definition int_field :: "json \<Rightarrow> go_int \<Rightarrow> go_int option" where
  "int_field v old = (case v of JNum s \<Rightarrow> parse_int64 s | JNull \<Rightarrow> Some old | _ \<Rightarrow> None)"

fun set_members :: "(string \<times> json) list \<Rightarrow> unsub_payload \<Rightarrow> unsub_payload option" where
  "set_members [] p = Some p"
| "set_members ((k, v) # ms) p = do {
     p' \<leftarrow> (if equal_fold k ''account_id'' then map_option (\<lambda>s. p\<lparr>up_AccountID := s\<rparr>) (string_field v (up_AccountID p))
           else if equal_fold k ''channel'' then map_option (\<lambda>s. p\<lparr>up_Channel := s\<rparr>) (string_field v (up_Channel p))
           else if equal_fold k ''exp'' then map_option (\<lambda>i. p\<lparr>up_Exp := i\<rparr>) (int_field v (up_Exp p))
           else if equal_fold k ''jti'' then map_option (\<lambda>s. p\<lparr>up_JTI := s\<rparr>) (string_field v (up_JTI p))
           else Some p);
     set_members ms p' }"

definition zero_unsub :: unsub_payload where
  "zero_unsub = \<lparr>up_AccountID = [], up_Channel = [], up_Exp = 0, up_JTI = []\<rparr>"

definition unmarshal_unsub :: "string \<Rightarrow> unsub_payload option" where
  "unmarshal_unsub s = (case parse_json s of
     Some (JObj ms) \<Rightarrow> set_members ms zero_unsub
   | Some JNull \<Rightarrow> Some zero_unsub
   | _ \<Rightarrow> None)"

section \<open>Operations\<close>

text \<open>\<open>Unix\<close> of an instant: nanoseconds of the clock to seconds.\<close>

definition unix :: "instant \<Rightarrow> go_int" where
  "unix t = word_of_int (t div second)"

definition parseUnsubToken :: "('d, 'o) service \<Rightarrow> string \<Rightarrow> ('d, 'o) world
    \<Rightarrow> (error + unsub_payload) \<times> ('d, 'o) world" where
  "parseUnsubToken sv payloadBytes w = (case unmarshal_unsub payloadBytes of
     None \<Rightarrow> (Inl ApiInvalidUnsubscribeToken, w)
   | Some p \<Rightarrow>
       if up_JTI p = [] then (Inl ApiInvalidUnsubscribeToken, w)
       else (let p1 = (if length (up_JTI p) > 256 then p\<lparr>up_JTI := take 256 (up_JTI p)\<rparr> else p) in
             case now sv w of (t, w1) \<Rightarrow>
               if up_Exp p1 <s unix t then (Inl ApiInvalidUnsubscribeToken, w1)
               else if \<not> ValidCommunicationChannels (up_Channel p1) then (Inl ApiInvalidUnsubscribeChannel, w1)
               else (Inr p1, w1)))"

definition unsub_entry :: "unsub_payload \<Rightarrow> string \<Rightarrow> string \<Rightarrow> consent_log" where
  "unsub_entry p ipAddr userAgent = \<lparr>cl_Action = ''opt_out'', cl_Channel = up_Channel p, cl_IpAddress = Some ipAddr,
     cl_RecordedAt = zero_time, cl_Source = ''unsubscribe_link'', cl_SourceRef = Some (up_JTI p),
     cl_UserAgent = Some userAgent\<rparr>"

text \<open>What follows the checks of the token: the check against the latest entry, and the record. The latest
  entry is \<open>nil\<close> when there is none, or when the repository reports \<open>ErrNotFound\<close>.\<close>

definition record_unsub :: "('d, 'o) service \<Rightarrow> unsub_payload \<Rightarrow> string \<Rightarrow> string \<Rightarrow> ('d, 'o) world
    \<Rightarrow> error option \<times> ('d, 'o) world" where
  "record_unsub sv p ipAddr userAgent w =
     (case call_db (rp_GetLatestConsent (sv_repo sv) (up_AccountID p) (up_Channel p)) w of (x, w1) \<Rightarrow>
        (case (case x of Inl e \<Rightarrow> if e \<noteq> DbNotFound then Inl e else Inr None | Inr existing \<Rightarrow> Inr existing) of
           Inl e \<Rightarrow> (Some e, w1)
         | Inr existing \<Rightarrow>
             if Option.bind existing cl_SourceRef = Some (up_JTI p) then (None, w1)
             else case utc_now sv w1 of (t, w2) \<Rightarrow>
               (case call_db (rp_AppendConsentLog (sv_repo sv) t (up_AccountID p)
                       (unsub_entry p (take 256 ipAddr) (take 256 userAgent))) w2 of
                  ((e, entry), w3) \<Rightarrow> (e, w3))))"

definition VerifyAndRecordUnsubscribe :: "('d, 'o) service \<Rightarrow> string \<Rightarrow> string \<Rightarrow> string \<Rightarrow> ('d, 'o) world
    \<Rightarrow> error option \<times> ('d, 'o) world" where
  "VerifyAndRecordUnsubscribe sv tok ipAddr userAgent w =
     (if length (sv_unsubscribeKey sv) = 0 then (Some (GoError ''unsubscribe key not configured''), w)
      else case DecodeString tok of
        None \<Rightarrow> (Some ApiInvalidUnsubscribeToken, w)
      | Some raw \<Rightarrow>
          if length raw < 32 then (Some ApiInvalidUnsubscribeToken, w)
          else (let payloadBytes = take (length raw - 32) raw; sig = drop (length raw - 32) raw in
                if hmac_sha256 (sv_unsubscribeKey sv) payloadBytes \<noteq> sig
                then (Some ApiInvalidUnsubscribeToken, w)
                else case parseUnsubToken sv payloadBytes w of
                  (Inl e, w1) \<Rightarrow> (Some e, w1)
                | (Inr p, w1) \<Rightarrow> record_unsub sv p ipAddr userAgent w1))"

definition MintUnsubscribeToken :: "('d, 'o) service \<Rightarrow> string \<Rightarrow> string \<Rightarrow> ('d, 'o) world
    \<Rightarrow> (error + string) \<times> ('d, 'o) world" where
  "MintUnsubscribeToken sv accountID channel w =
     (if length (sv_unsubscribeKey sv) = 0 then (Inl (GoError ''unsubscribe key not configured''), w)
      else if \<not> ValidCommunicationChannels channel then (Inl ApiInvalidUnsubscribeChannel, w)
      else case call_db (rp_GetAccount (sv_repo sv) accountID) w of
        (Inl e, w1) \<Rightarrow> (Inl (if isNotFound e then ApiNotFound else e), w1)
      | (Inr account, w1) \<Rightarrow> (case now sv w1 of (t, w2) \<Rightarrow> (case new_ksuid sv w2 of (jti, w3) \<Rightarrow>
          (let payload = marshal_unsub \<lparr>up_AccountID = accountID, up_Channel = channel,
                 up_Exp = unix (t + sv_unsubTokenTTL sv), up_JTI = jti\<rparr>;
               sig = hmac_sha256 (sv_unsubscribeKey sv) payload
           in (Inr (EncodeToString (payload @ sig)), w3)))))"

section \<open>Parsing what was printed\<close>

lemma not_space [simp]:
  "\<not> json_space (CHR 0x22)" "\<not> json_space (CHR 0x7B)" "\<not> json_space (CHR 0x7D)" "\<not> json_space (CHR '','')"
  "\<not> json_space (CHR '':'')"
  by code_simp+

lemma skip_ws_Cons [simp]: "\<not> json_space c \<Longrightarrow> skip_ws (c # r) = c # r"
  by (simp add: skip_ws_def)

lemma skip_ws_json_string [simp]: "skip_ws (json_string t @ r) = json_string t @ r"
  by (simp add: json_string_def)

lemma json_int_head: "\<exists>c s. json_int w = c # s \<and> (c = CHR ''-'' \<or> is_digit c)"
  using decimal_digits [of _ "nat (sint w)"] list.set_sel(1) [of "decimal (nat (sint w))"]
  by (cases "sint w < 0"; cases "decimal (nat (sint w))") (auto simp: json_int_def)

lemma skip_ws_json_int [simp]: "skip_ws (json_int w @ r) = json_int w @ r"
proof -
  obtain c s where c: "json_int w = c # s" "c = CHR ''-'' \<or> is_digit c" using json_int_head by blast
  then have "\<not> json_space c" by (auto simp: json_space_def is_digit_def)
  with c show ?thesis by simp
qed

lemma parse_json_string: "parse_value (Suc n) (json_string t @ r) = Some (JStr t, r)"
  by (simp add: parse_value.simps json_string_def scan_json_text)

lemma parse_json_int: "ends_number r \<Longrightarrow> parse_value (Suc n) (json_int w @ r) = Some (JNum (json_int w), r)"
proof -
  assume r: "ends_number r"
  obtain c s where c: "json_int w = c # s" "c = CHR ''-'' \<or> is_digit c" using json_int_head by blast
  then have "c \<noteq> CHR 0x7B" "c \<noteq> CHR 0x5B" "c \<noteq> CHR 0x22" "c \<noteq> CHR ''t''" "c \<noteq> CHR ''f''" "c \<noteq> CHR ''n''"
    by (auto simp: is_digit_def)
  with c scan_json_int [OF r, of w] show ?thesis by (simp add: parse_value.simps)
qed

lemma member_next:
  assumes "parse_value n (skip_ws (v @ CHR '','' # r)) = Some (x, CHR '','' # r)"
  shows "parse_members (Suc n) (json_field k v @ CHR '','' # r)
    = map_option (\<lambda>(ms, r'). ((k, x) # ms, r')) (parse_members n (skip_ws r))"
  using assms
  by (cases "parse_members n (skip_ws r)")
    (auto simp: parse_members.simps json_field_def json_string_def scan_json_text)

lemma member_last:
  assumes "parse_value n (skip_ws (v @ CHR 0x7D # r)) = Some (x, CHR 0x7D # r)"
  shows "parse_members (Suc n) (json_field k v @ CHR 0x7D # r) = Some ([(k, x)], r)"
  using assms
  by (simp add: parse_members.simps json_field_def json_string_def scan_json_text expect_def)

lemma skip_ws_json_field [simp]: "skip_ws (json_field k v @ r) = json_field k v @ r"
  by (simp add: json_field_def)

lemma ends_number_comma [simp]: "ends_number (CHR '','' # r)"
  by (simp add: ends_number_def is_digit_def)

text \<open>The text is the one \<open>json.Marshal\<close> prints, and the members come back in its order.\<close>

lemma parse_marshal_unsub:
  "parse_json (marshal_unsub p) = Some (JObj [(''account_id'', JStr (up_AccountID p)), (''channel'', JStr (up_Channel p)),
     (''exp'', JNum (json_int (up_Exp p))), (''jti'', JStr (up_JTI p))])"
proof -
  have m: "marshal_unsub p = CHR 0x7B # json_field ''account_id'' (json_string (up_AccountID p)) @ CHR '','' #
      json_field ''channel'' (json_string (up_Channel p)) @ CHR '','' #
      json_field ''exp'' (json_int (up_Exp p)) @ CHR '','' #
      json_field ''jti'' (json_string (up_JTI p)) @ CHR 0x7D # []" (is "_ = CHR 0x7B # ?body")
    by (simp add: marshal_unsub_def)
  have e: "expect (CHR 0x7D) ?body = None"
    by (simp add: json_field_def json_string_def expect_def)
  have "parse_members (Suc (Suc (Suc (Suc (Suc n))))) ?body
      = Some ([(''account_id'', JStr (up_AccountID p)), (''channel'', JStr (up_Channel p)),
         (''exp'', JNum (json_int (up_Exp p))), (''jti'', JStr (up_JTI p))], [])" for n
    by (simp add: member_next member_last parse_json_string parse_json_int)
  moreover obtain n where "2 * length (marshal_unsub p) = Suc (Suc (Suc (Suc (Suc n))))"
  proof -
    have "5 \<le> 2 * length (marshal_unsub p)" by (simp add: marshal_unsub_def json_field_def json_string_def)
    then show ?thesis using that by (auto simp: le_iff_add numeral_eq_Suc)
  qed
  ultimately show ?thesis
    using e by (simp add: parse_json_def m parse_value.simps skip_ws_def [of "[]"])
qed

lemma unmarshal_marshal_unsub: "unmarshal_unsub (marshal_unsub p) = Some p"
proof -
  have "equal_fold ''account_id'' ''account_id''" "\<not> equal_fold ''channel'' ''account_id''" "equal_fold ''channel'' ''channel''"
    "\<not> equal_fold ''exp'' ''account_id''" "\<not> equal_fold ''exp'' ''channel''" "equal_fold ''exp'' ''exp''"
    "\<not> equal_fold ''jti'' ''account_id''" "\<not> equal_fold ''jti'' ''channel''" "\<not> equal_fold ''jti'' ''exp''"
    "equal_fold ''jti'' ''jti''" by code_simp+
  then show ?thesis
    by (simp add: unmarshal_unsub_def parse_marshal_unsub zero_unsub_def string_field_def int_field_def
        parse_int64_json_int)
qed

section \<open>What the service relies on\<close>

locale consent_repository =
  fixes R :: "'d repository" and tbl :: "'d \<Rightarrow> table" and fits :: "item list \<Rightarrow> bool"
  assumes append: "rp_AppendConsentLog R t i entry s = ((e, entry'), s') \<Longrightarrow> entry' = stamped t entry
    \<and> put_result ConditionalCheckFailed (tbl s (consent_key i (cl_Channel entry') (cl_RecordedAt entry')) = None)
      (consent_key i (cl_Channel entry') (cl_RecordedAt entry')) (Some (consent_item i entry')) (tbl s) e (tbl s')"
    and latest: "rp_GetLatestConsent R i c s = (x, s') \<Longrightarrow> consent_keys_ok (tbl s) \<Longrightarrow> CHR ''#'' \<notin> set c \<Longrightarrow>
      group_fits fits (tbl s) (keys_of (createPK i) (''CONSENT#'' @ c @ ''#'')) \<Longrightarrow>
      tbl s' = tbl s \<and> (case x of
        Inr (Some e) \<Rightarrow> (\<exists>t. consent_at (tbl s) i c t = Some e \<and> valid_time t
          \<and> (\<forall>t'. valid_time t' \<and> tbl s (consent_key i c t') \<noteq> None \<longrightarrow> t' \<le> t))
      | Inr None \<Rightarrow> (\<forall>t. tbl s (consent_key i c t) = None)
      | Inl e \<Rightarrow> transport e \<or> e = unmarshal_error)"

lemma repository_consent_sel [simp]:
  "rp_AppendConsentLog (db_repository r) = AppendConsentLog r" "rp_GetLatestConsent (db_repository r) = GetLatestConsent r"
  by (simp_all add: db_repository_def)

sublocale dynamo \<subseteq> consents: consent_repository "db_repository r" tbl fits
  by unfold_locales (unfold repository_consent_sel, (rule AppendConsentLog_spec GetLatestConsent_spec, assumption+)+)

context dynamo
begin

lemma consent_laws: "consent_repository (db_repository r) tbl fits"
  by (rule consents.consent_repository_axioms)

end

interpretation mem_consents: consent_repository "db_repository mem_repo" mem_tbl "\<lambda>_. True"
  by (rule mem.consent_laws)

lemma channel_no_hash: "ValidCommunicationChannels c \<Longrightarrow> CHR ''#'' \<notin> set c"
  by (auto simp: ValidCommunicationChannels_def)

lemma consent_at_key: "consent_at tb i c t = Some m \<Longrightarrow> tb (consent_key i c t) \<noteq> None"
  by (cases "tb (consent_key i c t)") (simp_all add: consent_at_def)

text \<open>The latest entry of the channel is the one this token left.\<close>

definition already_recorded :: "table \<Rightarrow> unsub_payload \<Rightarrow> bool" where
  "already_recorded tb p \<longleftrightarrow> (\<exists>t l. consent_at tb (up_AccountID p) (up_Channel p) t = Some l \<and> valid_time t
     \<and> cl_SourceRef l = Some (up_JTI p)
     \<and> (\<forall>t'. valid_time t' \<and> tb (consent_key (up_AccountID p) (up_Channel p) t') \<noteq> None \<longrightarrow> t' \<le> t))"

definition opt_out :: "gtime \<Rightarrow> unsub_payload \<Rightarrow> string \<Rightarrow> string \<Rightarrow> consent_log" where
  "opt_out t p ip ua = stamped t (unsub_entry p (take 256 ip) (take 256 ua))"

context consent_repository
begin

lemma record_unsub_spec:
  assumes run: "record_unsub sv p ip ua w = (e, w')" and R: "sv_repo sv = R"
    and ok: "consent_keys_ok (tbl (w_db w))" and c: "ValidCommunicationChannels (up_Channel p)"
    and fits: "group_fits fits (tbl (w_db w)) (keys_of (createPK (up_AccountID p)) (''CONSENT#'' @ up_Channel p @ ''#''))"
  shows "\<not> already_recorded (tbl (w_db w)) p \<and> (\<exists>t \<in> range (env_UTC (sv_env sv)).
        put_result ConditionalCheckFailed (tbl (w_db w) (consent_key (up_AccountID p) (up_Channel p) t) = None)
          (consent_key (up_AccountID p) (up_Channel p) t) (Some (consent_item (up_AccountID p) (opt_out t p ip ua)))
          (tbl (w_db w)) e (tbl (w_db w')))
    \<or> tbl (w_db w') = tbl (w_db w) \<and> (case e of
        None \<Rightarrow> already_recorded (tbl (w_db w)) p
      | Some x \<Rightarrow> transport x \<or> x = unmarshal_error)"
    and "w_objs w' = w_objs w" "w_profiles w' = w_profiles w" "w_creds w' = w_creds w" "w_sent w' = w_sent w"
proof -
  let ?i = "up_AccountID p" and ?c = "up_Channel p"
  obtain x d where g: "rp_GetLatestConsent R ?i ?c (w_db w) = (x, d)" by fastforce
  note l = latest [OF g ok channel_no_hash [OF c] fits]
  let ?w1 = "w\<lparr>w_db := d\<rparr>"
  have r: "record_unsub sv p ip ua w = (case (case x of Inl e \<Rightarrow> if e \<noteq> DbNotFound then Inl e else Inr None | Inr existing \<Rightarrow> Inr existing) of
           Inl e \<Rightarrow> (Some e, ?w1)
         | Inr existing \<Rightarrow>
             if Option.bind existing cl_SourceRef = Some (up_JTI p) then (None, ?w1)
             else case utc_now sv ?w1 of (t, w2) \<Rightarrow>
               (case call_db (rp_AppendConsentLog (sv_repo sv) t (up_AccountID p)
                       (unsub_entry p (take 256 ip) (take 256 ua))) w2 of
                  ((e, entry), w3) \<Rightarrow> (e, w3)))"
    by (simp add: record_unsub_def call_db_def R g)
  show "w_objs w' = w_objs w" "w_profiles w' = w_profiles w" "w_creds w' = w_creds w" "w_sent w' = w_sent w"
    using run unfolding r
    by (auto simp: utc_now_def now_def call_db_def split: sum.splits if_splits prod.splits)
  obtain u w2 where u: "utc_now sv ?w1 = (u, w2)" by fastforce
  then have w2: "w_db w2 = d" "u \<in> range (env_UTC (sv_env sv))" by (auto simp: utc_now_def now_def)
  obtain f entry d2 where a: "rp_AppendConsentLog R u ?i (unsub_entry p (take 256 ip) (take 256 ua)) d = ((f, entry), d2)"
    by (metis prod.collapse)
  from append [OF a] have entry: "entry = opt_out u p ip ua" by (simp add: opt_out_def)
  have o: "cl_Channel (opt_out u p ip ua) = ?c" "cl_RecordedAt (opt_out u p ip ua) = u"
    by (simp_all add: opt_out_def stamped_def unsub_entry_def)
  have tail: "(case utc_now sv ?w1 of (t, w2) \<Rightarrow>
      (case call_db (rp_AppendConsentLog (sv_repo sv) t ?i (unsub_entry p (take 256 ip) (take 256 ua))) w2 of
         ((e, entry), w3) \<Rightarrow> (e, w3))) = (f, w2\<lparr>w_db := d2\<rparr>)"
    by (simp add: u call_db_def w2(1) R a)
  have put: "put_result ConditionalCheckFailed (tbl (w_db w) (consent_key ?i ?c u) = None) (consent_key ?i ?c u)
      (Some (consent_item ?i (opt_out u p ip ua))) (tbl (w_db w)) f (tbl d2)"
    using append [OF a, THEN conjunct2] conjunct1 [OF l] o unfolding entry by simp
  show "\<not> already_recorded (tbl (w_db w)) p \<and> (\<exists>t \<in> range (env_UTC (sv_env sv)).
        put_result ConditionalCheckFailed (tbl (w_db w) (consent_key ?i ?c t) = None)
          (consent_key ?i ?c t) (Some (consent_item ?i (opt_out t p ip ua)))
          (tbl (w_db w)) e (tbl (w_db w')))
    \<or> tbl (w_db w') = tbl (w_db w) \<and> (case e of
        None \<Rightarrow> already_recorded (tbl (w_db w)) p
      | Some x \<Rightarrow> transport x \<or> x = unmarshal_error)"
  proof (cases x)
    case (Inl y)
    then have "y \<noteq> DbNotFound" using l by (auto simp: transport_iff unmarshal_error_def)
    with Inl run r l have "e = Some y" "w' = ?w1" by simp_all
    with Inl l show ?thesis by simp
  next
    case (Inr existing)
    show ?thesis
    proof (cases "Option.bind existing cl_SourceRef = Some (up_JTI p)")
      case True
      with Inr run r have "e = None" "w' = ?w1" by simp_all
      moreover have "already_recorded (tbl (w_db w)) p"
        using True l Inr by (cases existing) (auto simp: already_recorded_def)
      ultimately show ?thesis using l by simp
    next
      case False
      with Inr run r tail have "e = f" "w' = w2\<lparr>w_db := d2\<rparr>" by simp_all
      moreover have "\<not> already_recorded (tbl (w_db w)) p"
      proof
        assume "already_recorded (tbl (w_db w)) p"
        then obtain t m where m: "consent_at (tbl (w_db w)) ?i ?c t = Some m" "valid_time t" "cl_SourceRef m = Some (up_JTI p)"
          "\<forall>t'. valid_time t' \<and> tbl (w_db w) (consent_key ?i ?c t') \<noteq> None \<longrightarrow> t' \<le> t"
          by (auto simp: already_recorded_def)
        have "tbl (w_db w) (consent_key ?i ?c t) \<noteq> None" using m(1) by (rule consent_at_key)
        with Inr l m obtain m' t' where m': "existing = Some m'" "consent_at (tbl (w_db w)) ?i ?c t' = Some m'"
          "valid_time t'" "t \<le> t'" by (cases existing) auto
        from this(2) have "tbl (w_db w) (consent_key ?i ?c t') \<noteq> None" by (rule consent_at_key)
        with m(4) m'(3,4) have "t' = t" by (intro antisym) auto
        with m(1,3) m'(1,2) False show False by simp
      qed
      ultimately show ?thesis using put w2(2) by auto
    qed
  qed
qed

end


text \<open>What a token must be for the endpoint to look at the log at all.\<close>

definition authentic :: "('d, 'o) service \<Rightarrow> ('d, 'o) world \<Rightarrow> string \<Rightarrow> unsub_payload \<Rightarrow> bool" where
  "authentic sv w tok p \<longleftrightarrow> sv_unsubscribeKey sv \<noteq> [] \<and> (\<exists>payload p0.
     DecodeString tok = Some (payload @ hmac_sha256 (sv_unsubscribeKey sv) payload)
     \<and> unmarshal_unsub payload = Some p0 \<and> up_JTI p0 \<noteq> [] \<and> p = p0\<lparr>up_JTI := take 256 (up_JTI p0)\<rparr>
     \<and> \<not> up_Exp p0 <s unix (env_Now (sv_env sv) (w_ticks w)) \<and> ValidCommunicationChannels (up_Channel p0))"

lemma parseUnsubToken_fields:
  assumes "parseUnsubToken sv b w = (x, w')"
  shows "w_db w' = w_db w" "w_objs w' = w_objs w" "w_profiles w' = w_profiles w" "w_creds w' = w_creds w" "w_sent w' = w_sent w"
  using assms by (auto simp: parseUnsubToken_def now_def Let_def split: option.splits if_splits)

lemma parseUnsubToken_Inr:
  "fst (parseUnsubToken sv b w) = Inr p \<longleftrightarrow>
     (\<exists>p0. unmarshal_unsub b = Some p0 \<and> up_JTI p0 \<noteq> [] \<and> p = p0\<lparr>up_JTI := take 256 (up_JTI p0)\<rparr>
         \<and> \<not> up_Exp p0 <s unix (env_Now (sv_env sv) (w_ticks w)) \<and> ValidCommunicationChannels (up_Channel p0))"
  by (auto simp: parseUnsubToken_def now_def Let_def split: option.splits)

lemma parseUnsubToken_Inl:
  "fst (parseUnsubToken sv b w) = Inl e \<Longrightarrow> e = ApiInvalidUnsubscribeToken \<or> e = ApiInvalidUnsubscribeChannel"
  by (auto simp: parseUnsubToken_def now_def Let_def split: option.splits if_splits)

lemma signed_iff:
  "(\<exists>b. x = Some (b @ hmac_sha256 k b) \<and> Q b) \<longleftrightarrow> (\<exists>raw. x = Some raw \<and> 32 \<le> length raw
     \<and> hmac_sha256 k (take (length raw - 32) raw) = drop (length raw - 32) raw \<and> Q (take (length raw - 32) raw))"
  (is "?l \<longleftrightarrow> ?r")
proof
  assume ?l
  then obtain b where b: "x = Some (b @ hmac_sha256 k b)" "Q b" by blast
  then show ?r by (intro exI [of _ "b @ hmac_sha256 k b"]) simp
next
  assume ?r
  then obtain raw where raw: "x = Some raw" "hmac_sha256 k (take (length raw - 32) raw) = drop (length raw - 32) raw"
    "Q (take (length raw - 32) raw)" by blast
  then show ?l by (intro exI [of _ "take (length raw - 32) raw"]) simp
qed

lemma authentic_iff:
  "authentic sv w tok p \<longleftrightarrow> sv_unsubscribeKey sv \<noteq> [] \<and> (\<exists>raw. DecodeString tok = Some raw \<and> 32 \<le> length raw
     \<and> hmac_sha256 (sv_unsubscribeKey sv) (take (length raw - 32) raw) = drop (length raw - 32) raw
     \<and> fst (parseUnsubToken sv (take (length raw - 32) raw) w) = Inr p)"
proof -
  have "authentic sv w tok p \<longleftrightarrow> sv_unsubscribeKey sv \<noteq> []
      \<and> (\<exists>b. DecodeString tok = Some (b @ hmac_sha256 (sv_unsubscribeKey sv) b) \<and> fst (parseUnsubToken sv b w) = Inr p)"
    unfolding authentic_def parseUnsubToken_Inr by simp
  then show ?thesis unfolding signed_iff .
qed

lemma VerifyAndRecord_cases:
  assumes run: "VerifyAndRecordUnsubscribe sv tok ip ua w = (e, w')"
  obtains (rejected) "e \<in> Some ` {GoError ''unsubscribe key not configured'', ApiInvalidUnsubscribeToken, ApiInvalidUnsubscribeChannel}"
      "w_db w' = w_db w" "w_objs w' = w_objs w" "w_profiles w' = w_profiles w" "w_creds w' = w_creds w" "w_sent w' = w_sent w"
      "\<forall>p. \<not> authentic sv w tok p"
  | (accepted) p w1 where "authentic sv w tok p" "w_db w1 = w_db w" "w_objs w1 = w_objs w"
      "w_profiles w1 = w_profiles w" "w_creds w1 = w_creds w" "w_sent w1 = w_sent w"
      "record_unsub sv p ip ua w1 = (e, w')"
proof (cases "sv_unsubscribeKey sv = [] \<or> DecodeString tok = None")
  case True
  then have "e \<in> Some ` {GoError ''unsubscribe key not configured'', ApiInvalidUnsubscribeToken} \<and> w' = w"
    using run by (cases "sv_unsubscribeKey sv = []") (simp_all add: VerifyAndRecordUnsubscribe_def)
  with True show ?thesis by (intro rejected) (auto simp: authentic_def)
next
  case False
  then obtain raw where raw: "sv_unsubscribeKey sv \<noteq> []" "DecodeString tok = Some raw" by auto
  define b where "b = take (length raw - 32) raw"
  show ?thesis
  proof (cases "32 \<le> length raw \<and> hmac_sha256 (sv_unsubscribeKey sv) b = drop (length raw - 32) raw")
    case False
    with run raw have "e = Some ApiInvalidUnsubscribeToken \<and> w' = w"
      by (simp add: VerifyAndRecordUnsubscribe_def b_def Let_def split: if_splits)
    with False raw show ?thesis by (intro rejected) (auto simp: authentic_iff b_def)
  next
    case True
    obtain x w1 where x: "parseUnsubToken sv b w = (x, w1)" by fastforce
    note f = parseUnsubToken_fields [OF x]
    have run': "(case x of Inl e \<Rightarrow> (Some e, w1) | Inr p \<Rightarrow> record_unsub sv p ip ua w1) = (e, w')"
      using run raw True x by (simp add: VerifyAndRecordUnsubscribe_def b_def Let_def split: sum.splits)
    have a: "authentic sv w tok p \<longleftrightarrow> x = Inr p" for p
      using raw True x by (simp add: authentic_iff b_def)
    show ?thesis
    proof (cases x)
      case (Inl y)
      with parseUnsubToken_Inl [of sv b w y] x run' f a show ?thesis by (intro rejected) auto
    next
      case (Inr p)
      with run' a f show ?thesis by (intro accepted) auto
    qed
  qed
qed

section \<open>Properties\<close>

definition channel_fits :: "(item list \<Rightarrow> bool) \<Rightarrow> table \<Rightarrow> bool" where
  "channel_fits fits tb \<longleftrightarrow> (\<forall>i c. group_fits fits tb (keys_of (createPK i) (''CONSENT#'' @ c @ ''#'')))"

lemma VerifyAndRecord_table:
  assumes dy: "dynamo r tbl ssl fits" and R: "sv_repo sv = db_repository r"
    and ok: "consent_keys_ok (tbl (w_db w))" "channel_fits fits (tbl (w_db w))"
    and run: "VerifyAndRecordUnsubscribe sv tok ip ua w = (e, w')"
    and a: "authentic sv w tok p"
  shows "\<not> already_recorded (tbl (w_db w)) p \<and> (\<exists>t \<in> range (env_UTC (sv_env sv)).
        put_result ConditionalCheckFailed (tbl (w_db w) (consent_key (up_AccountID p) (up_Channel p) t) = None)
          (consent_key (up_AccountID p) (up_Channel p) t) (Some (consent_item (up_AccountID p) (opt_out t p ip ua)))
          (tbl (w_db w)) e (tbl (w_db w')))
    \<or> tbl (w_db w') = tbl (w_db w) \<and> (case e of
        None \<Rightarrow> already_recorded (tbl (w_db w)) p
      | Some x \<Rightarrow> transport x \<or> x = unmarshal_error)"
  using run
proof (cases rule: VerifyAndRecord_cases)
  case rejected
  with a show ?thesis by blast
next
  case (accepted q w1)
  have "q = p" using accepted(1) a unfolding authentic_iff by auto
  have c: "ValidCommunicationChannels (up_Channel p)" using a by (auto simp: authentic_def)
  have "group_fits fits (tbl (w_db w1)) (keys_of (createPK (up_AccountID p)) (''CONSENT#'' @ up_Channel p @ ''#''))"
    using ok(2) accepted(2) by (simp add: channel_fits_def)
  from consent_repository.record_unsub_spec(1) [OF dynamo.consent_laws [OF dy] accepted(7) [unfolded \<open>q = p\<close>] R _ c this]
    ok(1) show ?thesis unfolding accepted(2) by simp
qed

lemma sint_word: "0 \<le> x \<Longrightarrow> x < 2 ^ 63 \<Longrightarrow> sint (word_of_int x :: go_int) = x"
  by (simp add: int_word_sint signed_take_bit_int_eq_self)

lemma unix_not_expired: "0 \<le> t \<Longrightarrow> t \<le> u \<Longrightarrow> u < 2 ^ 63 * second \<Longrightarrow> \<not> unix u <s unix t"
proof -
  assume a: "0 \<le> t" "t \<le> u" "u < 2 ^ 63 * second"
  then have "0 \<le> t div second" "t div second \<le> u div second" "u div second < 2 ^ 63"
    by (simp_all add: second_def div_less_iff_less_mult zdiv_mono1 pos_imp_zdiv_nonneg_iff)
  then show ?thesis by (simp add: unix_def word_sless_alt sint_word)
qed

definition minted :: "('d, 'o) service \<Rightarrow> ('d, 'o) world \<Rightarrow> string \<Rightarrow> string \<Rightarrow> unsub_payload" where
  "minted sv w i c = \<lparr>up_AccountID = i, up_Channel = c,
     up_Exp = unix (env_Now (sv_env sv) (w_ticks w) + sv_unsubTokenTTL sv), up_JTI = env_Ksuid (sv_env sv) (w_ticks w + 1)\<rparr>"

lemma Mint_Inr:
  assumes "MintUnsubscribeToken sv i c w = (Inr tok, w')"
  shows "sv_unsubscribeKey sv \<noteq> []" "ValidCommunicationChannels c"
    and "tok = EncodeToString (marshal_unsub (minted sv w i c)
      @ hmac_sha256 (sv_unsubscribeKey sv) (marshal_unsub (minted sv w i c)))"
  using assms
  by (auto simp: MintUnsubscribeToken_def minted_def now_def new_ksuid_def call_db_eq Let_def
      split: if_splits sum.splits prod.splits)

lemma minted_authentic:
  assumes m: "MintUnsubscribeToken sv i c w0 = (Inr tok, w1)"
    and k: "\<forall>n. env_Ksuid (sv_env sv) n \<noteq> [] \<and> length (env_Ksuid (sv_env sv) n) \<le> 256"
    and t: "0 \<le> env_Now (sv_env sv) (w_ticks w)"
      "env_Now (sv_env sv) (w_ticks w) \<le> env_Now (sv_env sv) (w_ticks w0) + sv_unsubTokenTTL sv"
      "env_Now (sv_env sv) (w_ticks w0) + sv_unsubTokenTTL sv < 2 ^ 63 * second"
  shows "authentic sv w tok (minted sv w0 i c)"
  unfolding authentic_def
  using Mint_Inr [OF m] unix_not_expired [OF t] k
  by (intro conjI exI [of _ "marshal_unsub (minted sv w0 i c)"] exI [of _ "minted sv w0 i c"])
    (simp_all add: unmarshal_marshal_unsub minted_def)

lemma consent_at_item:
  assumes "valid_time (cl_RecordedAt e)"
    and "tb (consent_key i c t) = Some (consent_item i e)"
  shows "consent_at tb i c t = Some (norm_consent e)"
  using assms by (simp add: consent_at_def consent_item_def unmarshal_marshal_consent consentRecordFrom_def)
    (metis consentRecordFrom_def consent_toModel_from)

lemma authentic_fields: "authentic sv w tok p \<Longrightarrow> up_JTI p \<noteq> []"
  "authentic sv w tok p \<Longrightarrow> ValidCommunicationChannels (up_Channel p)"
  by (auto simp: authentic_def)

lemma authentic_unique: "authentic sv w tok p \<Longrightarrow> authentic sv w' tok q \<Longrightarrow> p = q"
  unfolding authentic_iff parseUnsubToken_Inr by auto

text \<open>The entry just added is the latest one when the clock has passed every entry of the log.\<close>

lemma already_recorded_after:
  assumes t: "valid_time t" and p: "up_JTI p \<noteq> []" "ValidCommunicationChannels (up_Channel p)"
    and older: "\<forall>t'. valid_time t' \<and> tb (consent_key (up_AccountID p) (up_Channel p) t') \<noteq> None \<longrightarrow> t' < t"
  shows "already_recorded (tb(consent_key (up_AccountID p) (up_Channel p) t
      \<mapsto> consent_item (up_AccountID p) (opt_out t p ip ua))) p" (is "already_recorded ?tb p")
proof -
  have "cl_RecordedAt (opt_out t p ip ua) = t" by (simp add: opt_out_def stamped_def unsub_entry_def)
  with consent_at_item [of "opt_out t p ip ua" ?tb "up_AccountID p" "up_Channel p" t] t
  have "consent_at ?tb (up_AccountID p) (up_Channel p) t = Some (norm_consent (opt_out t p ip ua))" by simp
  moreover have "cl_SourceRef (norm_consent (opt_out t p ip ua)) = Some (up_JTI p)"
    using p(1) by (simp add: norm_consent_def opt_out_def stamped_def unsub_entry_def optStr_def)
  moreover have "t' \<le> t" if "valid_time t'" "?tb (consent_key (up_AccountID p) (up_Channel p) t') \<noteq> None" for t'
  proof (cases "consent_key (up_AccountID p) (up_Channel p) t' = consent_key (up_AccountID p) (up_Channel p) t")
    case True
    then show ?thesis
      using consentSK_inject [OF _ _ that(1) t] channel_no_hash [OF p(2)] by (simp add: consent_key_def)
  next
    case False
    with that have "t' < t" by (intro older [rule_format]) simp
    then show ?thesis by simp
  qed
  ultimately show ?thesis unfolding already_recorded_def using t by blast
qed

lemma Verify_authentic:
  "authentic sv w tok p \<Longrightarrow> VerifyAndRecordUnsubscribe sv tok ip ua w = record_unsub sv p ip ua (snd (now sv w))"
proof -
  assume "authentic sv w tok p"
  then obtain raw where "sv_unsubscribeKey sv \<noteq> []" "DecodeString tok = Some raw" "32 \<le> length raw"
     "hmac_sha256 (sv_unsubscribeKey sv) (take (length raw - 32) raw) = drop (length raw - 32) raw"
     "fst (parseUnsubToken sv (take (length raw - 32) raw) w) = Inr p" unfolding authentic_iff by blast
  moreover from this(5) have "snd (parseUnsubToken sv (take (length raw - 32) raw) w) = snd (now sv w)"
    by (auto simp: parseUnsubToken_def now_def Let_def split: option.splits if_splits)
  ultimately show ?thesis
    by (cases "parseUnsubToken sv (take (length raw - 32) raw) w") (simp add: VerifyAndRecordUnsubscribe_def Let_def)
qed

text \<open>A concrete token, minted in the sample world.\<close>

definition sample_token :: string where
  "sample_token = (case fst (MintUnsubscribeToken sample_sv ''a1'' ''email'' (sample_world sample_mem)) of Inr t \<Rightarrow> t | Inl _ \<Rightarrow> [])"

definition sample_payload :: unsub_payload where
  "sample_payload = \<lparr>up_AccountID = ''a1'', up_Channel = ''email'', up_Exp = 0, up_JTI = ''k1''\<rparr>"

lemma sample_minted:
  "\<exists>w1. MintUnsubscribeToken sample_sv ''a1'' ''email'' (sample_world sample_mem) = (Inr sample_token, w1)"
proof -
  have "\<not> isl (fst (GetAccount mem_repo ''a1'' sample_mem))" by code_simp
  then obtain a d where "GetAccount mem_repo ''a1'' sample_mem = (Inr a, d)"
    by (metis isl_def prod.collapse sum.collapse(2))
  then have "call_db (rp_GetAccount (sv_repo sample_sv) ''a1'') (sample_world sample_mem) = (Inr a, (sample_world sample_mem)\<lparr>w_db := d\<rparr>)"
    by (simp add: call_db_def db_repository_def)
  moreover have "sv_unsubscribeKey sample_sv \<noteq> []" "ValidCommunicationChannels ''email''" by code_simp+
  ultimately show ?thesis
    unfolding sample_token_def by (simp add: MintUnsubscribeToken_def now_def new_ksuid_def Let_def)
qed

lemma sample_times:
  "\<forall>n. env_Ksuid (sv_env sample_sv) n \<noteq> [] \<and> length (env_Ksuid (sv_env sample_sv) n) \<le> 256"
  "0 \<le> env_Now (sv_env sample_sv) (w_ticks (sample_world s))"
  "env_Now (sv_env sample_sv) (w_ticks (sample_world s)) \<le> env_Now (sv_env sample_sv) (w_ticks (sample_world s')) + sv_unsubTokenTTL sample_sv"
  "env_Now (sv_env sample_sv) (w_ticks (sample_world s)) + sv_unsubTokenTTL sample_sv < 2 ^ 63 * second"
  by (simp_all add: sample_sv_def sample_env_def sample_world_def second_def)

lemma sample_payload_minted: "minted sample_sv (sample_world s) ''a1'' ''email'' = sample_payload"
  by (simp add: minted_def sample_payload_def sample_sv_def sample_env_def sample_world_def unix_def second_def)

lemma sample_authentic: "authentic sample_sv (sample_world s) sample_token sample_payload"
proof -
  obtain w1 where "MintUnsubscribeToken sample_sv ''a1'' ''email'' (sample_world sample_mem) = (Inr sample_token, w1)"
    using sample_minted by blast
  from minted_authentic [OF this sample_times(1-4)] show ?thesis by (simp add: sample_payload_minted)
qed

definition unsub_world :: "(mem, unit) world" where
  "unsub_world = snd (record_unsub sample_sv sample_payload ''ip'' ''ua'' (snd (now sample_sv (sample_world sample_mem))))"

lemma sample_unsubscribe:
  "VerifyAndRecordUnsubscribe sample_sv sample_token ''ip'' ''ua'' (sample_world sample_mem) = (None, unsub_world)"
proof -
  have "fst (record_unsub sample_sv sample_payload ''ip'' ''ua'' (snd (now sample_sv (sample_world sample_mem)))) = None"
    by code_simp
  then show ?thesis unfolding Verify_authentic [OF sample_authentic] unsub_world_def by (metis prod.collapse)
qed

lemma channel_fits_True [simp]: "channel_fits (\<lambda>_. True) tb"
  by (simp add: channel_fits_def group_fits_def)

lemma unsub_world_table:
  "mem_tbl (w_db unsub_world) = (mem_tbl sample_mem)(consent_key ''a1'' ''email'' sample_time
     \<mapsto> consent_item ''a1'' (opt_out sample_time sample_payload ''ip'' ''ua''))"
proof -
  have "mem_tbl (w_db unsub_world) (consent_key ''a1'' ''email'' sample_time) \<noteq> None" by code_simp
  moreover have "mem_tbl sample_mem (consent_key ''a1'' ''email'' sample_time) = None" by code_simp
  ultimately have "mem_tbl (w_db unsub_world) \<noteq> mem_tbl sample_mem" by metis
  moreover have "range (env_UTC (sv_env sample_sv)) = {sample_time}" by (auto simp: sample_sv_def sample_env_def)
  ultimately show ?thesis
    using VerifyAndRecord_table [OF mem.dynamo_axioms _ _ _ sample_unsubscribe sample_authentic] consent_mem_keys_ok(1)
    by (simp add: put_result_def sample_payload_def)
qed

lemma unsub_world_ok: "consent_keys_ok (mem_tbl (w_db unsub_world))"
  unfolding unsub_world_table
  by (rule consent_keys_ok_upd [OF consent_mem_keys_ok(1)]) (simp, code_simp)

text \<open>C4 (VerifyAndRecordUnsubscribe). The endpoint needs no session: all that protects the consent log is the
  token. A call that succeeds, or that changes the table in any way, was made with a token whose last
  32 bytes are the HMAC of the rest under the service's key, whose payload parses, names a channel of
  the contract and an identifier, and has not expired; and all it can do is to add one opt-out entry
  for the account and channel that the signed payload names, at an instant that had none. A success
  that writes nothing means that the latest entry of the channel came from this token. Caches,
  objects and events are never touched.\<close>

theorem unsubscribe_authentic:
  assumes "dynamo r tbl ssl fits" and "sv_repo sv = db_repository r"
    and "consent_keys_ok (tbl (w_db w))" and "channel_fits fits (tbl (w_db w))"
    and "VerifyAndRecordUnsubscribe sv tok ip ua w = (e, w')"
  shows "w_objs w' = w_objs w \<and> w_profiles w' = w_profiles w \<and> w_creds w' = w_creds w \<and> w_sent w' = w_sent w
    \<and> (e = None \<or> tbl (w_db w') \<noteq> tbl (w_db w) \<longrightarrow> (\<exists>p. authentic sv w tok p
        \<and> ((\<exists>t. tbl (w_db w) (consent_key (up_AccountID p) (up_Channel p) t) = None
              \<and> tbl (w_db w') = (tbl (w_db w))(consent_key (up_AccountID p) (up_Channel p) t
                  \<mapsto> consent_item (up_AccountID p) (opt_out t p ip ua)))
              \<and> \<not> already_recorded (tbl (w_db w)) p
           \<or> tbl (w_db w') = tbl (w_db w) \<and> already_recorded (tbl (w_db w)) p)))"
  using assms(5)
proof (cases rule: VerifyAndRecord_cases)
  case rejected
  then show ?thesis by auto
next
  case (accepted p w1)
  have c: "ValidCommunicationChannels (up_Channel p)" using accepted(1) by (auto simp: authentic_def)
  have g: "group_fits fits (tbl (w_db w1)) (keys_of (createPK (up_AccountID p)) (''CONSENT#'' @ up_Channel p @ ''#''))"
    using assms(4) accepted(2) by (simp add: channel_fits_def)
  have k: "consent_keys_ok (tbl (w_db w1))" using assms(3) accepted(2) by simp
  note f = consent_repository.record_unsub_spec(2-5) [OF dynamo.consent_laws [OF assms(1)] accepted(7) assms(2) k c g]
  from VerifyAndRecord_table [OF assms(1-5) accepted(1)] accepted f show ?thesis
    by (auto simp: put_result_def split: option.splits)
qed

lemma unsubscribe_authentic_witness:
  "\<exists>p t. authentic sample_sv (sample_world sample_mem) sample_token p
    \<and> mem_tbl (w_db unsub_world) = (mem_tbl sample_mem)(consent_key (up_AccountID p) (up_Channel p) t
       \<mapsto> consent_item (up_AccountID p) (opt_out t p ''ip'' ''ua''))"
proof -
  have "mem_tbl (w_db unsub_world) \<noteq> mem_tbl sample_mem"
    using sample_mem_no_log [of "snd (consent_key ''a1'' ''email'' sample_time)" "''a1''"] unfolding unsub_world_table
    by (metis consent_key_def consentSK_def fun_upd_same has_prefix_append option.distinct(1) snd_conv append_assoc)
  with unsubscribe_authentic [OF mem.dynamo_axioms _ _ _ sample_unsubscribe] consent_mem_keys_ok(1) show ?thesis
    by auto
qed

text \<open>C11 (unsubscribe tokens, round trip). A token that \<open>MintUnsubscribeToken\<close> returned is accepted by
  \<open>VerifyAndRecordUnsubscribe\<close> until it expires: base64, signature and payload all survive, and the opt-out
  is recorded for exactly the account and channel the token was minted for, with the identifier it was
  minted under, unless the store fails. (Identifiers of the \<open>ksuid\<close> package are nonempty and short.)\<close>

theorem unsubscribe_roundtrip:
  assumes "dynamo r tbl ssl fits" and "sv_repo sv = db_repository r"
    and "\<forall>t. valid_time (env_UTC (sv_env sv) t)"
    and "\<forall>n. env_Ksuid (sv_env sv) n \<noteq> [] \<and> length (env_Ksuid (sv_env sv) n) \<le> 256"
    and "MintUnsubscribeToken sv i c w0 = (Inr tok, w1)"
    and "0 \<le> env_Now (sv_env sv) (w_ticks w)"
    and "env_Now (sv_env sv) (w_ticks w) \<le> env_Now (sv_env sv) (w_ticks w0) + sv_unsubTokenTTL sv"
    and "env_Now (sv_env sv) (w_ticks w0) + sv_unsubTokenTTL sv < 2 ^ 63 * second"
    and "consent_keys_ok (tbl (w_db w))" and "channel_fits fits (tbl (w_db w))"
    and "VerifyAndRecordUnsubscribe sv tok ip ua w = (e, w')"
  shows "\<exists>p. up_AccountID p = i \<and> up_Channel p = c \<and> up_JTI p = env_Ksuid (sv_env sv) (w_ticks w0 + 1)
    \<and> (e = None \<longrightarrow> already_recorded (tbl (w_db w)) p \<or> (\<exists>t. consent_at (tbl (w_db w')) i c t = Some (norm_consent (opt_out t p ip ua))))
    \<and> (\<forall>x. e = Some x \<longrightarrow> transport x \<or> x = unmarshal_error \<or> x = ConditionalCheckFailed)"
proof (intro exI [of _ "minted sv w0 i c"] conjI impI allI)
  let ?p = "minted sv w0 i c"
  have p: "up_AccountID ?p = i" "up_Channel ?p = c" "up_JTI ?p = env_Ksuid (sv_env sv) (w_ticks w0 + 1)"
    by (simp_all add: minted_def)
  show "up_AccountID ?p = i" "up_Channel ?p = c" "up_JTI ?p = env_Ksuid (sv_env sv) (w_ticks w0 + 1)"
    by (fact p)+
  note tb = VerifyAndRecord_table [OF assms(1,2,9,10,11) minted_authentic [OF assms(5,4,6,7,8)], unfolded p]
  show "already_recorded (tbl (w_db w)) ?p
      \<or> (\<exists>t. consent_at (tbl (w_db w')) i c t = Some (norm_consent (opt_out t ?p ip ua)))" if "e = None"
  proof (cases "already_recorded (tbl (w_db w)) ?p")
    case False
    with tb that obtain t where t: "t \<in> range (env_UTC (sv_env sv))"
      "tbl (w_db w') = (tbl (w_db w))(consent_key i c t \<mapsto> consent_item i (opt_out t ?p ip ua))"
      by (auto simp: put_result_def)
    with assms(3) have "valid_time (cl_RecordedAt (opt_out t ?p ip ua))"
      by (auto simp: opt_out_def stamped_def unsub_entry_def)
    from consent_at_item [OF this, of "tbl (w_db w')" i c t] t(2) show ?thesis by auto
  qed simp
  show "transport x \<or> x = unmarshal_error \<or> x = ConditionalCheckFailed" if "e = Some x" for x
    using tb that by (auto simp: put_result_def)
qed

lemma unsubscribe_roundtrip_witness:
  "\<exists>w1. MintUnsubscribeToken sample_sv ''a1'' ''email'' (sample_world sample_mem) = (Inr sample_token, w1)
    \<and> (\<exists>t. consent_at (mem_tbl (w_db unsub_world)) ''a1'' ''email'' t \<noteq> None)"
proof -
  obtain w1 where m: "MintUnsubscribeToken sample_sv ''a1'' ''email'' (sample_world sample_mem) = (Inr sample_token, w1)"
    using sample_minted by blast
  have n: "consent_at (mem_tbl sample_mem) ''a1'' ''email'' t = None" for t
    using sample_mem_no_log by (simp add: consent_at_def consent_key_def consentSK_def has_prefix_def)
  from unsubscribe_roundtrip [OF mem.dynamo_axioms _ _ sample_times(1) m sample_times(2-4) _ _ sample_unsubscribe]
  obtain p where "up_AccountID p = ''a1''" "up_Channel p = ''email''"
    "already_recorded (mem_tbl sample_mem) p
      \<or> (\<exists>t. consent_at (mem_tbl (w_db unsub_world)) ''a1'' ''email'' t = Some (norm_consent (opt_out t p ''ip'' ''ua'')))"
    using consent_mem_keys_ok(1) by auto
  with n m show ?thesis by (auto simp: already_recorded_def)
qed

text \<open>C17 (VerifyAndRecordUnsubscribe, replay). An unsubscribe link can be followed twice: after a success, a
  second use of the same token adds nothing to the log, as long as nothing else was recorded in between
  and the clock is past every entry.\<close>

theorem unsubscribe_replay:
  assumes "dynamo r tbl ssl fits" and "sv_repo sv = db_repository r"
    and "\<forall>t. valid_time (env_UTC (sv_env sv) t)"
    and "consent_keys_ok (tbl (w_db w))" and "channel_fits fits (tbl (w_db w))"
    and "\<forall>i c t n. valid_time t \<and> tbl (w_db w) (consent_key i c t) \<noteq> None \<longrightarrow> t < env_UTC (sv_env sv) n"
    and "VerifyAndRecordUnsubscribe sv tok ip ua w = (None, w')"
    and "tbl (w_db w2) = tbl (w_db w')"
    and "consent_keys_ok (tbl (w_db w2))" and "channel_fits fits (tbl (w_db w2))"
    and "VerifyAndRecordUnsubscribe sv tok ip2 ua2 w2 = (e, w3)"
  shows "tbl (w_db w3) = tbl (w_db w2)"
  using assms(11)
proof (cases rule: VerifyAndRecord_cases)
  case rejected
  then show ?thesis by simp
next
  case (accepted p w1)
  have a: "authentic sv w tok p"
    using assms(7)
  proof (cases rule: VerifyAndRecord_cases)
    case (accepted q w1)
    then show ?thesis using authentic_unique [OF _ \<open>authentic sv w2 tok p\<close>] by auto
  qed auto
  have "already_recorded (tbl (w_db w')) p"
    using VerifyAndRecord_table [OF assms(1,2,4,5,7) a, unfolded option.case]
  proof (elim disjE conjE bexE)
    fix t assume t: "t \<in> range (env_UTC (sv_env sv))"
      and put: "put_result ConditionalCheckFailed (tbl (w_db w) (consent_key (up_AccountID p) (up_Channel p) t) = None)
          (consent_key (up_AccountID p) (up_Channel p) t) (Some (consent_item (up_AccountID p) (opt_out t p ip ua)))
          (tbl (w_db w)) None (tbl (w_db w'))"
    have v: "valid_time t" and older: "\<forall>t'. valid_time t' \<and> tbl (w_db w) (consent_key (up_AccountID p) (up_Channel p) t') \<noteq> None
        \<longrightarrow> t' < t" using t assms(3) assms(6) by blast+
    from put have "tbl (w_db w') = (tbl (w_db w))(consent_key (up_AccountID p) (up_Channel p) t
        \<mapsto> consent_item (up_AccountID p) (opt_out t p ip ua))" by (simp add: put_result_def)
    with already_recorded_after [OF v authentic_fields [OF a] older] show ?thesis by simp
  qed simp
  with VerifyAndRecord_table [OF assms(1,2,9,10,11) accepted(1)] assms(8) show ?thesis by auto
qed

lemma unsubscribe_replay_witness:
  "\<exists>e w3. VerifyAndRecordUnsubscribe sample_sv sample_token ''other'' ''agent'' unsub_world = (e, w3)
    \<and> mem_tbl (w_db w3) = mem_tbl (w_db unsub_world)"
proof -
  obtain e w3 where run: "VerifyAndRecordUnsubscribe sample_sv sample_token ''other'' ''agent'' unsub_world = (e, w3)"
    by fastforce
  have "mem_tbl sample_mem (consent_key i c t) = None" for i c t
    using sample_mem_no_log by (simp add: consent_key_def consentSK_def has_prefix_def)
  with unsubscribe_replay [OF mem.dynamo_axioms _ _ _ _ _ sample_unsubscribe refl unsub_world_ok _ run]
    consent_mem_keys_ok(1) run show ?thesis by auto
qed

end
