(* ===== verification/Enums.thy ===== *)
theory Enums
  imports Unsubscribe_Svc
begin

text \<open>
  The value tests of the enumerations of \<open>internal/models/models.gen.go\<close>, and how they relate to the checks that
  the service makes itself. The service never calls the generated tests: types of the enumerations are plain
  strings, and a decoded request may hold any string. Its own checks accept the same values up to letter case.
\<close>

section \<open>The enumerations\<close>

definition AccountSettingsStatus_Valid :: "string \<Rightarrow> bool" where
  "AccountSettingsStatus_Valid e \<longleftrightarrow> e = ''active'' \<or> e = ''closed'' \<or> e = ''suspended''"

definition AvatarUploadRequestContentType_Valid :: "string \<Rightarrow> bool" where
  "AvatarUploadRequestContentType_Valid e \<longleftrightarrow> e = ''image/jpeg'' \<or> e = ''image/png'' \<or> e = ''image/webp''"

definition ConsentLogAction_Valid :: "string \<Rightarrow> bool" where
  "ConsentLogAction_Valid e \<longleftrightarrow> e = ''opt_in'' \<or> e = ''opt_out''"

definition ConsentLogChannel_Valid :: "string \<Rightarrow> bool" where
  "ConsentLogChannel_Valid e \<longleftrightarrow> e = ''email'' \<or> e = ''postal'' \<or> e = ''push'' \<or> e = ''sms''"

definition CredentialsResponseAuthMethods_Valid :: "string \<Rightarrow> bool" where
  "CredentialsResponseAuthMethods_Valid e \<longleftrightarrow> e = ''apple'' \<or> e = ''google'' \<or> e = ''otp'' \<or> e = ''passkey'' \<or> e = ''password''"

definition CredentialsResponseStatus_Valid :: "string \<Rightarrow> bool" where
  "CredentialsResponseStatus_Valid e \<longleftrightarrow> e = ''active'' \<or> e = ''closed'' \<or> e = ''suspended''"

definition MySettingsStatus_Valid :: "string \<Rightarrow> bool" where
  "MySettingsStatus_Valid e \<longleftrightarrow> e = ''active'' \<or> e = ''closed'' \<or> e = ''suspended''"

definition RecordConsentRequestAction_Valid :: "string \<Rightarrow> bool" where
  "RecordConsentRequestAction_Valid e \<longleftrightarrow> e = ''opt_in'' \<or> e = ''opt_out''"

definition RecordConsentRequestChannel_Valid :: "string \<Rightarrow> bool" where
  "RecordConsentRequestChannel_Valid e \<longleftrightarrow> e = ''email'' \<or> e = ''postal'' \<or> e = ''push'' \<or> e = ''sms''"

definition UpdateCredentialsRequestAuthMethods_Valid :: "string \<Rightarrow> bool" where
  "UpdateCredentialsRequestAuthMethods_Valid e \<longleftrightarrow> e = ''apple'' \<or> e = ''google'' \<or> e = ''otp'' \<or> e = ''passkey'' \<or> e = ''password''"

definition UpdateSettingsRequestStatus_Valid :: "string \<Rightarrow> bool" where
  "UpdateSettingsRequestStatus_Valid e \<longleftrightarrow> e = ''active'' \<or> e = ''closed'' \<or> e = ''suspended''"

section \<open>The checks of the service\<close>

lemmas Valid_defs = AccountSettingsStatus_Valid_def CredentialsResponseStatus_Valid_def MySettingsStatus_Valid_def
  UpdateSettingsRequestStatus_Valid_def AvatarUploadRequestContentType_Valid_def ConsentLogAction_Valid_def
  ConsentLogChannel_Valid_def RecordConsentRequestAction_Valid_def RecordConsentRequestChannel_Valid_def
  CredentialsResponseAuthMethods_Valid_def UpdateCredentialsRequestAuthMethods_Valid_def

lemma same_statuses:
  "CredentialsResponseStatus_Valid = AccountSettingsStatus_Valid" "MySettingsStatus_Valid = AccountSettingsStatus_Valid"
  "UpdateSettingsRequestStatus_Valid = AccountSettingsStatus_Valid"
  by (rule ext, simp add: Valid_defs)+

lemma avatar_types: "validAvatarContentTypes = AvatarUploadRequestContentType_Valid"
  by (rule ext) (simp add: validAvatarContentTypes_def Valid_defs)

lemma channels: "ValidCommunicationChannels = ConsentLogChannel_Valid" "RecordConsentRequestChannel_Valid = ConsentLogChannel_Valid"
  by (rule ext, auto simp: ValidCommunicationChannels_def Valid_defs)+

lemma unsub_entry_values:
  "ConsentLogAction_Valid (cl_Action (unsub_entry p ip agent))"
  "ValidCommunicationChannels (up_Channel p) \<Longrightarrow> ConsentLogChannel_Valid (cl_Channel (unsub_entry p ip agent))"
  by (auto simp: unsub_entry_def Valid_defs ValidCommunicationChannels_def)

lemma status_lower: "to_lower ''active'' = ''active''" "to_lower ''suspended'' = ''suspended''" "to_lower ''closed'' = ''closed''"
  by code_simp+

lemma validateStatus_Valid: "validateStatus s = None \<longleftrightarrow> AccountSettingsStatus_Valid (to_lower s)"
  by (auto simp: validateStatus_def Valid_defs)

lemma Valid_spelling: "AccountSettingsStatus_Valid (to_lower s) \<Longrightarrow> AccountSettingsStatus_Valid s \<longleftrightarrow> to_lower s = s"
  by (auto simp: Valid_defs status_lower)

section \<open>Properties\<close>

text \<open>C34 (UpdateSettings and the status enumeration). The check of a new status ignores letter case, but the status is
  stored as it was spelled. So a successful update with a status reads back, under every version, as that very
  string, whose lower-case form is a member of the contract's enumeration, and the stored status is itself a
  member exactly when the request spelled it in lower case: after \<open>SUSPENDED\<close> it is not.\<close>

theorem UpdateSettings_status_values:
  assumes "dynamo r tbl ssl fits" and "sv_repo sv = db_repository r"
    and "\<forall>n. valid_time (env_UTC (sv_env sv) n)"
    and "valid_time_opt (us_EmailVerifiedAt req)" and "valid_time_opt (us_PhoneVerifiedAt req)"
    and "settings_at (tbl (w_db w)) i = Some a"
    and "us_Status req = Some s" and "UpdateSettings_svc sv i req w = (Inr b, w')"
  shows "settings_at (tbl (w_db w')) i = Some b \<and> st_Status b = s
    \<and> UpdateSettingsRequestStatus_Valid (to_lower s)
    \<and> (AccountSettingsStatus_Valid (st_Status b) \<longleftrightarrow> to_lower s = s)"
proof -
  note res = UpdateSettings_svc_result [OF assms(1-6,8)]
  have v: "AccountSettingsStatus_Valid (to_lower s)"
    using res assms(7) by (auto simp: Valid_defs)
  from res obtain t where "b = updated_settings t req a" "settings_at (tbl (w_db w')) i = Some b" by blast
  moreover from this(1) assms(7) have "st_Status b = s" by (simp add: updated_settings_def opt_or_def)
  ultimately show ?thesis using v Valid_spelling [OF v] by (simp add: same_statuses)
qed

definition loud_update :: update_settings_request where
  "loud_update = sample_settings_update\<lparr>us_Status := Some ''SUSPENDED''\<rparr>"

lemma UpdateSettings_status_values_witness:
  "\<exists>b w'. UpdateSettings_svc sample_sv ''a1'' loud_update (sample_world sample_mem) = (Inr b, w')
    \<and> settings_at (mem_tbl (w_db w')) ''a1'' = Some b \<and> st_Status b = ''SUSPENDED''
    \<and> \<not> AccountSettingsStatus_Valid (st_Status b)"
proof -
  have "\<not> isl (fst (UpdateSettings_svc sample_sv ''a1'' loud_update (sample_world sample_mem)))" by code_simp
  then obtain b w' where run: "UpdateSettings_svc sample_sv ''a1'' loud_update (sample_world sample_mem)
      = (Inr b, w')" by (metis isl_def prod.collapse sum.collapse(2))
  have o: "valid_time_opt (us_EmailVerifiedAt loud_update)" "valid_time_opt (us_PhoneVerifiedAt loud_update)"
    by code_simp+
  have st: "us_Status loud_update = Some ''SUSPENDED''" by (simp add: loud_update_def)
  have l: "to_lower ''SUSPENDED'' \<noteq> ''SUSPENDED''" by code_simp
  have t: "\<forall>n. valid_time (env_UTC (sv_env sample_sv) n)" by simp
  from UpdateSettings_status_values [OF mem.dynamo_axioms sample_sv_simps(1) t o _ st run] sample_settings l run
  show ?thesis by auto
qed

end
