(* ===== verification/Http_Api.thy ===== *)
theory Http_Api
  imports Unsubscribe_Svc
begin

text \<open>
  The HTTP layer of \<open>internal/api\<close>: what the handlers read of a request, how errors become responses
  (\<open>models/errors.go\<close>, \<open>api/errors.go\<close>), and every route handler. A handler takes the service, the
  request and the world, and returns the response and the new world. Logging is left out, and so are
  response headers. Decoding a body into a struct (\<open>decodeStrict\<close>, which rests on \<open>encoding/json\<close> and on the generated
  types' own decoders) is a parameter, the record \<open>codec\<close>; \<open>None\<close> stands for any decoding error.
\<close>

section \<open>Errors\<close>

text \<open>\<open>httpErr.CodeID(httpErr.RangeUser, n)\<close> is represented by \<open>n\<close>.\<close>

record error_code =
  ec_ID :: nat
  ec_Status :: nat
  ec_Message :: string

record account_api_errors =
  ae_NotFound :: error_code
  ae_AlreadyExists :: error_code
  ae_AccountLocked :: error_code
  ae_AccountSuspended :: error_code
  ae_EmailNotVerified :: error_code
  ae_PhoneNotVerified :: error_code
  ae_InvalidCredentials :: error_code
  ae_PasswordExpired :: error_code
  ae_WeakPassword :: error_code
  ae_MFARequired :: error_code
  ae_InvalidMFACode :: error_code
  ae_PasskeyAlreadyExists :: error_code
  ae_ForbiddenNamespace :: error_code
  ae_PasskeySignCountRegression :: error_code
  ae_InvalidUnsubscribeToken :: error_code
  ae_InvalidUnsubscribeChannel :: error_code
  ae_InvalidInput :: error_code
  ae_InvalidCommunicationChannel :: error_code
  ae_VersionConflict :: error_code
  ae_EmailAlreadyExists :: error_code

definition Err :: account_api_errors where
  "Err = \<lparr>ae_NotFound = \<lparr>ec_ID = 1, ec_Status = 404, ec_Message = ''Account not found''\<rparr>,
     ae_AlreadyExists = \<lparr>ec_ID = 2, ec_Status = 409, ec_Message = ''Account already exists''\<rparr>,
     ae_AccountLocked = \<lparr>ec_ID = 3, ec_Status = 403, ec_Message = ''Account locked''\<rparr>,
     ae_AccountSuspended = \<lparr>ec_ID = 4, ec_Status = 403, ec_Message = ''Account suspended''\<rparr>,
     ae_EmailNotVerified = \<lparr>ec_ID = 5, ec_Status = 403, ec_Message = ''Email not verified''\<rparr>,
     ae_PhoneNotVerified = \<lparr>ec_ID = 6, ec_Status = 403, ec_Message = ''Phone not verified''\<rparr>,
     ae_InvalidCredentials = \<lparr>ec_ID = 7, ec_Status = 401, ec_Message = ''Invalid credentials''\<rparr>,
     ae_PasswordExpired = \<lparr>ec_ID = 8, ec_Status = 403, ec_Message = ''Password expired''\<rparr>,
     ae_WeakPassword = \<lparr>ec_ID = 9, ec_Status = 400, ec_Message = ''Weak password''\<rparr>,
     ae_MFARequired = \<lparr>ec_ID = 10, ec_Status = 403, ec_Message = ''MFA required''\<rparr>,
     ae_InvalidMFACode = \<lparr>ec_ID = 11, ec_Status = 401, ec_Message = ''Invalid MFA code''\<rparr>,
     ae_PasskeyAlreadyExists = \<lparr>ec_ID = 12, ec_Status = 409, ec_Message = ''Passkey already exists''\<rparr>,
     ae_ForbiddenNamespace = \<lparr>ec_ID = 13, ec_Status = 403, ec_Message = ''Forbidden tag namespace''\<rparr>,
     ae_PasskeySignCountRegression = \<lparr>ec_ID = 15, ec_Status = 409, ec_Message = ''Passkey sign count regression rejected''\<rparr>,
     ae_InvalidUnsubscribeToken = \<lparr>ec_ID = 16, ec_Status = 400, ec_Message = ''Invalid or expired unsubscribe token''\<rparr>,
     ae_InvalidUnsubscribeChannel = \<lparr>ec_ID = 17, ec_Status = 400, ec_Message = ''Invalid unsubscribe channel''\<rparr>,
     ae_InvalidInput = \<lparr>ec_ID = 18, ec_Status = 400, ec_Message = ''Invalid input''\<rparr>,
     ae_InvalidCommunicationChannel = \<lparr>ec_ID = 20, ec_Status = 400, ec_Message = ''invalid communication channel''\<rparr>,
     ae_VersionConflict = \<lparr>ec_ID = 21, ec_Status = 409, ec_Message = ''version conflict''\<rparr>,
     ae_EmailAlreadyExists = \<lparr>ec_ID = 22, ec_Status = 409, ec_Message = ''Email already registered''\<rparr>\<rparr>"

text \<open>The errors of the SDK that the handlers send; their status is the SDK's.\<close>

datatype global_error = BadRequest | Unauthorized | NotFound | NotImplemented | Internal

datatype api_error = GlobalErr global_error | AccountErr error_code

section \<open>Requests and responses\<close>

text \<open>\<open>rq_UserID\<close> is the value under \<open>USER_ID_KEY\<close> of the request's context when it is a string, \<open>rq_Scopes\<close> the one
  under \<open>SCOPES_KEY\<close> when it is a list of strings (else nil); both are set by the authentication
  middleware. A path value that the route does not bind is empty.\<close>

record request =
  rq_Method :: string
  rq_Path :: "string list"
  rq_PathValue :: "string \<Rightarrow> string"
  rq_Query :: "string \<Rightarrow> string"
  rq_UserAgent :: string
  rq_ClientKey :: string
  rq_UserID :: "string option"
  rq_Scopes :: "string list"
  rq_Body :: string

record codec =
  cd_CreateAccountRequest :: "string \<Rightarrow> create_account_request option"
  cd_UpdateAccountRequest :: "string \<Rightarrow> update_account_request option"
  cd_DeleteProfileRequest :: "string \<Rightarrow> string option"
  cd_AvatarUploadRequest :: "string \<Rightarrow> avatar_upload_request option"
  cd_UpdateCredentialsRequest :: "string \<Rightarrow> update_credentials_request option"
  cd_UpdateSettingsRequest :: "string \<Rightarrow> update_settings_request option"
  cd_UpdateSettingsTagsRequest :: "string \<Rightarrow> update_settings_tags_request option"
  cd_Address :: "string \<Rightarrow> address option"
  cd_UpdateAddressRequest :: "string \<Rightarrow> update_address_request option"
  cd_PaymentMethod :: "string \<Rightarrow> payment_method option"
  cd_PasskeyCredential :: "string \<Rightarrow> passkey_credential option"
  cd_Preferences :: "string \<Rightarrow> preferences option"
  cd_UnsubscribeRequest :: "string \<Rightarrow> string option"
  cd_MintUnsubscribeTokenRequest :: "string \<Rightarrow> string option"

record avatar_upload_response =
  ar_ExpiresInSeconds :: go_int
  ar_MaxBytes :: go_int
  ar_UploadUrl :: string

datatype body =
    NoBody
  | AccountBody account
  | AvatarBody avatar_upload_response
  | CredentialsBody credentials_response
  | ExistsBody account_exists_response
  | SettingsBody account_settings
  | AddressBody address
  | AddressesBody "address list"
  | PaymentBody payment_method
  | PaymentsBody "payment_method list"
  | PasskeyBody passkey_credential
  | PasskeysBody "passkey_credential list"
  | PreferencesBody preferences
  | ExportBody export_profile_response
  | TokenBody string

text \<open>\<open>SendError\<close> with its optional detail, or a status with a body.\<close>

datatype response = SendError api_error "string option" | Reply nat body

type_synonym ('d, 'o) handler = "codec \<Rightarrow> ('d, 'o) service \<Rightarrow> request \<Rightarrow> ('d, 'o) world \<Rightarrow> response \<times> ('d, 'o) world"

abbreviation badRequest :: response where "badRequest \<equiv> SendError (GlobalErr BadRequest) None"
abbreviation unauthorized :: response where "unauthorized \<equiv> SendError (GlobalErr Unauthorized) None"
abbreviation notImplemented :: response where "notImplemented \<equiv> SendError (GlobalErr NotImplemented) None"

definition accountIDFromJWT :: "request \<Rightarrow> string" where
  "accountIDFromJWT req = opt_or [] (rq_UserID req)"

text \<open>The caller named by the first scope \<open>svc:\<close>.\<close>

fun first_service :: "string list \<Rightarrow> string" where
  "first_service [] = []"
| "first_service (s # ss) = (if has_prefix ''svc:'' s then trim_prefix ''svc:'' s else first_service ss)"

definition callerServiceFromScopes :: "request \<Rightarrow> string" where
  "callerServiceFromScopes req = first_service (rq_Scopes req)"

definition sendAccountError :: "error \<Rightarrow> response" where
  "sendAccountError err = SendError
     (if err = ApiNotFound then GlobalErr NotFound
      else if err = ApiPasskeySignCountRegression then AccountErr (ae_PasskeySignCountRegression Err)
      else if err = ApiPasskeyAlreadyExists then AccountErr (ae_PasskeyAlreadyExists Err)
      else if err = ApiEmailAlreadyExists then AccountErr (ae_EmailAlreadyExists Err)
      else if err = ApiAlreadyExists then AccountErr (ae_AlreadyExists Err)
      else if err = ApiForbiddenNamespace then AccountErr (ae_ForbiddenNamespace Err)
      else if err = ApiInvalidUnsubscribeToken then AccountErr (ae_InvalidUnsubscribeToken Err)
      else if err = ApiInvalidUnsubscribeChannel then AccountErr (ae_InvalidUnsubscribeChannel Err)
      else if err = ApiInvalidCommunicationChannel then AccountErr (ae_InvalidCommunicationChannel Err)
      else if err = ApiInvalidInput then AccountErr (ae_InvalidInput Err)
      else if err = ApiVersionConflict then AccountErr (ae_VersionConflict Err)
      else GlobalErr Internal) None"

section \<open>\<open>profile.go\<close>\<close>

definition GetProfileHandler :: "('d, 'o) handler" where
  "GetProfileHandler cd sv req w = (let pathID = rq_PathValue req ''id'';
         accountID = (if pathID = [] then accountIDFromJWT req else pathID) in
     if accountID = [] then (unauthorized, w)
     else (case GetProfile sv accountID w of
           (Inl err, w1) \<Rightarrow> (sendAccountError err, w1)
         | (Inr x, w1) \<Rightarrow> (Reply 200 (AccountBody x), w1)))"

definition CreateAccountHandler :: "('d, 'o) handler" where
  "CreateAccountHandler cd sv req w = (let accountID = accountIDFromJWT req in
     if accountID = [] then (unauthorized, w)
     else (case cd_CreateAccountRequest cd (rq_Body req) of
         None \<Rightarrow> (badRequest, w)
       | Some input \<Rightarrow> (case CreateAccount_svc sv accountID input w of
           (Inl err, w1) \<Rightarrow> (sendAccountError err, w1)
         | (Inr x, w1) \<Rightarrow> (Reply 201 (AccountBody x), w1))))"

definition UpdateProfileHandler :: "('d, 'o) handler" where
  "UpdateProfileHandler cd sv req w = (let accountID = accountIDFromJWT req in
     if accountID = [] then (unauthorized, w)
     else (case cd_UpdateAccountRequest cd (rq_Body req) of
         None \<Rightarrow> (badRequest, w)
       | Some input \<Rightarrow> (case UpdateProfile sv accountID input w of
           (Inl err, w1) \<Rightarrow> (sendAccountError err, w1)
         | (Inr x, w1) \<Rightarrow> (Reply 200 (AccountBody x), w1))))"

definition DeleteProfileHandler :: "('d, 'o) handler" where
  "DeleteProfileHandler cd sv req w = (let accountID = accountIDFromJWT req in
     if accountID = [] then (unauthorized, w)
     else (case cd_DeleteProfileRequest cd (rq_Body req) of
         None \<Rightarrow> (badRequest, w)
       | Some input \<Rightarrow> (case DeleteProfile sv accountID input w of
           (Some err, w1) \<Rightarrow> (sendAccountError err, w1)
         | (None, w1) \<Rightarrow> (Reply 204 NoBody, w1))))"

definition UpdateEmailHandler :: "('d, 'o) handler" where
  "UpdateEmailHandler cd sv req w = (let accountID = accountIDFromJWT req in
     if accountID = [] then (unauthorized, w)
     else (notImplemented, w))"

definition AvatarUploadHandler :: "('d, 'o) handler" where
  "AvatarUploadHandler cd sv req w = (let accountID = accountIDFromJWT req in
     if accountID = [] then (unauthorized, w)
     else (case cd_AvatarUploadRequest cd (rq_Body req) of
         None \<Rightarrow> (badRequest, w)
       | Some input \<Rightarrow> (case GetAvatarUploadURL sv accountID (av_ContentType input) (av_ContentLength input) w of
           (Inl err, w1) \<Rightarrow> (sendAccountError err, w1)
         | (Inr x, w1) \<Rightarrow> (Reply 200 (AvatarBody \<lparr>ar_ExpiresInSeconds = word_of_int (sv_presignTTL sv div second),
             ar_MaxBytes = maxAvatarBytes, ar_UploadUrl = x\<rparr>), w1))))"

definition DeleteAvatarHandler :: "('d, 'o) handler" where
  "DeleteAvatarHandler cd sv req w = (let accountID = accountIDFromJWT req in
     if accountID = [] then (unauthorized, w)
     else (notImplemented, w))"

section \<open>\<open>credentials.go\<close>\<close>

definition GetCredentialsHandler :: "('d, 'o) handler" where
  "GetCredentialsHandler cd sv req w = (let email = trim_space (rq_Query req ''email'') in
     if email = [] then (SendError (GlobalErr BadRequest) (Some ''email query parameter is required''), w)
     else (case GetCredentials sv email w of
           (Inl err, w1) \<Rightarrow> (sendAccountError err, w1)
         | (Inr x, w1) \<Rightarrow> (Reply 200 (CredentialsBody x), w1)))"

definition UpdateCredentialsHandler :: "('d, 'o) handler" where
  "UpdateCredentialsHandler cd sv req w = (let accountID = rq_PathValue req ''id'' in
     if accountID = [] then (SendError (GlobalErr BadRequest) (Some ''account id is required''), w)
     else (case cd_UpdateCredentialsRequest cd (rq_Body req) of
         None \<Rightarrow> (badRequest, w)
       | Some input \<Rightarrow> (case UpdateCredentials sv accountID input w of
           (Some err, w1) \<Rightarrow> (sendAccountError err, w1)
         | (None, w1) \<Rightarrow> (Reply 204 NoBody, w1))))"

definition GetAccountExistsHandler :: "('d, 'o) handler" where
  "GetAccountExistsHandler cd sv req w = (let email = trim_space (rq_Query req ''email'') in
     if email = [] then (SendError (GlobalErr BadRequest) (Some ''email query parameter is required''), w)
     else (case CheckAccountExists sv email w of
           (Inl err, w1) \<Rightarrow> (sendAccountError err, w1)
         | (Inr x, w1) \<Rightarrow> (Reply 200 (ExistsBody x), w1)))"

section \<open>\<open>settings.go\<close>\<close>

definition GetSettingsHandler :: "('d, 'o) handler" where
  "GetSettingsHandler cd sv req w = (let pathID = rq_PathValue req ''id'';
         accountID = (if pathID = [] then accountIDFromJWT req else pathID) in
     if accountID = [] then (unauthorized, w)
     else (case GetSettings_svc sv accountID w of
           (Inl err, w1) \<Rightarrow> (sendAccountError err, w1)
         | (Inr x, w1) \<Rightarrow> (Reply 200 (SettingsBody x), w1)))"

definition GetMySettingsHandler :: "('d, 'o) handler" where
  "GetMySettingsHandler cd sv req w = (let accountID = accountIDFromJWT req in
     if accountID = [] then (unauthorized, w)
     else (notImplemented, w))"

definition UpdateSettingsHandler :: "('d, 'o) handler" where
  "UpdateSettingsHandler cd sv req w = (let accountID = rq_PathValue req ''id'' in
     if accountID = [] then (unauthorized, w)
     else (case cd_UpdateSettingsRequest cd (rq_Body req) of
         None \<Rightarrow> (badRequest, w)
       | Some input \<Rightarrow> (if us_Status input \<noteq> None
               \<and> callerServiceFromScopes req \<noteq> ''customer-servicing-api'' \<and> callerServiceFromScopes req \<noteq> ''accounts-api''
           then (SendError (AccountErr (ae_ForbiddenNamespace Err)) None, w)
           else (case UpdateSettings_svc sv accountID input w of
           (Inl err, w1) \<Rightarrow> (sendAccountError err, w1)
         | (Inr x, w1) \<Rightarrow> (Reply 200 (SettingsBody x), w1)))))"

definition UpdateSettingsTagsHandler :: "('d, 'o) handler" where
  "UpdateSettingsTagsHandler cd sv req w = (let accountID = rq_PathValue req ''id'' in
     if accountID = [] then (unauthorized, w)
     else (let callerSvc = callerServiceFromScopes req in
       if callerSvc = [] then (unauthorized, w)
       else (case cd_UpdateSettingsTagsRequest cd (rq_Body req) of
         None \<Rightarrow> (badRequest, w)
       | Some input \<Rightarrow> (case UpdateSettingsTags sv accountID callerSvc input w of
           (Inl err, w1) \<Rightarrow> (sendAccountError err, w1)
         | (Inr x, w1) \<Rightarrow> (Reply 200 (SettingsBody x), w1)))))"

section \<open>\<open>address.go\<close>\<close>

definition GetAddressesHandler :: "('d, 'o) handler" where
  "GetAddressesHandler cd sv req w = (let pathID = rq_PathValue req ''id'';
         accountID = (if pathID = [] then accountIDFromJWT req else pathID) in
     if accountID = [] then (unauthorized, w)
     else (case GetAddresses sv accountID w of
           (Inl err, w1) \<Rightarrow> (sendAccountError err, w1)
         | (Inr x, w1) \<Rightarrow> (Reply 200 (AddressesBody x), w1)))"

definition GetAddressHandler :: "('d, 'o) handler" where
  "GetAddressHandler cd sv req w = (let accountID = accountIDFromJWT req in
     if accountID = [] then (unauthorized, w)
     else if rq_PathValue req ''id'' = [] then (badRequest, w)
     else (notImplemented, w))"

definition AddAddressHandler :: "('d, 'o) handler" where
  "AddAddressHandler cd sv req w = (let accountID = accountIDFromJWT req in
     if accountID = [] then (unauthorized, w)
     else (case cd_Address cd (rq_Body req) of
         None \<Rightarrow> (badRequest, w)
       | Some input \<Rightarrow> (case AddAddress sv accountID input w of
           ((Some err, _), w1) \<Rightarrow> (sendAccountError err, w1)
         | ((None, input'), w1) \<Rightarrow> (Reply 201 (AddressBody input'), w1))))"

definition UpdateAddressHandler :: "('d, 'o) handler" where
  "UpdateAddressHandler cd sv req w = (let accountID = accountIDFromJWT req in
     if accountID = [] then (unauthorized, w)
     else (let addressID = rq_PathValue req ''id'' in
       if addressID = [] then (badRequest, w)
       else (case cd_UpdateAddressRequest cd (rq_Body req) of
         None \<Rightarrow> (badRequest, w)
       | Some input \<Rightarrow> (case UpdateAddress_svc sv accountID addressID input w of
           (Some err, w1) \<Rightarrow> (sendAccountError err, w1)
         | (None, w1) \<Rightarrow> (Reply 200 NoBody, w1)))))"

definition DeleteAddressHandler :: "('d, 'o) handler" where
  "DeleteAddressHandler cd sv req w = (let accountID = accountIDFromJWT req in
     if accountID = [] then (unauthorized, w)
     else (let addressID = rq_PathValue req ''id'' in
       if addressID = [] then (badRequest, w)
       else (case DeleteAddress_svc sv accountID addressID w of
           (Some err, w1) \<Rightarrow> (sendAccountError err, w1)
         | (None, w1) \<Rightarrow> (Reply 204 NoBody, w1))))"

section \<open>\<open>payments.go\<close>\<close>

definition GetPaymentsHandler :: "('d, 'o) handler" where
  "GetPaymentsHandler cd sv req w = (let pathID = rq_PathValue req ''id'';
         accountID = (if pathID = [] then accountIDFromJWT req else pathID) in
     if accountID = [] then (unauthorized, w)
     else (case GetPayments sv accountID w of
           (Inl err, w1) \<Rightarrow> (sendAccountError err, w1)
         | (Inr x, w1) \<Rightarrow> (Reply 200 (PaymentsBody x), w1)))"

definition GetPaymentHandler :: "('d, 'o) handler" where
  "GetPaymentHandler cd sv req w = (let accountID = accountIDFromJWT req in
     if accountID = [] then (unauthorized, w)
     else if rq_PathValue req ''id'' = [] then (badRequest, w)
     else (notImplemented, w))"

definition UpsertPaymentHandler :: "('d, 'o) handler" where
  "UpsertPaymentHandler cd sv req w = (let accountID = accountIDFromJWT req in
     if accountID = [] then (unauthorized, w)
     else (case cd_PaymentMethod cd (rq_Body req) of
         None \<Rightarrow> (badRequest, w)
       | Some input \<Rightarrow> (case UpsertPayment_svc sv accountID input w of
           ((Some err, _), w1) \<Rightarrow> (sendAccountError err, w1)
         | ((None, input'), w1) \<Rightarrow> (Reply 200 (PaymentBody input'), w1))))"

definition DeletePaymentHandler :: "('d, 'o) handler" where
  "DeletePaymentHandler cd sv req w = (let accountID = accountIDFromJWT req in
     if accountID = [] then (unauthorized, w)
     else (let paymentID = rq_PathValue req ''id'' in
       if paymentID = [] then (badRequest, w)
       else (case DeletePayment_svc sv accountID paymentID w of
           (Some err, w1) \<Rightarrow> (sendAccountError err, w1)
         | (None, w1) \<Rightarrow> (Reply 204 NoBody, w1))))"

section \<open>\<open>passkey.go\<close>\<close>

definition GetPasskeysHandler :: "('d, 'o) handler" where
  "GetPasskeysHandler cd sv req w = (let accountID = rq_PathValue req ''id'' in
     if accountID = [] then (unauthorized, w)
     else (case GetPasskeys sv accountID w of
           (Inl err, w1) \<Rightarrow> (sendAccountError err, w1)
         | (Inr x, w1) \<Rightarrow> (Reply 200 (PasskeysBody x), w1)))"

definition AddPasskeyHandler :: "('d, 'o) handler" where
  "AddPasskeyHandler cd sv req w = (let accountID = rq_PathValue req ''id'' in
     if accountID = [] then (unauthorized, w)
     else (case cd_PasskeyCredential cd (rq_Body req) of
         None \<Rightarrow> (badRequest, w)
       | Some input \<Rightarrow> (if pk_CredentialId input = [] then (badRequest, w)
           else (case AddPasskey sv accountID input w of
           ((Some err, _), w1) \<Rightarrow> (sendAccountError err, w1)
         | ((None, input'), w1) \<Rightarrow> (Reply 201 (PasskeyBody input'), w1)))))"

definition UpdatePasskeyHandler :: "('d, 'o) handler" where
  "UpdatePasskeyHandler cd sv req w = (let accountID = rq_PathValue req ''id'' in
     if accountID = [] then (unauthorized, w)
     else (let credentialID = rq_PathValue req ''credential_id'' in
       if credentialID = [] then (badRequest, w)
       else (case cd_PasskeyCredential cd (rq_Body req) of
         None \<Rightarrow> (badRequest, w)
       | Some input \<Rightarrow> (case UpdatePasskey_svc sv accountID credentialID input w of
           (Inl err, w1) \<Rightarrow> (sendAccountError err, w1)
         | (Inr x, w1) \<Rightarrow> (Reply 200 (PasskeyBody x), w1)))))"

definition DeletePasskeyHandler :: "('d, 'o) handler" where
  "DeletePasskeyHandler cd sv req w = (let accountID = rq_PathValue req ''id'' in
     if accountID = [] then (unauthorized, w)
     else (let credentialID = rq_PathValue req ''credential_id'' in
       if credentialID = [] then (badRequest, w)
       else (case DeletePasskey_svc sv accountID credentialID w of
           (Some err, w1) \<Rightarrow> (sendAccountError err, w1)
         | (None, w1) \<Rightarrow> (Reply 204 NoBody, w1))))"

section \<open>\<open>preferences.go\<close>\<close>

definition GetPreferencesHandler :: "('d, 'o) handler" where
  "GetPreferencesHandler cd sv req w = (let pathID = rq_PathValue req ''id'';
         accountID = (if pathID = [] then accountIDFromJWT req else pathID) in
     if accountID = [] then (unauthorized, w)
     else (case GetPreferences sv accountID w of
           (Inl err, w1) \<Rightarrow> (sendAccountError err, w1)
         | (Inr x, w1) \<Rightarrow> (Reply 200 (PreferencesBody x), w1)))"

definition UpdatePreferencesHandler :: "('d, 'o) handler" where
  "UpdatePreferencesHandler cd sv req w = (let accountID = accountIDFromJWT req in
     if accountID = [] then (unauthorized, w)
     else (case cd_Preferences cd (rq_Body req) of
         None \<Rightarrow> (badRequest, w)
       | Some input \<Rightarrow> (case UpdatePreferences sv accountID input w of
           (Some err, w1) \<Rightarrow> (sendAccountError err, w1)
         | (None, w1) \<Rightarrow> (Reply 200 (PreferencesBody input), w1))))"

section \<open>\<open>consent.go\<close>\<close>

definition GetConsentsHandler :: "('d, 'o) handler" where
  "GetConsentsHandler cd sv req w = (let accountID = accountIDFromJWT req in
     if accountID = [] then (unauthorized, w)
     else (notImplemented, w))"

definition RecordConsentHandler :: "('d, 'o) handler" where
  "RecordConsentHandler cd sv req w = (let accountID = accountIDFromJWT req in
     if accountID = [] then (unauthorized, w)
     else (notImplemented, w))"

section \<open>\<open>export.go\<close>\<close>

definition ExportProfileHandler :: "('d, 'o) handler" where
  "ExportProfileHandler cd sv req w = (let accountID = accountIDFromJWT req in
     if accountID = [] then (unauthorized, w)
     else (case ExportProfile sv accountID w of
           (Inl err, w1) \<Rightarrow> (sendAccountError err, w1)
         | (Inr x, w1) \<Rightarrow> (Reply 201 (ExportBody x), w1)))"

section \<open>\<open>unsubscribe.go\<close>\<close>

definition UnsubscribeHandler :: "('d, 'o) handler" where
  "UnsubscribeHandler cd sv req w = (case cd_UnsubscribeRequest cd (rq_Body req) of
       None \<Rightarrow> (badRequest, w)
     | Some tok \<Rightarrow>
         if tok = [] then (badRequest, w)
         else (case VerifyAndRecordUnsubscribe sv tok (rq_ClientKey req) (rq_UserAgent req) w of
           (Some err, w1) \<Rightarrow> (sendAccountError err, w1)
         | (None, w1) \<Rightarrow> (Reply 204 NoBody, w1)))"

definition MintUnsubscribeTokenHandler :: "('d, 'o) handler" where
  "MintUnsubscribeTokenHandler cd sv req w = (let accountID = rq_PathValue req ''id'' in
     if accountID = [] then (unauthorized, w)
     else (case cd_MintUnsubscribeTokenRequest cd (rq_Body req) of
         None \<Rightarrow> (badRequest, w)
       | Some channel \<Rightarrow>
           if channel = [] then (badRequest, w)
           else (case MintUnsubscribeToken sv accountID channel w of
           (Inl err, w1) \<Rightarrow> (sendAccountError err, w1)
         | (Inr x, w1) \<Rightarrow> (Reply 201 (TokenBody x), w1))))"

end
