(* ===== verification/Routes.thy ===== *)
theory Routes
  imports Http_Api
begin

text \<open>
  \<open>internal/server/mux.go\<close> and \<open>internal/api/middleware/scopes.go\<close>: the two route tables, the chain of middleware in
  front of every route, and the dispatch of a request by \<open>http.ServeMux\<close>. The SDK's middleware is a
  parameter: what it does with a request is either to answer it or to pass a request on. So are the two
  health handlers and the router's \<open>Group\<close>, whose documented behaviour (a common path prefix and common
  middleware for the routes registered inside) is the hypothesis \<open>group_law\<close> of the properties.
\<close>

section \<open>Middleware\<close>

datatype limiter = GeneralLimiter | ExistsLimiter

datatype mware =
    RequestIDMiddleware
  | TelemetryMiddleware
  | RateLimiterMiddleware limiter
  | CORSMiddleware
  | SecurityHeadersMiddleware
  | AuthMiddleware
  | CSRFMiddleware
  | NormalizationMiddleware
  | RuleValidationMiddleware
  | SanitizationMiddleware
  | IdempotencyMiddleware
  | JWTScopeObservabilityMiddleware
  | ScopeMiddleware

type_synonym sdk_middleware = "mware \<Rightarrow> request \<Rightarrow> response + request"

text \<open>The one middleware of this repository only logs and calls the next handler.\<close>

definition run_mware :: "sdk_middleware \<Rightarrow> mware \<Rightarrow> request \<Rightarrow> response + request" where
  "run_mware sdk m req = (if m = JWTScopeObservabilityMiddleware then Inr req else sdk m req)"

fun run_chain :: "sdk_middleware \<Rightarrow> mware list \<Rightarrow> request \<Rightarrow> response + request" where
  "run_chain sdk [] req = Inr req"
| "run_chain sdk (m # ms) req = (case run_mware sdk m req of Inl r \<Rightarrow> Inl r | Inr req' \<Rightarrow> run_chain sdk ms req')"

definition publicRead :: "mware list" where
  "publicRead = [RequestIDMiddleware, TelemetryMiddleware, RateLimiterMiddleware GeneralLimiter, CORSMiddleware,
     SecurityHeadersMiddleware, AuthMiddleware, CSRFMiddleware, NormalizationMiddleware, RuleValidationMiddleware,
     SanitizationMiddleware]"

definition publicWrite :: "mware list" where
  "publicWrite = publicRead @ [IdempotencyMiddleware]"

definition publicUnauth :: "mware list" where
  "publicUnauth = [RequestIDMiddleware, TelemetryMiddleware, RateLimiterMiddleware GeneralLimiter, CORSMiddleware,
     SecurityHeadersMiddleware]"

definition internal :: "mware list" where
  "internal = [RequestIDMiddleware, TelemetryMiddleware, AuthMiddleware, JWTScopeObservabilityMiddleware, ScopeMiddleware]"

section \<open>Routes\<close>

datatype endpoint =
    Health | Ready
  | GetProfileE | CreateAccountE | UpdateProfileE | DeleteProfileE | UpdateEmailE | AvatarUploadE | DeleteAvatarE
  | GetCredentialsE | UpdateCredentialsE | GetAccountExistsE
  | GetSettingsE | GetMySettingsE | UpdateSettingsE | UpdateSettingsTagsE
  | GetAddressesE | GetAddressE | AddAddressE | UpdateAddressE | DeleteAddressE
  | GetPaymentsE | GetPaymentE | UpsertPaymentE | DeletePaymentE
  | GetPasskeysE | AddPasskeyE | UpdatePasskeyE | DeletePasskeyE
  | GetPreferencesE | UpdatePreferencesE
  | GetConsentsE | RecordConsentE
  | ExportProfileE
  | UnsubscribeE | MintUnsubscribeTokenE

text \<open>The method of the service behind each endpoint; \<open>probe\<close> answers the health checks, which read nothing of the service.\<close>

definition handle :: "(endpoint \<Rightarrow> request \<Rightarrow> response) \<Rightarrow> endpoint \<Rightarrow> ('d, 'o) handler" where
  "handle probe e cd sv req w = (case e of
     Health \<Rightarrow> (probe e req, w) | Ready \<Rightarrow> (probe e req, w)
   | GetProfileE \<Rightarrow> GetProfileHandler cd sv req w
   | CreateAccountE \<Rightarrow> CreateAccountHandler cd sv req w
   | UpdateProfileE \<Rightarrow> UpdateProfileHandler cd sv req w
   | DeleteProfileE \<Rightarrow> DeleteProfileHandler cd sv req w
   | UpdateEmailE \<Rightarrow> UpdateEmailHandler cd sv req w
   | AvatarUploadE \<Rightarrow> AvatarUploadHandler cd sv req w
   | DeleteAvatarE \<Rightarrow> DeleteAvatarHandler cd sv req w
   | GetCredentialsE \<Rightarrow> GetCredentialsHandler cd sv req w
   | UpdateCredentialsE \<Rightarrow> UpdateCredentialsHandler cd sv req w
   | GetAccountExistsE \<Rightarrow> GetAccountExistsHandler cd sv req w
   | GetSettingsE \<Rightarrow> GetSettingsHandler cd sv req w
   | GetMySettingsE \<Rightarrow> GetMySettingsHandler cd sv req w
   | UpdateSettingsE \<Rightarrow> UpdateSettingsHandler cd sv req w
   | UpdateSettingsTagsE \<Rightarrow> UpdateSettingsTagsHandler cd sv req w
   | GetAddressesE \<Rightarrow> GetAddressesHandler cd sv req w
   | GetAddressE \<Rightarrow> GetAddressHandler cd sv req w
   | AddAddressE \<Rightarrow> AddAddressHandler cd sv req w
   | UpdateAddressE \<Rightarrow> UpdateAddressHandler cd sv req w
   | DeleteAddressE \<Rightarrow> DeleteAddressHandler cd sv req w
   | GetPaymentsE \<Rightarrow> GetPaymentsHandler cd sv req w
   | GetPaymentE \<Rightarrow> GetPaymentHandler cd sv req w
   | UpsertPaymentE \<Rightarrow> UpsertPaymentHandler cd sv req w
   | DeletePaymentE \<Rightarrow> DeletePaymentHandler cd sv req w
   | GetPasskeysE \<Rightarrow> GetPasskeysHandler cd sv req w
   | AddPasskeyE \<Rightarrow> AddPasskeyHandler cd sv req w
   | UpdatePasskeyE \<Rightarrow> UpdatePasskeyHandler cd sv req w
   | DeletePasskeyE \<Rightarrow> DeletePasskeyHandler cd sv req w
   | GetPreferencesE \<Rightarrow> GetPreferencesHandler cd sv req w
   | UpdatePreferencesE \<Rightarrow> UpdatePreferencesHandler cd sv req w
   | GetConsentsE \<Rightarrow> GetConsentsHandler cd sv req w
   | RecordConsentE \<Rightarrow> RecordConsentHandler cd sv req w
   | ExportProfileE \<Rightarrow> ExportProfileHandler cd sv req w
   | UnsubscribeE \<Rightarrow> UnsubscribeHandler cd sv req w
   | MintUnsubscribeTokenE \<Rightarrow> MintUnsubscribeTokenHandler cd sv req w)"

record route =
  rt_Method :: string
  rt_Path :: string
  rt_Chain :: "mware list"
  rt_Endpoint :: endpoint

definition on :: "string \<Rightarrow> endpoint \<Rightarrow> route" where
  "on m e = \<lparr>rt_Method = m, rt_Path = [], rt_Chain = [], rt_Endpoint = e\<rparr>"

text \<open>\<open>grp prefix uses routes\<close>: the routes registered in a group.\<close>

type_synonym grouping = "string \<Rightarrow> mware list \<Rightarrow> route list \<Rightarrow> route list"

definition group_law :: "grouping \<Rightarrow> bool" where
  "group_law grp \<longleftrightarrow> (\<forall>p ms rs. grp p ms rs =
     map (\<lambda>r. r\<lparr>rt_Path := p @ rt_Path r, rt_Chain := ms @ rt_Chain r\<rparr>) rs)"

definition health_routes :: "route list" where
  "health_routes = [(on ''GET'' Health)\<lparr>rt_Path := ''/health''\<rparr>, (on ''GET'' Ready)\<lparr>rt_Path := ''/health/ready''\<rparr>]"

definition NewPublicMux :: "grouping \<Rightarrow> route list" where
  "NewPublicMux grp = health_routes
   @ grp ''/v1'' [] (
       grp ''/me'' [] (
         grp ''/profile'' publicRead [on ''GET'' GetProfileE]
       @ grp ''/profile'' publicWrite [on ''POST'' CreateAccountE, on ''PUT'' UpdateProfileE, on ''DELETE'' DeleteProfileE]
       @ grp ''/profile/export'' publicWrite [on ''POST'' ExportProfileE]
       @ grp ''/profile/email'' publicWrite [on ''PUT'' UpdateEmailE]
       @ grp ''/profile/avatar'' publicWrite [on ''POST'' AvatarUploadE, on ''DELETE'' DeleteAvatarE]
       @ grp ''/addresses'' publicRead [on ''GET'' GetAddressesE]
       @ grp ''/addresses'' publicWrite [on ''POST'' AddAddressE]
       @ grp ''/addresses/{id}'' publicRead [on ''GET'' GetAddressE]
       @ grp ''/addresses/{id}'' publicWrite [on ''PUT'' UpdateAddressE, on ''DELETE'' DeleteAddressE]
       @ grp ''/payments'' publicRead [on ''GET'' GetPaymentsE]
       @ grp ''/payments'' publicWrite [on ''PUT'' UpsertPaymentE]
       @ grp ''/payments/{id}'' publicRead [on ''GET'' GetPaymentE]
       @ grp ''/payments/{id}'' publicWrite [on ''DELETE'' DeletePaymentE]
       @ grp ''/preferences'' publicRead [on ''GET'' GetPreferencesE]
       @ grp ''/preferences'' publicWrite [on ''PUT'' UpdatePreferencesE]
       @ grp ''/settings'' publicRead [on ''GET'' GetMySettingsE]
       @ grp ''/consents'' publicRead [on ''GET'' GetConsentsE]
       @ grp ''/consents'' publicWrite [on ''POST'' RecordConsentE])
     @ grp ''/communications/unsubscribe'' publicUnauth [on ''POST'' UnsubscribeE])
   @ [\<lparr>rt_Method = ''GET'', rt_Path = ''/v1/accounts/exists'', rt_Chain = RateLimiterMiddleware ExistsLimiter # publicUnauth,
        rt_Endpoint = GetAccountExistsE\<rparr>]"

definition NewPrivateMux :: "grouping \<Rightarrow> route list" where
  "NewPrivateMux grp = health_routes
   @ grp ''/v1'' internal (
       grp ''/accounts'' [] (
         grp ''/credentials'' [] [on ''GET'' GetCredentialsE]
       @ grp ''/{id}'' [] (
           [on ''GET'' GetProfileE]
         @ grp ''/addresses'' [] [on ''GET'' GetAddressesE]
         @ grp ''/preferences'' [] [on ''GET'' GetPreferencesE]
         @ grp ''/payments'' [] [on ''GET'' GetPaymentsE]
         @ grp ''/credentials'' [] [on ''PUT'' UpdateCredentialsE]
         @ grp ''/passkeys'' [] [on ''GET'' GetPasskeysE, on ''POST'' AddPasskeyE]
         @ grp ''/passkeys/{credential_id}'' [] [on ''PATCH'' UpdatePasskeyE, on ''DELETE'' DeletePasskeyE]
         @ grp ''/settings'' [] (
             [on ''GET'' GetSettingsE, on ''PUT'' UpdateSettingsE]
           @ grp ''/tags'' [] [on ''PUT'' UpdateSettingsTagsE])
         @ grp ''/communications/unsubscribe-token'' [] [on ''POST'' MintUnsubscribeTokenE])))"

text \<open>The rate limiter of \<open>/v1/accounts/exists\<close>. \<open>Atoi\<close> is \<open>strconv.Atoi\<close>, \<open>None\<close> for any error.\<close>

record ratelimit_config =
  rl_RPS :: nat
  rl_Burst :: nat
  rl_MaxEntries :: go_int
  rl_BucketTTLSecond :: go_int

definition existsLimiterConfig :: "(string \<Rightarrow> go_int option) \<Rightarrow> (string \<Rightarrow> string) \<Rightarrow> ratelimit_config" where
  "existsLimiterConfig Atoi Getenv =
     (let pos = (\<lambda>key dflt. case Atoi (Getenv key) of Some v \<Rightarrow> if 0 <s v then v else dflt | None \<Rightarrow> dflt)
      in \<lparr>rl_RPS = 1, rl_Burst = 5, rl_MaxEntries = pos ''EXISTS_RATE_LIMIT_MAX_ENTRIES'' 50000,
          rl_BucketTTLSecond = pos ''EXISTS_RATE_LIMIT_BUCKET_TTL_SEC'' 300\<rparr>)"

section \<open>Dispatch\<close>

text \<open>Patterns of \<open>http.ServeMux\<close>: segments are literal or a named wildcard, which matches one nonempty
  segment. A \<open>GET\<close> pattern also serves \<open>HEAD\<close>. Among the patterns that match, the most specific one wins. The
  path of a request is the list of its segments.\<close>

fun split_path :: "string \<Rightarrow> string list" where
  "split_path [] = []"
| "split_path (c # s) = (if c = CHR ''/'' then [] # split_path s
     else case split_path s of [] \<Rightarrow> [[c]] | seg # segs \<Rightarrow> (c # seg) # segs)"

datatype segment = Lit string | Wild string

definition segment_of :: "string \<Rightarrow> segment" where
  "segment_of s = (if s \<noteq> [] \<and> hd s = CHR 0x7B then Wild (butlast (tl s)) else Lit s)"

text \<open>The empty piece before the first slash is dropped.\<close>

definition pattern :: "route \<Rightarrow> segment list" where
  "pattern r = map segment_of (tl (split_path (rt_Path r)))"

fun match_segments :: "segment list \<Rightarrow> string list \<Rightarrow> (string \<times> string) list option" where
  "match_segments [] [] = Some []"
| "match_segments (Lit l # ps) (s # ss) = (if l = s then match_segments ps ss else None)"
| "match_segments (Wild n # ps) (s # ss) = (if s = [] then None else map_option ((#) (n, s)) (match_segments ps ss))"
| "match_segments _ _ = None"

definition method_matches :: "string \<Rightarrow> string \<Rightarrow> bool" where
  "method_matches m m' \<longleftrightarrow> m = m' \<or> m = ''GET'' \<and> m' = ''HEAD''"

definition matches :: "request \<Rightarrow> route \<Rightarrow> bool" where
  "matches req r \<longleftrightarrow> method_matches (rt_Method r) (rq_Method req) \<and> match_segments (pattern r) (rq_Path req) \<noteq> None"

fun segment_le :: "segment \<Rightarrow> segment \<Rightarrow> bool" where
  "segment_le (Lit a) (Lit b) = (a = b)"
| "segment_le (Lit a) (Wild _) = (a \<noteq> [])"
| "segment_le (Wild _) (Wild _) = True"
| "segment_le (Wild _) (Lit _) = False"

definition at_least_as_specific :: "route \<Rightarrow> route \<Rightarrow> bool" where
  "at_least_as_specific r r' \<longleftrightarrow> list_all2 segment_le (pattern r) (pattern r')"

definition find_route :: "route list \<Rightarrow> request \<Rightarrow> route option" where
  "find_route rs req = (let ms = filter (matches req) rs in find (\<lambda>r. list_all (at_least_as_specific r) ms) ms)"

definition path_value :: "route \<Rightarrow> request \<Rightarrow> string \<Rightarrow> string" where
  "path_value r req name = (case match_segments (pattern r) (rq_Path req) of
     None \<Rightarrow> [] | Some bs \<Rightarrow> opt_or [] (map_of bs name))"

text \<open>One request, from the mux to the response. With no route the mux answers 404, or 405 when another
  method would match.\<close>

definition serve :: "sdk_middleware \<Rightarrow> (endpoint \<Rightarrow> request \<Rightarrow> response) \<Rightarrow> route list \<Rightarrow> ('d, 'o) handler" where
  "serve sdk probe rs cd sv req w = (case find_route rs req of
     None \<Rightarrow> (Reply (if \<exists>r \<in> set rs. match_segments (pattern r) (rq_Path req) \<noteq> None then 405 else 404) NoBody, w)
   | Some r \<Rightarrow> (case run_chain sdk (rt_Chain r) (req\<lparr>rq_PathValue := path_value r req\<rparr>) of
       Inl resp \<Rightarrow> (resp, w)
     | Inr req' \<Rightarrow> handle probe (rt_Endpoint r) cd sv req' w))"

end
