(* ===== verification/Isolation.thy ===== *)
theory Isolation
  imports Routes
begin

text \<open>
  What a request can change. Each repository operation for an account stays in that account's partition
  (the locale \<open>tenant_repository\<close>, interpreted on the repository of \<open>internal/db\<close>); the handlers pass the caller's
  identifier on; the routes put authentication in front of them. Together: a request to the public
  port changes nothing but the data of the caller that the authentication middleware established.
\<close>

section \<open>Partitions\<close>

definition only_part :: "string \<Rightarrow> table \<Rightarrow> table \<Rightarrow> bool" where
  "only_part i tb tb' \<longleftrightarrow> (\<forall>k. fst k \<noteq> createPK i \<longrightarrow> tb' k = tb k)"

lemma only_part_refl [simp]: "only_part i tb tb"
  by (simp add: only_part_def)

lemma only_part_trans: "only_part i a b \<Longrightarrow> only_part i b c \<Longrightarrow> only_part i a c"
  by (simp add: only_part_def)

lemma only_part_upd: "fst k = createPK i \<Longrightarrow> only_part i tb (tb(k := x))"
  by (auto simp: only_part_def)

lemma only_part_put: "put_result f ok k new tb e tb' \<Longrightarrow> fst k = createPK i \<Longrightarrow> only_part i tb tb'"
  by (auto simp: put_result_def only_part_upd)

lemma only_part_cases: "tb' = tb(k := x) \<and> p \<or> tb' = tb \<and> q \<Longrightarrow> fst k = createPK i \<Longrightarrow> only_part i tb tb'"
  by (auto simp: only_part_upd)

lemma keys_part [simp]:
  "fst (address_key i a) = createPK i" "fst (payment_key i a) = createPK i" "fst (prefs_key i) = createPK i"
  "fst (passkey_key i a) = createPK i" "fst (consent_key i c t) = createPK i"
  by (simp_all add: address_key_def payment_key_def prefs_key_def passkey_key_def consent_key_def)

text \<open>What the service relies on: reads change nothing, and a write for an account stays in its partition.\<close>

locale tenant_repository =
  fixes R :: "'d repository" and tbl :: "'d \<Rightarrow> table"
  assumes get_account: "rp_GetAccount R i s = (x1, s') \<Longrightarrow> tbl s' = tbl s"
    and get_settings: "rp_GetSettings R i s = (x2, s') \<Longrightarrow> tbl s' = tbl s"
    and get_prefs: "rp_GetAccountPreferences R i s = (x3, s') \<Longrightarrow> tbl s' = tbl s"
    and get_addresses: "rp_GetAccountAddresses R i s = (x4, s') \<Longrightarrow> tbl s' = tbl s"
    and list_payments: "rp_ListPayments R i s = (x5, s') \<Longrightarrow> tbl s' = tbl s"
    and list_consents: "rp_ListConsentHistory R i s = (x6, s') \<Longrightarrow> tbl s' = tbl s"
    and get_passkeys: "rp_GetAccountPasskeys R i s = (x7, s') \<Longrightarrow> tbl s' = tbl s"
    and create_address: "rp_CreateAddress R fresh i a s = (y1, s') \<Longrightarrow> only_part i (tbl s) (tbl s')"
    and update_address: "rp_UpdateAddress R i aid u s = (y2, s') \<Longrightarrow> only_part i (tbl s) (tbl s')"
    and delete_address: "rp_DeleteAddress R i aid s = (y2, s') \<Longrightarrow> only_part i (tbl s) (tbl s')"
    and default_address: "rp_SetAddressDefault R t i aid s = (y2, s') \<Longrightarrow> only_part i (tbl s) (tbl s')"
    and upsert_payment: "rp_UpsertPayment R fresh i m s = (y3, s') \<Longrightarrow> only_part i (tbl s) (tbl s')"
    and delete_payment: "rp_DeletePayment R i pid s = (y2, s') \<Longrightarrow> only_part i (tbl s) (tbl s')"
    and default_payment: "rp_SetPaymentDefault R t i pid s = (y2, s') \<Longrightarrow> only_part i (tbl s) (tbl s')"
    and update_prefs: "rp_UpdateAccountPreferences R i p s = (y2, s') \<Longrightarrow> only_part i (tbl s) (tbl s')"

lemma repository_tenant_sel [simp]:
  "rp_GetAccountPreferences (db_repository r) = GetAccountPreferences r"
  "rp_GetAccountAddresses (db_repository r) = GetAccountAddresses r" "rp_ListPayments (db_repository r) = ListPayments r"
  "rp_ListConsentHistory (db_repository r) = ListConsentHistory r"
  "rp_GetAccountPasskeys (db_repository r) = GetAccountPasskeys r" "rp_CreateAddress (db_repository r) = CreateAddress r"
  "rp_UpdateAddress (db_repository r) = UpdateAddress r" "rp_DeleteAddress (db_repository r) = DeleteAddress r"
  "rp_SetAddressDefault (db_repository r) = SetAddressDefault r" "rp_UpsertPayment (db_repository r) = UpsertPayment r"
  "rp_DeletePayment (db_repository r) = DeletePayment r" "rp_SetPaymentDefault (db_repository r) = SetPaymentDefault r"
  "rp_UpdateAccountPreferences (db_repository r) = UpdateAccountPreferences r"
  by (simp_all add: db_repository_def)

lemma history_query_is: "is_prefix_query r (history_query r i) (createPK i) ''CONSENT#'' None (Some 1000)"
  unfolding is_prefix_query_def history_query_def by (rule exI [of _ "'':prefix''"]) (simp add: token_def)

context dynamo
begin

lemma tenant_reads:
  "GetAccountAddresses r i s = (x4, s') \<Longrightarrow> tbl s' = tbl s"
  "ListPayments r i s = (x5, s') \<Longrightarrow> tbl s' = tbl s"
  "ListConsentHistory r i s = (x6, s') \<Longrightarrow> tbl s' = tbl s"
  "GetAccountPasskeys r i s = (x7, s') \<Longrightarrow> tbl s' = tbl s"
  unfolding GetAccountAddresses_def ListPayments_def ListConsentHistory_def GetAccountPasskeys_def
  by (erule listing_tbl, rule prefix_query_is history_query_is)+

lemma tenant_writes:
  "CreateAddress r fresh i a s = (y1, s') \<Longrightarrow> only_part i (tbl s) (tbl s')"
  "UpdateAddress r i aid u s = (y2, s') \<Longrightarrow> only_part i (tbl s) (tbl s')"
  "DeleteAddress r i aid s = (y2, s') \<Longrightarrow> only_part i (tbl s) (tbl s')"
  "SetAddressDefault r t i aid s = (y2, s') \<Longrightarrow> only_part i (tbl s) (tbl s')"
  "UpsertPayment r fresh i m s = (y3, s') \<Longrightarrow> only_part i (tbl s) (tbl s')"
  "DeletePayment r i pid s = (y2, s') \<Longrightarrow> only_part i (tbl s) (tbl s')"
  "SetPaymentDefault r t i pid s = (y2, s') \<Longrightarrow> only_part i (tbl s) (tbl s')"
  "UpdateAccountPreferences r i p s = (y2, s') \<Longrightarrow> only_part i (tbl s) (tbl s')"
proof -
  show "CreateAddress r fresh i a s = (y1, s') \<Longrightarrow> only_part i (tbl s) (tbl s')"
    by (cases y1) (auto dest!: CreateAddress_spec intro: only_part_put)
  show "UpdateAddress r i aid u s = (y2, s') \<Longrightarrow> only_part i (tbl s) (tbl s')"
    by (drule UpdateAddress_spec) (auto intro: only_part_put)
  show "DeleteAddress r i aid s = (y2, s') \<Longrightarrow> only_part i (tbl s) (tbl s')"
    by (drule DeleteAddress_spec) (erule only_part_cases, simp)
  show "SetAddressDefault r t i aid s = (y2, s') \<Longrightarrow> only_part i (tbl s) (tbl s')"
    unfolding SetAddressDefault_def only_part_def using demote_part by blast
  show "UpsertPayment r fresh i m s = (y3, s') \<Longrightarrow> only_part i (tbl s) (tbl s')"
    by (cases y3) (auto dest!: UpsertPayment_spec intro: only_part_put)
  show "DeletePayment r i pid s = (y2, s') \<Longrightarrow> only_part i (tbl s) (tbl s')"
    by (drule DeletePayment_spec) (erule only_part_cases, simp)
  show "SetPaymentDefault r t i pid s = (y2, s') \<Longrightarrow> only_part i (tbl s) (tbl s')"
    unfolding SetPaymentDefault_def only_part_def using demote_part by blast
  show "UpdateAccountPreferences r i p s = (y2, s') \<Longrightarrow> only_part i (tbl s) (tbl s')"
    by (drule UpdateAccountPreferences_spec) (auto simp: only_part_upd)
qed

end

sublocale dynamo \<subseteq> tenants: tenant_repository "db_repository r" tbl
  by unfold_locales (unfold repository_tenant_sel repository_account_sel repository_settings_sel,
    (erule tenant_reads tenant_writes | blast dest: GetAccount_spec GetSettings_spec GetAccountPreferences_spec)+)

context dynamo
begin

lemma tenant_laws: "tenant_repository (db_repository r) tbl"
  by (rule tenants.tenant_repository_axioms)

end

interpretation mem_tenants: tenant_repository "db_repository mem_repo" mem_tbl
  by (rule mem.tenant_laws)


section \<open>The service\<close>

context tenant_repository
begin

lemma service_reads:
  assumes "sv_repo sv = R"
  shows "GetAddresses sv i w = (x1, w') \<Longrightarrow> tbl (w_db w') = tbl (w_db w)"
    and "GetPayments sv i w = (x2, w') \<Longrightarrow> tbl (w_db w') = tbl (w_db w)"
    and "GetPreferences sv i w = (x3, w') \<Longrightarrow> tbl (w_db w') = tbl (w_db w)"
    and "GetPasskeys sv i w = (x4, w') \<Longrightarrow> tbl (w_db w') = tbl (w_db w)"
    and "GetProfile sv i w = (x5, w') \<Longrightarrow> tbl (w_db w') = tbl (w_db w)"
    and "GetAvatarUploadURL sv i ct len w = (x6, w') \<Longrightarrow> tbl (w_db w') = tbl (w_db w)"
    and "GetSettings_svc sv i w = (x7, w') \<Longrightarrow> tbl (w_db w') = tbl (w_db w)"
  by (auto simp: assms GetAddresses_def GetPayments_def GetPreferences_def GetPasskeys_def GetProfile_def GetAvatarUploadURL_def
      GetSettings_svc_def call_db_eq call_s3_eq Let_def
      dest!: get_addresses list_payments get_prefs get_passkeys get_account get_settings profile_get_spec(1)
      split: prod.splits sum.splits option.splits if_splits)

lemma gather_tbl:
  assumes "gather r next = (x, w')" "tbl (w_db (snd r)) = tb"
    and "\<And>y w x w'. next y w = (x, w') \<Longrightarrow> tbl (w_db w) = tb \<Longrightarrow> tbl (w_db w') = tb"
  shows "tbl (w_db w') = tb"
  using assms by (cases r) (auto simp: gather_def split: sum.splits if_splits)

lemma call_db_tbl: "(\<And>x s'. f s = (x, s') \<Longrightarrow> tbl s' = tb) \<Longrightarrow> w_db w = s \<Longrightarrow> tbl (w_db (snd (call_db f w))) = tb"
  by (simp add: call_db_def split: prod.splits)

lemma gatherProfileExportData_tbl:
  assumes "gatherProfileExportData sv i w = (x, w')" "sv_repo sv = R"
  shows "tbl (w_db w') = tbl (w_db w)"
  using assms(1) unfolding gatherProfileExportData_def assms(2)
  by (elim gather_tbl)
    (auto intro!: call_db_tbl simp: get_settings get_prefs get_addresses list_payments list_consents get_passkeys)

lemma ExportProfile_tbl:
  assumes "ExportProfile sv i w = (x, w')" "sv_repo sv = R"
  shows "tbl (w_db w') = tbl (w_db w)"
proof (cases "sv_s3 sv")
  case None
  with assms show ?thesis by (simp add: ExportProfile_def)
next
  case (Some s3)
  obtain y w1 where y: "call_db (rp_GetAccount R i) w = (y, w1)" by fastforce
  then have t1: "tbl (w_db w1) = tbl (w_db w)" by (auto simp: call_db_eq dest: get_account)
  show ?thesis
  proof (cases y)
    case (Inl e)
    with assms Some y t1 show ?thesis by (simp add: ExportProfile_def)
  next
    case (Inr profile)
    obtain d w2 where d: "gatherProfileExportData sv i w1 = (d, w2)" by fastforce
    with t1 have "tbl (w_db w2) = tbl (w_db w)" using gatherProfileExportData_tbl [OF _ assms(2)] by simp
    moreover have "w_db w' = w_db w2"
      using assms Some y Inr d
      by (auto simp: ExportProfile_def new_ksuid_def now_def call_s3_eq Let_def split: sum.splits option.splits prod.splits)
    ultimately show ?thesis by simp
  qed
qed

lemma service_writes:
  assumes "sv_repo sv = R"
  shows "AddAddress sv i a w = (x1, w') \<Longrightarrow> only_part i (tbl (w_db w)) (tbl (w_db w'))"
    and "UpdateAddress_svc sv i aid u w = (x2, w') \<Longrightarrow> only_part i (tbl (w_db w)) (tbl (w_db w'))"
    and "DeleteAddress_svc sv i aid w = (x2, w') \<Longrightarrow> only_part i (tbl (w_db w)) (tbl (w_db w'))"
    and "UpsertPayment_svc sv i m w = (x3, w') \<Longrightarrow> only_part i (tbl (w_db w)) (tbl (w_db w'))"
    and "DeletePayment_svc sv i pid w = (x2, w') \<Longrightarrow> only_part i (tbl (w_db w)) (tbl (w_db w'))"
    and "UpdatePreferences sv i p w = (x2, w') \<Longrightarrow> only_part i (tbl (w_db w)) (tbl (w_db w'))"
proof -
  note ops = AddAddress_def UpdateAddress_svc_def DeleteAddress_svc_def UpsertPayment_svc_def DeletePayment_svc_def
    UpdatePreferences_def new_ksuid_def utc_now_def now_def call_db_eq
  show "UpdateAddress_svc sv i aid u w = (x2, w') \<Longrightarrow> only_part i (tbl (w_db w)) (tbl (w_db w'))"
    by (auto simp: assms ops dest!: update_address default_address intro: only_part_trans
        split: prod.splits option.splits if_splits)
  show "AddAddress sv i a w = (x1, w') \<Longrightarrow> only_part i (tbl (w_db w)) (tbl (w_db w'))"
    by (auto simp: assms ops dest!: create_address default_address intro: only_part_trans
        split: prod.splits option.splits if_splits)
  show "UpsertPayment_svc sv i m w = (x3, w') \<Longrightarrow> only_part i (tbl (w_db w)) (tbl (w_db w'))"
    by (auto simp: assms ops dest!: upsert_payment default_payment intro: only_part_trans
        split: prod.splits option.splits if_splits)
  show "DeleteAddress_svc sv i aid w = (x2, w') \<Longrightarrow> only_part i (tbl (w_db w)) (tbl (w_db w'))"
    "DeletePayment_svc sv i pid w = (x2, w') \<Longrightarrow> only_part i (tbl (w_db w)) (tbl (w_db w'))"
    "UpdatePreferences sv i p w = (x2, w') \<Longrightarrow> only_part i (tbl (w_db w)) (tbl (w_db w'))"
    by (auto simp: assms ops dest!: delete_address delete_payment update_prefs
        split: prod.splits option.splits if_splits)
qed

end


section \<open>The handlers\<close>

text \<open>What a request of caller \<open>i\<close> may change: its own partition, and the reservation of an email address: one
  that nobody holds, or its own, which it can only give up. A request without a caller changes nothing.\<close>

definition own_change :: "string \<Rightarrow> table \<Rightarrow> table \<Rightarrow> bool" where
  "own_change i tb tb' \<longleftrightarrow> (\<forall>k. tb' k \<noteq> tb k \<longrightarrow> i \<noteq> [] \<and> (fst k = createPK i
     \<or> (\<exists>em. k = reservation_key em \<and> (tb k = None \<or> owns tb i em \<and> tb' k = None))))"

lemma own_change_refl [simp]: "own_change i tb tb"
  by (simp add: own_change_def)

lemma only_part_own: "only_part i tb tb' \<Longrightarrow> i \<noteq> [] \<Longrightarrow> own_change i tb tb'"
  by (auto simp: only_part_def own_change_def)

lemma created_own: "free i (ca_Email req) tb \<Longrightarrow> i \<noteq> [] \<Longrightarrow> own_change i tb (created t i req tb)"
  by (auto simp: own_change_def created_def free_def profile_key_def settings_key_def)

lemma erased_own: "owns tb i em \<Longrightarrow> i \<noteq> [] \<Longrightarrow> own_change i tb (erased i em tb)"
  by (auto simp: own_change_def erased_def erase_def part_def)

lemma part_erase_own: "D \<subseteq> part i - {profile_key i} \<Longrightarrow> i \<noteq> [] \<Longrightarrow> own_change i tb (erase D tb)"
  by (auto simp: own_change_def erase_def part_def)

context account_repository
begin

lemma account_changes:
  assumes R: "sv_repo sv = R"
  shows "CreateAccount_svc sv i req w = (x, w') \<Longrightarrow> own_change i (tbl (w_db w)) (tbl (w_db w'))"
    and "UpdateProfile sv i u w = (y, w') \<Longrightarrow> profiles_ok (tbl (w_db w)) w \<Longrightarrow> i \<noteq> [] \<Longrightarrow>
      own_change i (tbl (w_db w)) (tbl (w_db w'))"
    and "DeleteProfile sv i c w = (e, w') \<Longrightarrow> profiles_ok (tbl (w_db w)) w \<Longrightarrow> registry_ok (tbl (w_db w)) \<Longrightarrow> i \<noteq> [] \<Longrightarrow>
      own_change i (tbl (w_db w)) (tbl (w_db w'))"
    and "CheckAccountExists sv em w = (z, w') \<Longrightarrow> registry_ok (tbl (w_db w)) \<Longrightarrow> tbl (w_db w') = tbl (w_db w)"
proof -
  have p: "only_part i tb (tb(profile_key i \<mapsto> it))" for tb it
    by (rule only_part_upd) (simp add: profile_key_def)
  show "own_change i (tbl (w_db w)) (tbl (w_db w'))" if "CreateAccount_svc sv i req w = (x, w')"
  proof (cases "i = []")
    case True
    with that show ?thesis by (simp add: CreateAccount_svc_def)
  next
    case False
    with CreateAccount_svc_spec [OF that R] show ?thesis
      by (cases x) (auto intro: created_own)
  qed
  show "own_change i (tbl (w_db w)) (tbl (w_db w'))"
    if "UpdateProfile sv i u w = (y, w')" "profiles_ok (tbl (w_db w)) w" "i \<noteq> []"
    using UpdateProfile_spec [OF that(1) R that(2)] only_part_own [OF p that(3)] by (cases y) auto
  show "own_change i (tbl (w_db w)) (tbl (w_db w'))"
    if "DeleteProfile sv i c w = (e, w')" "profiles_ok (tbl (w_db w)) w" "registry_ok (tbl (w_db w))" "i \<noteq> []"
    using DeleteProfile_spec [OF that(1) R that(2,3)] that(4)
    by (cases e) (auto intro: erased_own part_erase_own)
  show "tbl (w_db w') = tbl (w_db w)" if "CheckAccountExists sv em w = (z, w')" "registry_ok (tbl (w_db w))"
    using that by (auto simp: CheckAccountExists_def call_db_eq R dest: account_exists)
qed

end


lemma reply_result: "(case r of (Inl err, w1) \<Rightarrow> (sendAccountError err, w1) | (Inr x, w1) \<Rightarrow> (g x, w1)) = (resp, w')
    \<Longrightarrow> \<exists>x. r = (x, w')"
  by (cases r) (auto split: sum.splits)

lemma reply_option: "(case r of (Some err, w1) \<Rightarrow> (sendAccountError err, w1) | (None, w1) \<Rightarrow> (g, w1)) = (resp, w')
    \<Longrightarrow> \<exists>x. r = (x, w')"
  by (cases r) (auto split: option.splits)

lemma reply_input: "(case r of ((Some err, _), w1) \<Rightarrow> (sendAccountError err, w1) | ((None, y), w1) \<Rightarrow> (g y, w1)) = (resp, w')
    \<Longrightarrow> \<exists>x. r = (x, w')"
  by (cases r) (auto split: option.splits prod.splits)

context dynamo
begin

text \<open>Handlers that only read.\<close>

lemma read_handlers:
  assumes "sv_repo sv = db_repository r"
  shows "GetProfileHandler cd sv req w = (resp, w') \<Longrightarrow> tbl (w_db w') = tbl (w_db w)"
    and "GetAddressesHandler cd sv req w = (resp, w') \<Longrightarrow> tbl (w_db w') = tbl (w_db w)"
    and "GetPaymentsHandler cd sv req w = (resp, w') \<Longrightarrow> tbl (w_db w') = tbl (w_db w)"
    and "GetPreferencesHandler cd sv req w = (resp, w') \<Longrightarrow> tbl (w_db w') = tbl (w_db w)"
    and "AvatarUploadHandler cd sv req w = (resp, w') \<Longrightarrow> tbl (w_db w') = tbl (w_db w)"
    and "ExportProfileHandler cd sv req w = (resp, w') \<Longrightarrow> tbl (w_db w') = tbl (w_db w)"
    and "UpdateEmailHandler cd sv req w = (resp, w') \<Longrightarrow> w' = w"
    and "DeleteAvatarHandler cd sv req w = (resp, w') \<Longrightarrow> w' = w"
    and "GetAddressHandler cd sv req w = (resp, w') \<Longrightarrow> w' = w"
    and "GetPaymentHandler cd sv req w = (resp, w') \<Longrightarrow> w' = w"
    and "GetMySettingsHandler cd sv req w = (resp, w') \<Longrightarrow> w' = w"
    and "GetConsentsHandler cd sv req w = (resp, w') \<Longrightarrow> w' = w"
    and "RecordConsentHandler cd sv req w = (resp, w') \<Longrightarrow> w' = w"
  by (auto simp: GetProfileHandler_def GetAddressesHandler_def GetPaymentsHandler_def GetPreferencesHandler_def
      AvatarUploadHandler_def ExportProfileHandler_def UpdateEmailHandler_def DeleteAvatarHandler_def
      GetAddressHandler_def GetPaymentHandler_def GetMySettingsHandler_def GetConsentsHandler_def RecordConsentHandler_def Let_def
      dest!: reply_result tenants.service_reads [OF assms] tenants.ExportProfile_tbl [OF _ assms]
      split: if_splits option.splits)

lemma write_handlers:
  assumes "sv_repo sv = db_repository r"
  shows "AddAddressHandler cd sv req w = (resp, w') \<Longrightarrow> own_change (accountIDFromJWT req) (tbl (w_db w)) (tbl (w_db w'))"
    and "UpdateAddressHandler cd sv req w = (resp, w') \<Longrightarrow> own_change (accountIDFromJWT req) (tbl (w_db w)) (tbl (w_db w'))"
    and "DeleteAddressHandler cd sv req w = (resp, w') \<Longrightarrow> own_change (accountIDFromJWT req) (tbl (w_db w)) (tbl (w_db w'))"
    and "UpsertPaymentHandler cd sv req w = (resp, w') \<Longrightarrow> own_change (accountIDFromJWT req) (tbl (w_db w)) (tbl (w_db w'))"
    and "DeletePaymentHandler cd sv req w = (resp, w') \<Longrightarrow> own_change (accountIDFromJWT req) (tbl (w_db w)) (tbl (w_db w'))"
    and "UpdatePreferencesHandler cd sv req w = (resp, w') \<Longrightarrow> own_change (accountIDFromJWT req) (tbl (w_db w)) (tbl (w_db w'))"
  by (auto simp: AddAddressHandler_def UpdateAddressHandler_def DeleteAddressHandler_def UpsertPaymentHandler_def
      DeletePaymentHandler_def UpdatePreferencesHandler_def Let_def
      dest!: reply_option reply_input tenants.service_writes [OF assms] intro: only_part_own
      split: if_splits option.splits)

lemma account_handlers:
  assumes R: "sv_repo sv = db_repository r" and ok: "profiles_ok (tbl (w_db w)) w" "registry_ok (tbl (w_db w))"
  shows "CreateAccountHandler cd sv req w = (resp, w') \<Longrightarrow> own_change (accountIDFromJWT req) (tbl (w_db w)) (tbl (w_db w'))"
    and "UpdateProfileHandler cd sv req w = (resp, w') \<Longrightarrow> own_change (accountIDFromJWT req) (tbl (w_db w)) (tbl (w_db w'))"
    and "DeleteProfileHandler cd sv req w = (resp, w') \<Longrightarrow> own_change (accountIDFromJWT req) (tbl (w_db w)) (tbl (w_db w'))"
    and "GetAccountExistsHandler cd sv req w = (resp, w') \<Longrightarrow> tbl (w_db w') = tbl (w_db w)"
  by (auto simp: CreateAccountHandler_def UpdateProfileHandler_def DeleteProfileHandler_def GetAccountExistsHandler_def Let_def
      dest!: reply_result reply_option dest: accounts.account_changes [OF R] simp: ok
      split: if_splits option.splits)

end

section \<open>The routes\<close>

text \<open>The endpoints behind authentication on the public port, and the open ones.\<close>

definition open_endpoints :: "endpoint set" where
  "open_endpoints = {Health, Ready, UnsubscribeE, GetAccountExistsE}"

definition own_endpoints :: "endpoint set" where
  "own_endpoints = {GetProfileE, CreateAccountE, UpdateProfileE, DeleteProfileE, UpdateEmailE, AvatarUploadE, DeleteAvatarE,
     GetAddressesE, GetAddressE, AddAddressE, UpdateAddressE, DeleteAddressE, GetPaymentsE, GetPaymentE, UpsertPaymentE,
     DeletePaymentE, GetPreferencesE, UpdatePreferencesE, GetMySettingsE, GetConsentsE, RecordConsentE, ExportProfileE}"

lemma public_routes:
  assumes "group_law grp" "rt \<in> set (NewPublicMux grp)"
  shows "rt_Endpoint rt \<in> open_endpoints
    \<or> rt_Endpoint rt \<in> own_endpoints \<and> AuthMiddleware \<in> set (rt_Chain rt) \<and> has_prefix ''/v1/me/'' (rt_Path rt)"
  using assms
  by (auto simp: group_law_def NewPublicMux_def health_routes_def on_def open_endpoints_def own_endpoints_def
      publicRead_def publicWrite_def has_prefix_def)


section \<open>Properties\<close>

lemma find_route_member: "find_route rs req = Some rt \<Longrightarrow> rt \<in> set rs \<and> matches req rt"
  by (auto simp: find_route_def Let_def find_Some_iff dest!: nth_mem)

text \<open>A request that came through a chain with authentication: what the middleware before it made of the request
  was accepted, and the rest of the chain made the handler's request of what authentication returned.\<close>

lemma chain_split:
  "run_chain sdk (as @ m # bs) req = Inr req' \<Longrightarrow>
    \<exists>req1 req2. run_chain sdk as req = Inr req1 \<and> run_mware sdk m req1 = Inr req2 \<and> run_chain sdk bs req2 = Inr req'"
  by (induction as arbitrary: req) (auto split: sum.splits)

definition authenticated :: "sdk_middleware \<Rightarrow> mware list \<Rightarrow> request \<Rightarrow> request \<Rightarrow> bool" where
  "authenticated sdk ms req req' \<longleftrightarrow> (\<exists>as bs req1 req2. ms = as @ AuthMiddleware # bs \<and> run_chain sdk as req = Inr req1
     \<and> sdk AuthMiddleware req1 = Inr req2 \<and> run_chain sdk bs req2 = Inr req')"

lemma chain_authenticated:
  assumes "run_chain sdk ms req = Inr req'" "AuthMiddleware \<in> set ms"
  shows "authenticated sdk ms req req'"
proof -
  from assms(2) obtain as bs where ms: "ms = as @ AuthMiddleware # bs" by (meson split_list)
  from chain_split [OF assms(1) [unfolded ms]] ms show ?thesis
    by (auto simp: authenticated_def run_mware_def)
qed

lemma VerifyAndRecord_changes:
  assumes "dynamo r tbl ssl fits" "sv_repo sv = db_repository r"
    and "consent_keys_ok (tbl (w_db w))" "channel_fits fits (tbl (w_db w))"
    and "VerifyAndRecordUnsubscribe sv tok ip ua w = (e, w')" "tbl (w_db w') k \<noteq> tbl (w_db w) k"
  shows "\<exists>p t. authentic sv w tok p \<and> k = consent_key (up_AccountID p) (up_Channel p) t"
  using assms(5)
proof (cases rule: VerifyAndRecord_cases)
  case rejected
  with assms(6) show ?thesis by simp
next
  case (accepted p w1)
  from VerifyAndRecord_table [OF assms(1-5) accepted(1)] assms(6) accepted(1) show ?thesis
    by (auto simp: put_result_def split: if_splits) blast
qed



text \<open>A concrete deployment: the documented grouping, a middleware chain that lets everything pass and takes the
  caller from the request, and a codec that knows two bodies.\<close>

definition sample_group :: grouping where
  "sample_group p ms rs = map (\<lambda>r. r\<lparr>rt_Path := p @ rt_Path r, rt_Chain := ms @ rt_Chain r\<rparr>) rs"

definition sample_sdk :: sdk_middleware where
  "sample_sdk m req = (if m = AuthMiddleware then Inr (req\<lparr>rq_UserID := Some (rq_UserAgent req)\<rparr>) else Inr req)"

definition sample_probe :: "endpoint \<Rightarrow> request \<Rightarrow> response" where
  "sample_probe e req = Reply 200 NoBody"

definition sample_codec :: codec where
  "sample_codec = \<lparr>cd_CreateAccountRequest = (\<lambda>_. None), cd_UpdateAccountRequest = (\<lambda>_. None),
     cd_DeleteProfileRequest = (\<lambda>_. None), cd_AvatarUploadRequest = (\<lambda>_. None), cd_UpdateCredentialsRequest = (\<lambda>_. None),
     cd_UpdateSettingsRequest = (\<lambda>_. Some sample_settings_update), cd_UpdateSettingsTagsRequest = (\<lambda>_. None), cd_Address = (\<lambda>_. None),
     cd_UpdateAddressRequest = (\<lambda>_. None), cd_PaymentMethod = (\<lambda>_. None), cd_PasskeyCredential = (\<lambda>_. None),
     cd_Preferences = (\<lambda>b. Some \<lparr>pr_Communication = None, pr_Language = Some b, pr_Timezone = None\<rparr>),
     cd_UnsubscribeRequest = (\<lambda>_. None), cd_MintUnsubscribeTokenRequest = (\<lambda>_. None)\<rparr>"

definition sample_call :: "string \<Rightarrow> string list \<Rightarrow> request" where
  "sample_call m p = \<lparr>rq_Method = m, rq_Path = p, rq_PathValue = (\<lambda>_. []), rq_Query = (\<lambda>_. []), rq_UserAgent = ''a1'',
     rq_ClientKey = [], rq_UserID = None, rq_Scopes = [''svc:accounts-api''], rq_Body = ''en''\<rparr>"

lemma sample_group_law: "group_law sample_group"
  by (simp add: group_law_def sample_group_def)

lemma sample_store: "store_ok (mem_tbl sample_mem)"
  using sample_mem_registry consent_mem_keys_ok(1) by (simp add: store_ok_def)


lemma private_routes:
  assumes "group_law grp" "rt \<in> set (NewPrivateMux grp)"
  shows "rt_Endpoint rt \<in> {Health, Ready} \<or> rt_Chain rt = internal"
  using assms
  by (auto simp: group_law_def NewPrivateMux_def health_routes_def on_def)

text \<open>C9 (the private port). No request to the internal port has any effect, on the table or on a cache,
  unless the authentication middleware passed it, after nothing but the request identifier and the telemetry, and the
  scope middleware passed what authentication returned; the handler sees exactly the request that the scope
  middleware let through.\<close>

theorem private_guarded:
  assumes "group_law grp" and "serve sdk probe (NewPrivateMux grp) cd sv req w = (resp, w')" and "w' \<noteq> w"
  shows "\<exists>rt req1 req2 req'. find_route (NewPrivateMux grp) req = Some rt
    \<and> run_chain sdk [RequestIDMiddleware, TelemetryMiddleware] (req\<lparr>rq_PathValue := path_value rt req\<rparr>) = Inr req1
    \<and> sdk AuthMiddleware req1 = Inr req2 \<and> sdk ScopeMiddleware req2 = Inr req'
    \<and> handle probe (rt_Endpoint rt) cd sv req' w = (resp, w')"
proof -
  obtain rt req' where rt: "find_route (NewPrivateMux grp) req = Some rt"
    "run_chain sdk (rt_Chain rt) (req\<lparr>rq_PathValue := path_value rt req\<rparr>) = Inr req'"
    and h: "handle probe (rt_Endpoint rt) cd sv req' w = (resp, w')"
    using assms(2,3) by (auto simp: serve_def split: option.splits sum.splits)
  have "rt_Endpoint rt \<notin> {Health, Ready}" using h assms(3) by (auto simp: handle_def)
  with private_routes [OF assms(1)] find_route_member [OF rt(1)] have "rt_Chain rt = internal" by blast
  with rt h show ?thesis by (auto simp: internal_def run_mware_def split: sum.splits)
qed

lemma private_guarded_witness:
  "\<exists>resp w' req1 req2. serve sample_sdk sample_probe (NewPrivateMux sample_group) sample_codec sample_sv
        (sample_call ''PUT'' [''v1'', ''accounts'', ''a1'', ''settings'']) (sample_world sample_mem) = (resp, w')
    \<and> w' \<noteq> sample_world sample_mem \<and> sample_sdk AuthMiddleware req1 = Inr req2"
proof -
  let ?req = "sample_call ''PUT'' [''v1'', ''accounts'', ''a1'', ''settings'']"
  obtain resp w' where run: "serve sample_sdk sample_probe (NewPrivateMux sample_group) sample_codec sample_sv ?req
      (sample_world sample_mem) = (resp, w')" by fastforce
  have "w_ticks (snd (serve sample_sdk sample_probe (NewPrivateMux sample_group) sample_codec sample_sv ?req
      (sample_world sample_mem))) \<noteq> w_ticks (sample_world sample_mem)" by code_simp
  with run have "w' \<noteq> sample_world sample_mem" by auto
  with private_guarded [OF sample_group_law run] run show ?thesis by blast
qed

end
