(* ===== verification/Startup.thy ===== *)
theory Startup
  imports Complex_Main Routes
begin

text \<open>
  How the process starts: \<open>cmd/server/main.go\<close> and \<open>setup.go\<close>, the clients of \<open>internal/clients\<close>, and the probe of
  \<open>internal/api/health.go\<close>. The SDK's constructors and the process environment are parameters. An exit of the
  process (\<open>os.Exit\<close>, \<open>logger.Fatal\<close>) is a result of its own, with its message; nothing is served after it.
\<close>

datatype 'a boot = Exit nat string | Up 'a

section \<open>Reading the environment\<close>

text \<open>\<open>strconv.Atoi\<close> and \<open>strconv.ParseInt(s, 10, 64)\<close>: an optional sign and decimal digits, in range.\<close>

definition Atoi :: "string \<Rightarrow> go_int option" where
  "Atoi s = (let (neg, ds) = (case s of [] \<Rightarrow> (False, s)
       | c # cs \<Rightarrow> if c = CHR ''-'' then (True, cs) else if c = CHR ''+'' then (False, cs) else (False, s)) in
     case (if ds = [] then None else parse_digits 0 ds) of
       None \<Rightarrow> None
     | Some n \<Rightarrow> (let i = (if neg then - int n else int n) in
         if - (2 ^ 63) \<le> i \<and> i < 2 ^ 63 then Some (word_of_int i) else None))"

text \<open>\<open>time.ParseDuration\<close>, in nanoseconds. Go scales a fraction in floating point; here it is exact, cut to a
  whole nanosecond, and the two spellings of microseconds outside ASCII are left out. \<open>fuel\<close> bounds the number of terms, of which each takes at least two characters.\<close>

definition unit_ns :: "string \<Rightarrow> nat option" where
  "unit_ns u = map_of [(''ns'', 1), (''us'', 1000), (''ms'', 10 ^ 6), (''s'', 10 ^ 9), (''m'', 60 * 10 ^ 9), (''h'', 3600 * 10 ^ 9)] u"

definition digits_num :: "string \<Rightarrow> nat" where
  "digits_num ds = opt_or 0 (parse_digits 0 ds)"

fun duration_terms :: "nat \<Rightarrow> nat \<Rightarrow> string \<Rightarrow> nat option" where
  "duration_terms 0 d s = (if s = [] then Some d else None)"
| "duration_terms (Suc fuel) d s =
     (if s = [] then Some d
      else (let ip = takeWhile is_digit s; s1 = dropWhile is_digit s;
                (fp, s2) = (case s1 of c # cs \<Rightarrow> if c = CHR ''.'' then (takeWhile is_digit cs, dropWhile is_digit cs) else ([], s1)
                            | [] \<Rightarrow> ([], s1));
                u = takeWhile (\<lambda>c. \<not> is_digit c \<and> c \<noteq> CHR ''.'') s2; s3 = dropWhile (\<lambda>c. \<not> is_digit c \<and> c \<noteq> CHR ''.'') s2
            in if ip = [] \<and> fp = [] then None
               else (case unit_ns u of
                   None \<Rightarrow> None
                 | Some k \<Rightarrow> (let v = digits_num ip * k + digits_num fp * k div 10 ^ length fp in
                     if 2 ^ 63 < d + v then None else duration_terms fuel (d + v) s3))))"

definition ParseDuration :: "string \<Rightarrow> int option" where
  "ParseDuration s = (let (neg, r) = (case s of [] \<Rightarrow> (False, s)
       | c # cs \<Rightarrow> if c = CHR ''-'' then (True, cs) else if c = CHR ''+'' then (False, cs) else (False, s)) in
     if r = ''0'' then Some 0
     else if r = [] then None
     else case duration_terms (length r) 0 r of
       None \<Rightarrow> None
     | Some d \<Rightarrow> if neg then Some (- int d) else if d < 2 ^ 63 then Some (int d) else None)"

type_synonym getenv = "string \<Rightarrow> string"

definition envDuration :: "getenv \<Rightarrow> string \<Rightarrow> int \<Rightarrow> int" where
  "envDuration Getenv key dflt = (case ParseDuration (Getenv key) of Some v \<Rightarrow> if v > 0 then v else dflt | None \<Rightarrow> dflt)"

definition envInt :: "getenv \<Rightarrow> string \<Rightarrow> go_int \<Rightarrow> go_int" where
  "envInt Getenv key dflt = (case Atoi (Getenv key) of Some v \<Rightarrow> if 0 <s v then v else dflt | None \<Rightarrow> dflt)"

definition missingKeys :: "(string \<times> string) list \<Rightarrow> string list" where
  "missingKeys vars = map fst (filter (\<lambda>v. snd v = []) vars)"

section \<open>Health checks\<close>

text \<open>\<open>probe url\<close> is the status of a GET request, \<open>None\<close> for any error.\<close>

definition HealthProbe :: "(string \<Rightarrow> nat option) \<Rightarrow> string \<Rightarrow> nat" where
  "HealthProbe probe addr = (let port = trim_prefix '':'' (trim_space addr) in
     if port = [] then 1
     else case probe (''http://localhost:'' @ port @ ''/health'') of
       None \<Rightarrow> 1
     | Some status \<Rightarrow> if status < 200 \<or> status \<ge> 300 then 1 else 0)"

definition healthCheckMode :: "(string \<Rightarrow> nat option) \<Rightarrow> string list \<Rightarrow> string \<Rightarrow> string \<Rightarrow> nat \<times> bool" where
  "healthCheckMode probe args publicAddr privateAddr =
     (if length args \<le> 1 \<or> args ! 1 \<noteq> ''-healthcheck'' then (0, False)
      else (let code = HealthProbe probe publicAddr in
        if code \<noteq> 0 then (code, True) else (HealthProbe probe privateAddr, True)))"

section \<open>Outbound clients\<close>

record client_config =
  cc_AuthAPIBaseURL :: string
  cc_EventsAPIBaseURL :: string
  cc_ClientID :: string
  cc_ClientSecret :: string
  cc_Scope :: string

record bearer_config =
  bc_TokenURL :: string
  bc_ClientID :: string
  bc_ClientSecret :: string
  bc_Scope :: string

definition trim_right_slash :: "string \<Rightarrow> string" where
  "trim_right_slash s = rev (dropWhile (\<lambda>c. c = CHR ''/'') (rev s))"

definition NewAuthenticatedClient :: "(bearer_config \<Rightarrow> 'h) \<Rightarrow> client_config \<Rightarrow> error + 'h" where
  "NewAuthenticatedClient newClient cfg =
     (if cc_AuthAPIBaseURL cfg = [] then Inl (GoError ''auth api base url is required'')
      else if cc_ClientID cfg = [] then Inl (GoError ''client id is required'')
      else if cc_ClientSecret cfg = [] then Inl (GoError ''client secret is required'')
      else (let scope = (if cc_Scope cfg = [] then ''svc:accounts-api'' else cc_Scope cfg) in
        Inr (newClient \<lparr>bc_TokenURL = trim_right_slash (cc_AuthAPIBaseURL cfg) @ ''/v1/oauth/token'',
          bc_ClientID = cc_ClientID cfg, bc_ClientSecret = cc_ClientSecret cfg, bc_Scope = scope\<rparr>)))"

definition NewPublisher :: "('h \<Rightarrow> string \<Rightarrow> error + 'k) \<Rightarrow> ('k \<Rightarrow> error + 'p) \<Rightarrow> client_config \<Rightarrow> 'h option \<Rightarrow> error + 'p" where
  "NewPublisher newSink newPublisher cfg authedClient =
     (if cc_EventsAPIBaseURL cfg = [] then Inl (GoError ''events api base url is required'')
      else case authedClient of
        None \<Rightarrow> Inl (GoError ''authenticated http client is required'')
      | Some h \<Rightarrow> (case newSink h (trim_right_slash (cc_EventsAPIBaseURL cfg) @ ''/publish'') of
          Inl e \<Rightarrow> Inl e
        | Inr sink \<Rightarrow> newPublisher sink))"

section \<open>Secrets\<close>

text \<open>The names of the secrets that are constants of the SDK.\<close>

record secret_names =
  JWT_PUBLIC_KEY :: string
  JWT_ISSUER :: string
  IDEMPOTENCY_TTL_SEC :: string
  RATE_LIMIT_RPS :: string
  RATE_LIMIT_BURST :: string

record boot_secrets =
  bs_jwtPublicKey :: string
  bs_jwtIssuer :: string
  bs_unsubscribeKey :: string
  bs_idempotencyTTLSec :: go_int
  bs_clientSecret :: string

definition secretKeys :: "secret_names \<Rightarrow> string list" where
  "secretKeys ns = [JWT_PUBLIC_KEY ns, JWT_ISSUER ns, IDEMPOTENCY_TTL_SEC ns, RATE_LIMIT_RPS ns, RATE_LIMIT_BURST ns,
     ''UNSUBSCRIBE_TOKEN_SECRET'', ''ACCOUNTS_API_CLIENT_SECRET'']"

text \<open>A missing key of a Go map reads as the empty string.\<close>

definition setBootstrapSecrets :: "secret_names \<Rightarrow> (string \<Rightarrow> string) \<Rightarrow> error option \<times> boot_secrets" where
  "setBootstrapSecrets ns vals =
     (let s = \<lparr>bs_jwtPublicKey = vals (JWT_PUBLIC_KEY ns), bs_jwtIssuer = vals (JWT_ISSUER ns),
            bs_unsubscribeKey = vals ''UNSUBSCRIBE_TOKEN_SECRET'',
            bs_idempotencyTTLSec = (case Atoi (vals (IDEMPOTENCY_TTL_SEC ns)) of Some v \<Rightarrow> if 0 <s v then v else 300 | None \<Rightarrow> 300),
            bs_clientSecret = vals ''ACCOUNTS_API_CLIENT_SECRET''\<rparr>;
          missing = missingKeys [(JWT_PUBLIC_KEY ns, bs_jwtPublicKey s), (JWT_ISSUER ns, bs_jwtIssuer s),
            (''UNSUBSCRIBE_TOKEN_SECRET'', bs_unsubscribeKey s), (''ACCOUNTS_API_CLIENT_SECRET'', bs_clientSecret s)]
      in (if length missing > 0
          then Some (GoError (''missing required secret-backed environment variables: '' @ join '', '' missing)) else None, s))"

section \<open>Bootstrap\<close>

record jwt_config =
  jc_PublicKeyPEM :: string
  jc_Issuer :: string
  jc_Audience :: string

text \<open>The constructors of the SDK: logger, secrets manager (\<open>sk_Secrets\<close> is \<open>New\<close> followed by \<open>GetSecrets\<close>, each with
  its own error), JWT verifier, DynamoDB and S3 clients, HTTP client, event sink and publisher.
  \<open>sk_ParseFloat\<close> is \<open>strconv.ParseFloat\<close>.\<close>

record ('d, 'o, 'j, 'h, 'k) sdk_new =
  sk_LoggerInit :: "string \<Rightarrow> error option"
  sk_SecretsNew :: "string \<Rightarrow> string \<Rightarrow> string \<Rightarrow> string list \<Rightarrow> error option"
  sk_GetSecrets :: "string list \<Rightarrow> error + (string \<Rightarrow> string)"
  sk_ParseFloat :: "string \<Rightarrow> rat option"
  sk_JWT :: "jwt_config \<Rightarrow> error + 'j"
  sk_DDB :: "string \<Rightarrow> string \<Rightarrow> error + 'd ddb_api"
  sk_S3 :: "string \<Rightarrow> string \<Rightarrow> error + 'o s3_api"
  sk_HTTP :: "bearer_config \<Rightarrow> 'h"
  sk_Sink :: "'h \<Rightarrow> string \<Rightarrow> error + 'k"
  sk_Publisher :: "'k \<Rightarrow> error + (event_input \<Rightarrow> error option)"

text \<open>Four goroutines, joined before their errors are looked at in a fixed order.\<close>

definition initClients :: "('d, 'o, 'j, 'h, 'k) sdk_new \<Rightarrow> string \<Rightarrow> string \<Rightarrow> string \<Rightarrow> string \<Rightarrow> string \<Rightarrow> string
    \<Rightarrow> (('j \<times> 'j) \<times> 'd ddb_api \<times> 'o s3_api) boot" where
  "initClients sk awsRegion awsEndpoint jwtPublicKey jwtIssuer userAudience serviceAudience =
     (case sk_JWT sk \<lparr>jc_PublicKeyPEM = jwtPublicKey, jc_Issuer = jwtIssuer, jc_Audience = userAudience\<rparr> of
        Inl e \<Rightarrow> Exit 1 ''failed to initialize user-plane jwt verifier''
      | Inr user \<Rightarrow> (case sk_JWT sk \<lparr>jc_PublicKeyPEM = jwtPublicKey, jc_Issuer = jwtIssuer, jc_Audience = serviceAudience\<rparr> of
          Inl e \<Rightarrow> Exit 1 ''failed to initialize service-plane jwt verifier''
        | Inr svc \<Rightarrow> (case sk_DDB sk awsRegion awsEndpoint of
            Inl e \<Rightarrow> Exit 1 ''failed to initialize dynamodb''
          | Inr ddb \<Rightarrow> (case sk_S3 sk awsRegion awsEndpoint of
              Inl e \<Rightarrow> Exit 1 ''failed to initialize s3 client''
            | Inr s3 \<Rightarrow> Up ((user, svc), ddb, s3)))))"

definition initOutboundClients :: "('d, 'o, 'j, 'h, 'k) sdk_new \<Rightarrow> string \<Rightarrow> string \<Rightarrow> string \<Rightarrow> string
    \<Rightarrow> (event_input \<Rightarrow> error option) boot" where
  "initOutboundClients sk authAPIBaseURL eventsAPIBaseURL clientID clientSecret =
     (if length (missingKeys [(''AUTH_API_BASE_URL'', authAPIBaseURL), (''EVENTS_API_BASE_URL'', eventsAPIBaseURL),
            (''ACCOUNTS_API_CLIENT_ID'', clientID)]) > 0
      then Exit 1 ''missing required outbound client environment variables''
      else (let cfg = \<lparr>cc_AuthAPIBaseURL = authAPIBaseURL, cc_EventsAPIBaseURL = eventsAPIBaseURL,
                  cc_ClientID = clientID, cc_ClientSecret = clientSecret, cc_Scope = []\<rparr> in
        case NewAuthenticatedClient (sk_HTTP sk) cfg of
          Inl e \<Rightarrow> Exit 1 ''failed to initialize authenticated service client''
        | Inr authedClient \<Rightarrow> (case NewPublisher (sk_Sink sk) (sk_Publisher sk) cfg (Some authedClient) of
            Inl e \<Rightarrow> Exit 1 ''failed to initialize domain event publisher''
          | Inr publisher \<Rightarrow> Up publisher)))"

record ('d, 'o, 'j) bootstrap_result =
  br_user :: 'j
  br_service :: 'j
  br_ddb :: "'d ddb_api"
  br_s3Client :: "'o s3_api"
  br_unsubscribeKey :: string
  br_limiterRPS :: rat
  br_limiterBurst :: rat
  br_idempotencyTTLSec :: go_int
  br_eventPublisher :: "event_input \<Rightarrow> error option"

definition positive_rate :: "('d, 'o, 'j, 'h, 'k) sdk_new \<Rightarrow> string \<Rightarrow> rat \<Rightarrow> rat" where
  "positive_rate sk s dflt = (case sk_ParseFloat sk (trim_space s) of Some v \<Rightarrow> if v > 0 then v else dflt | None \<Rightarrow> dflt)"

definition bootstrap :: "('d, 'o, 'j, 'h, 'k) sdk_new \<Rightarrow> secret_names \<Rightarrow> getenv \<Rightarrow> ('d, 'o, 'j) bootstrap_result boot" where
  "bootstrap sk ns Getenv =
     (case sk_LoggerInit sk (Getenv ''LOG_LEVEL'') of
        Some e \<Rightarrow> Exit 1 ''failed to initialize logger''
      | None \<Rightarrow>
     (let awsRegion = Getenv ''AWS_REGION''; awsEndpoint = Getenv ''AWS_ENDPOINT'' in
      case sk_SecretsNew sk awsRegion awsEndpoint (Getenv ''AWS_SECRET_PATH'') (secretKeys ns) of
        Some e \<Rightarrow> Exit 1 ''failed to initialize secrets manager''
      | None \<Rightarrow>
     (case sk_GetSecrets sk (secretKeys ns) of
        Inl e \<Rightarrow> Exit 1 ''failed to fetch secrets''
      | Inr fetched \<Rightarrow>
     (case setBootstrapSecrets ns fetched of
        (Some e, _) \<Rightarrow> Exit 1 ''failed to load secret-backed configuration''
      | (None, secrets) \<Rightarrow>
     (let rps = positive_rate sk (fetched (RATE_LIMIT_RPS ns)) 10;
          burst = positive_rate sk (fetched (RATE_LIMIT_BURST ns)) 20;
          userAudience = (if Getenv ''JWT_AUDIENCE_USER'' \<noteq> [] then Getenv ''JWT_AUDIENCE_USER'' else ''komodo-apis:user'');
          serviceAudience = (if Getenv ''JWT_AUDIENCE_SERVICE'' \<noteq> [] then Getenv ''JWT_AUDIENCE_SERVICE''
                             else ''komodo-apis:service'')
      in case initClients sk awsRegion awsEndpoint (bs_jwtPublicKey secrets) (bs_jwtIssuer secrets) userAudience serviceAudience of
           Exit n m \<Rightarrow> Exit n m
         | Up ((user, svc), ddb, s3) \<Rightarrow>
             (case initOutboundClients sk (Getenv ''AUTH_API_BASE_URL'') (Getenv ''EVENTS_API_BASE_URL'')
                 (Getenv ''ACCOUNTS_API_CLIENT_ID'') (bs_clientSecret secrets) of
                Exit n m \<Rightarrow> Exit n m
              | Up publisher \<Rightarrow> Up \<lparr>br_user = user, br_service = svc, br_ddb = ddb, br_s3Client = s3,
                  br_unsubscribeKey = bs_unsubscribeKey secrets, br_limiterRPS = rps, br_limiterBurst = burst,
                  br_idempotencyTTLSec = bs_idempotencyTTLSec secrets, br_eventPublisher = publisher\<rparr>))))))"

section \<open>main\<close>

record 'j listener =
  ls_Addr :: string
  ls_Verifier :: 'j
  ls_Routes :: "route list"
  ls_ReadTimeout :: int
  ls_WriteTimeout :: int
  ls_IdleTimeout :: int
  ls_ReadHeaderTimeout :: int
  ls_MaxHeaderBytes :: nat

record ('d, 'o, 'j) deployment =
  dp_service :: "('d, 'o) service"
  dp_profiles :: "(string, account) ttl_cache"
  dp_creds :: "(string, credentials_response) ttl_cache"
  dp_idempotencyTTLSec :: go_int
  dp_shutdownTimeout :: int
  dp_public :: "'j listener"
  dp_private :: "'j listener"

text \<open>The second half of \<open>main\<close>: the service and the two listeners, from what \<open>bootstrap\<close> returned.\<close>

definition service_config :: "getenv \<Rightarrow> ('d, 'o, 'j) bootstrap_result \<Rightarrow> ('d, 'o) service_extra_config" where
  "service_config Getenv svr = \<lparr>cfg_S3Client = Some (br_s3Client svr), cfg_ExportBucket = Getenv ''S3_EXPORT_BUCKET'',
     cfg_UnsubscribeKey = br_unsubscribeKey svr, cfg_AvatarBucket = Getenv ''S3_AVATAR_BUCKET'',
     cfg_PresignTTL = envDuration Getenv ''S3_PRESIGN_TTL'' (15 * 60 * second),
     cfg_UnsubTokenTTL = envDuration Getenv ''UNSUBSCRIBE_TOKEN_TTL'' (30 * 24 * 3600 * second),
     cfg_CacheTTL = envDuration Getenv ''PROFILE_CACHE_TTL'' (60 * second),
     cfg_CacheMaxSize = sint (envInt Getenv ''PROFILE_CACHE_MAX_ENTRIES'' 100000),
     cfg_EventPublisher = Some (br_eventPublisher svr)\<rparr>"

definition new_listener :: "getenv \<Rightarrow> string \<Rightarrow> 'j \<Rightarrow> route list \<Rightarrow> 'j listener" where
  "new_listener Getenv addr verifier routes = \<lparr>ls_Addr = addr, ls_Verifier = verifier, ls_Routes = routes,
     ls_ReadTimeout = envDuration Getenv ''SERVER_READ_TIMEOUT'' (5 * second),
     ls_WriteTimeout = envDuration Getenv ''SERVER_WRITE_TIMEOUT'' (10 * second),
     ls_IdleTimeout = envDuration Getenv ''SERVER_IDLE_TIMEOUT'' (60 * second),
     ls_ReadHeaderTimeout = envDuration Getenv ''SERVER_READ_HEADER_TIMEOUT'' (2 * second),
     ls_MaxHeaderBytes = 2 ^ 20\<rparr>"

definition deploy :: "domain_new \<Rightarrow> env \<Rightarrow> grouping \<Rightarrow> getenv \<Rightarrow> ('d, 'o, 'j) bootstrap_result \<Rightarrow> ('d, 'o, 'j) deployment" where
  "deploy dnew en grp Getenv svr =
     (let (svc, profiles, creds) = NewService dnew en
            (db_repository \<lparr>client = br_ddb svr, tab = Getenv ''DYNAMODB_TABLE''\<rparr>) (service_config Getenv svr)
      in \<lparr>dp_service = svc, dp_profiles = profiles, dp_creds = creds,
           dp_idempotencyTTLSec = br_idempotencyTTLSec svr,
           dp_shutdownTimeout = envDuration Getenv ''SERVER_SHUTDOWN_TIMEOUT'' (30 * second),
           dp_public = new_listener Getenv (Getenv ''PORT'') (br_user svr) (NewPublicMux grp),
           dp_private = new_listener Getenv (Getenv ''PORT_PRIVATE'') (br_service svr) (NewPrivateMux grp)\<rparr>)"

text \<open>Everything up to the call of \<open>sdkserver.Serve\<close>, with the configuration it is given.\<close>

definition main :: "('d, 'o, 'j, 'h, 'k) sdk_new \<Rightarrow> secret_names \<Rightarrow> (string \<Rightarrow> nat option) \<Rightarrow> domain_new \<Rightarrow> env \<Rightarrow> grouping
    \<Rightarrow> string list \<Rightarrow> getenv \<Rightarrow> ('d, 'o, 'j) deployment boot" where
  "main sk ns probe dnew en grp args Getenv =
     (case healthCheckMode probe args (Getenv ''PORT'') (Getenv ''PORT_PRIVATE'') of (code, isHealthCheck) \<Rightarrow>
        if isHealthCheck then Exit code ''Health check mode enabled.''
        else (let missing = missingKeys (map (\<lambda>k. (k, Getenv k))
                [''PORT'', ''PORT_PRIVATE'', ''DYNAMODB_TABLE'', ''S3_EXPORT_BUCKET'', ''S3_AVATAR_BUCKET''])
          in if length missing > 0
             then Exit 1 (''missing required environment variables: '' @ join '', '' missing)
             else case bootstrap sk ns Getenv of
               Exit n m \<Rightarrow> Exit n m
             | Up svr \<Rightarrow> Up (deploy dnew en grp Getenv svr)))"

section \<open>Properties\<close>

lemma missingKeys_none: "missingKeys vars = [] \<longleftrightarrow> (\<forall>(k, v) \<in> set vars. v \<noteq> [])"
  by (auto simp: missingKeys_def filter_empty_conv)

lemma envDuration_pos: "0 < dflt \<Longrightarrow> 0 < envDuration g k dflt"
  by (simp add: envDuration_def split: option.splits)

lemma envInt_pos: "0 < sint dflt \<Longrightarrow> 0 < sint (envInt g k dflt)"
  by (simp add: envInt_def word_sless_alt split: option.splits)

lemma positive_rate_pos: "0 < dflt \<Longrightarrow> 0 < positive_rate sk s dflt"
  by (simp add: positive_rate_def split: option.splits)

lemma setBootstrapSecrets_None:
  "setBootstrapSecrets ns vals = (None, s) \<Longrightarrow> bs_unsubscribeKey s \<noteq> [] \<and> 0 < sint (bs_idempotencyTTLSec s)"
  by (auto simp: setBootstrapSecrets_def Let_def missingKeys_none word_sless_alt split: if_splits option.splits)

lemma bootstrap_Up:
  assumes "bootstrap sk ns Getenv = Up svr"
  shows "br_unsubscribeKey svr \<noteq> [] \<and> 0 < sint (br_idempotencyTTLSec svr) \<and> 0 < br_limiterRPS svr \<and> 0 < br_limiterBurst svr"
proof -
  from assms obtain vals secrets where s: "setBootstrapSecrets ns vals = (None, secrets)"
    and "br_unsubscribeKey svr = bs_unsubscribeKey secrets" "br_idempotencyTTLSec svr = bs_idempotencyTTLSec secrets"
      "br_limiterRPS svr = positive_rate sk (vals (RATE_LIMIT_RPS ns)) 10"
      "br_limiterBurst svr = positive_rate sk (vals (RATE_LIMIT_BURST ns)) 20"
    unfolding bootstrap_def Let_def
    by (auto split: option.split_asm sum.split_asm prod.split_asm boot.split_asm)
  with setBootstrapSecrets_None [OF s] show ?thesis by (simp add: positive_rate_pos)
qed


definition sample_new :: "(mem, unit, unit, unit, unit) sdk_new" where
  "sample_new = \<lparr>sk_LoggerInit = (\<lambda>_. None), sk_SecretsNew = (\<lambda>_ _ _ _. None),
     sk_GetSecrets = (\<lambda>_. Inr (\<lambda>k. if k = ''ttl'' then ''600'' else ''value'')), sk_ParseFloat = (\<lambda>_. None),
     sk_JWT = (\<lambda>_. Inr ()), sk_DDB = (\<lambda>_ _. Inr mem_api),
     sk_S3 = (\<lambda>_ _. Inr \<lparr>s3_ListObjects = (\<lambda>_ _ s. (Inr [], s)), s3_DeleteObjects = (\<lambda>_ _ s. (None, s)),
        s3_DeleteObject = (\<lambda>_ _ s. (None, s)), s3_PutObject = (\<lambda>_ _ _ _ s. (None, s)),
        s3_PresignGet = (\<lambda>_ _ _ s. (Inr ''url'', s)), s3_PresignPut = (\<lambda>_ _ _ _ _ s. (Inr ''url'', s))\<rparr>),
     sk_HTTP = (\<lambda>_. ()), sk_Sink = (\<lambda>_ _. Inr ()), sk_Publisher = (\<lambda>_. Inr (\<lambda>_. None))\<rparr>"

definition sample_names :: secret_names where
  "sample_names = \<lparr>JWT_PUBLIC_KEY = ''key'', JWT_ISSUER = ''issuer'', IDEMPOTENCY_TTL_SEC = ''ttl'', RATE_LIMIT_RPS = ''rps'',
     RATE_LIMIT_BURST = ''burst''\<rparr>"

definition sample_getenv :: getenv where
  "sample_getenv k = (if k = ''PROFILE_CACHE_TTL'' then ''1m30s'' else ''8080'')"


end
