(* ===== verification/Spec2Isabelle.thy ===== *)
theory Spec2Isabelle
  imports Directory Defaults_Svc Enums Isolation Startup
begin

text \<open>
  A verification of the Komodo accounts API, the service under \<open>src/\<close>: the record of who a customer is
  (profile, settings, addresses, payment methods, preferences, consents, passkeys) over one DynamoDB table.

  \<^bold>\<open>The program.\<close> A request enters one of two ports. The route table (\<open>internal/server/mux.go\<close>) picks a handler and
  puts a chain of middleware in front of it. The handler (\<open>internal/api\<close>, the functions named \<open>...Handler\<close>) decodes
  the body, calls a method of \<open>Service\<close> and turns its result into a response. The method applies the business
  rules, keeps two caches (\<open>internal/ttlcache\<close>), publishes events (\<open>internal/clients\<close>, \<open>internal/models/events\<close>), reads and
  writes objects in S3, and calls the repository (\<open>internal/db\<close>), which alone talks to the table. \<open>cmd/server\<close>
  reads secrets and environment and puts it all together.

  \<^bold>\<open>The library, from the bottom.\<close>

  \<^item> \<open>Prelude\<close>, \<open>Go_Time\<close>, \<open>Errors\<close>: strings and pointers of Go, instants and their two layouts, and one datatype with every
    sentinel of \<open>internal/db/account.go\<close> and \<open>internal/api/errors.go\<close>.
  \<^item> \<open>Dynamo\<close>: the interface of the DynamoDB client that the repository uses, as a record of operations, the syntax of
    the conditions, keys and updates the program writes, and the locale \<open>dynamo\<close> with the documented laws of the
    store (a write is atomic and tests its condition, a transaction is all or nothing and has at most 100 items, a
    query returns the matching items in key order, anything may fail without effect, and a failed write may have
    been committed). \<open>Dynamo_Parse\<close> reads those texts back; \<open>Dynamo_Mem\<close> is an executable store with a list of faults
    to inject, on which the locale is interpreted, so every witness runs the code's own expression texts.
  \<^item> \<open>Models\<close>, \<open>Enums\<close>: the contract's types (\<open>internal/models\<close>), the value tests of the enumerations, and how they
    relate to the checks the service makes.
  \<^item> \<open>Repo_Base\<close>: \<open>internal/db/utils.go\<close>, the sort keys, the idiom that builds partial updates, and the lemmas that read such an
    update as a list of assignments. \<open>Registry\<close>: what the table promises about email addresses (\<open>registry_ok\<close>).
  \<^item> \<open>Account_Db\<close>, \<open>Settings_Db\<close>, \<open>Address_Db\<close>, \<open>Payments_Db\<close> (with \<open>Defaults_Db\<close>, the moving default flag), \<open>Prefs_Db\<close>, \<open>Consent_Db\<close>,
    \<open>Passkeys_Db\<close>: one theory per file of \<open>internal/db\<close>, with its records, the (un)marshalling by field tags, every operation,
    and a lemma \<open>..._spec\<close> that says what each operation does to the table on every branch.
  \<^item> \<open>Repo_System\<close>: the repository as a step relation, with the invariant of all reachable tables. \<open>Directory\<close>: its contract
    about identity as an abstract machine, and the simulation.
  \<^item> \<open>Ttl_Cache\<close>: \<open>internal/ttlcache/cache.go\<close>. \<open>Events\<close>: the events and their constructors. \<open>Service\<close>: the state of the service
    (table, objects, caches, sent events, a counter of readings of the clock), the Go interface \<open>repository\<close>, \<open>NewService\<close>.
  \<^item> \<open>Account_Svc\<close>, \<open>Settings_Svc\<close>, \<open>Resource_Svc\<close>, \<open>Unsubscribe_Svc\<close>: the methods of \<open>Service\<close>, file by file. The locales
    \<open>account_repository\<close>, \<open>settings_repository\<close>, \<open>consent_repository\<close> are the contracts the methods rest on; they are
    interpreted on \<open>db_repository r\<close> for every store \<open>r\<close>. \<open>Defaults_Svc\<close> has the contract of the two-step default change.
    \<open>Json\<close>, \<open>Base64_Url\<close>, \<open>Sha256\<close> are the encoders of the standard library that the tokens use, written out.
  \<^item> \<open>Http_Api\<close>: the table of API errors, the mapping of errors to responses, and all handlers. \<open>Routes\<close>: both route tables
    with their chains and the dispatch of a request. \<open>Isolation\<close>: what a request can change, from the partition of each
    repository operation (locale \<open>tenant_repository\<close>) up to the port.
  \<^item> \<open>Startup\<close>: \<open>cmd/server\<close>, the health probe, and the constructors of the outbound clients.

  \<^bold>\<open>What is shown.\<close> For the repository: each operation changes exactly the items and attributes it should and reports each
  error only for its cause; registration is atomic, erasure complete and repeatable; in every reachable table an email
  address has one owner, and the whole is a refinement of an address directory; settings are a compare-and-set; exactly
  one default is left by a default change; the consent log only grows; a passkey counter never falls. For the service: a
  cached profile is the stored one, changed credentials are uncached, nothing is erased without the confirmation, tags
  stay in the caller's name space and below the limit, an upload is signed within bounds, tokens cannot be forged, survive
  the round trip and are harmless when used twice. For the ports: nothing changes but the caller's own data, and
  nothing on the private port without authentication and the scope check. For the start: a process that serves is
  configured. Several theorems state behaviour that the documents rule out: a tag request that adds and
  removes always fails, one for an unknown account blocks its registration, a change of status leaves the cached sign-in
  answer, a status is stored in any letter case, and a failure between the two steps of a default change leaves two.

  \<^bold>\<open>How the code is represented.\<close> An operation takes the state and returns its result with the new state, an error is the
  left side of a sum (or \<open>Some\<close> for a bare error), and \<open>nil\<close> pointers are \<open>None\<close>. Machine integers are 64-bit words. Wrapping an error
  with \<open>%w\<close> keeps its identity, so a wrapped sentinel is the sentinel. Instants are UTC; the clock and the identifiers drawn
  are functions of a counter in the state, on which nothing is assumed but what a theorem names. Strings are lists of
  8-bit characters (bytes); letter case is that of ASCII. A nil slice and an empty one are the same, but where the wire format
  differs. Operations run one at a time; the concurrent reads of the export are taken in sequence. Every read
  of the store, of its email index too, sees the latest committed table. Log lines, response headers and
  request contexts (deadlines) are left out.

  \<^bold>\<open>Parameters.\<close> Code that is not under \<open>src/\<close> is an argument of the definitions: the DynamoDB and S3 clients, the generator of
  identifiers, the construction of an event and the publisher, the middleware of the SDK, the router's \<open>Group\<close>
  (hypothesis \<open>group_law\<close>), the decoding of bodies (\<open>codec\<close>), and the constructors of clients at the start.

  \<^bold>\<open>Bounds.\<close> The only fuel is that of the JSON parser; it is the length of the text plus one, and \<open>parse_value_fuel\<close> shows that
  more never changes the result. Limits of the store appear as hypotheses: a group of items that fits in one page
  (\<open>group_fits\<close>) and a default change within one transaction (fewer than 100 flags to move). Erasure works in chunks of 100
  and has no such hypothesis.

  \<^bold>\<open>Not modelled.\<close> The generated types and aliases that no code uses (\<open>MySettings\<close>, \<open>RecordConsentRequest\<close>, \<open>UpdateEmailRequest\<close>,
  \<open>ProblemDetail\<close>, the parameter and body aliases of \<open>models.gen.go\<close>); the text of log lines; the serving loop and its shutdown,
  which belong to the SDK; tests. Response bodies are values, not JSON text.
\<close>

end
